(* ===== verification/Prelude.thy ===== *)
theory Prelude
  imports Main "HOL-Library.Word"
begin

section \<open>Shared types, errors, byte codecs and machine runs\<close>

text \<open>
  What every component of the model shares: the types of JavaScript values the browser
  client handles (byte arrays, strings, errors), the result type of code that may throw,
  big-endian integer fields (the \<open>setBigUint64\<close> and \<open>getBigUint64\<close> of a \<open>DataView\<close>), the
  interface of a text codec for byte arrays, and runs of an event-driven machine.

  A JavaScript string is the list of its code units; \<open>char\<close> holds the units up to 255,
  which covers everything the protocol itself produces (hex, base64, session ids, codes,
  message types) and every Latin-1 file name; theory Json says how a larger unit stands in
  the model.
\<close>

unbundle bit_operations_syntax

type_synonym byte = "8 word"
type_synonym bytes = "byte list"

named_theorems codec_simps \<open>evaluation and length facts of byte and text codecs\<close>
named_theorems machine_simps \<open>unfolding rules of the event-driven machines\<close>
named_theorems machine_inv \<open>invariant preservation facts of the event-driven machines\<close>

subsection \<open>Errors as values\<close>

text \<open>
  What the code throws or a platform promise rejects with. \<open>Error_msg\<close> is \<open>new Error(msg)\<close>;
  \<open>Abort_error\<close> is the \<open>DOMException\<close> named AbortError with its optional \<open>reason\<close> property;
  the others are the exceptions of the platform calls the code makes.
\<close>

datatype js_error =
    Error_msg string
  | Type_error
  | Invalid_character
  | Operation_error
  | Syntax_error
  | Read_error
  | Abort_error "string option"

type_synonym 'a res = "js_error + 'a"

definition res_bind :: "'a res \<Rightarrow> ('a \<Rightarrow> 'b res) \<Rightarrow> 'b res" where
  "res_bind r f = (case r of Inl e \<Rightarrow> Inl e | Inr x \<Rightarrow> f x)"

lemma res_bind_simps [simp]:
  "res_bind (Inl e) f = Inl e"
  "res_bind (Inr x) f = f x"
  by (simp_all add: res_bind_def)

lemma res_bind_eq_Inr: "res_bind r f = Inr y \<longleftrightarrow> (\<exists>x. r = Inr x \<and> f x = Inr y)"
  by (cases r) simp_all

lemma res_bind_eq_Inl:
  "res_bind r f = Inl e \<longleftrightarrow> r = Inl e \<or> (\<exists>x. r = Inr x \<and> f x = Inl e)"
  by (cases r) simp_all

subsection \<open>Numbers and strings\<close>

text \<open>
  A template literal writes a number in decimal, and \<open>TextEncoder.encode\<close> writes a string
  in UTF-8: one byte for a code unit below 128, two for one up to 255.
\<close>

definition dec_digit :: "nat \<Rightarrow> char" where
  "dec_digit d = char_of (48 + d)"

function num_string :: "nat \<Rightarrow> string" where
  "num_string n = (if n < 10 then [dec_digit n] else num_string (n div 10) @ [dec_digit (n mod 10)])"
  by pat_completeness auto
termination
  by (relation "measure id") auto

declare num_string.simps [simp del]

definition dec_value :: "string \<Rightarrow> nat" where
  "dec_value s = foldl (\<lambda>acc c. acc * 10 + (of_char c - 48)) 0 s"

lemma dec_value_num_string: "dec_value (num_string n) = n"
proof (induction n rule: num_string.induct)
  case (1 n)
  then show ?case
    by (subst num_string.simps) (simp add: dec_value_def dec_digit_def)
qed

lemma num_string_inj [simp]: "num_string m = num_string n \<longleftrightarrow> m = n"
  by (metis dec_value_num_string)

lemma num_string_digits: "c \<in> set (num_string n) \<Longrightarrow> (of_char c :: nat) \<in> {48..57}"
proof (induction n rule: num_string.induct)
  case (1 n)
  then show ?case
    by (subst (asm) (2) num_string.simps) (auto simp: dec_digit_def split: if_splits)
qed

definition utf8_unit :: "char \<Rightarrow> bytes" where
  "utf8_unit c = (let n = of_char c :: nat in
     if n < 128 then [of_nat n] else [of_nat (192 + n div 64), of_nat (128 + n mod 64)])"

definition utf8_encode :: "string \<Rightarrow> bytes" where
  "utf8_encode s = concat (map utf8_unit s)"

subsection \<open>Big-endian integer fields\<close>

text \<open>
  \<open>DataView.setBigUint64(off, v, false)\<close> writes \<open>v\<close> modulo \<open>2^64\<close> in eight bytes, most
  significant first; \<open>setUint32\<close> does the same with four. \<open>be_bytes n v\<close> is the field of
  \<open>n\<close> bytes and \<open>be_val\<close> what \<open>getBigUint64\<close> reads back.
\<close>

lemma byte_bound: "unat (b :: byte) < 256"
  using unsigned_less [of b] by simp

lemma unat_byte_mod [simp]: "unat (b :: byte) mod 256 = unat b"
  by (simp add: byte_bound)

primrec be_bytes :: "nat \<Rightarrow> int \<Rightarrow> bytes" where
  "be_bytes 0 v = []"
| "be_bytes (Suc n) v = be_bytes n (v div 256) @ [word_of_int v]"

definition be_val :: "bytes \<Rightarrow> int" where
  "be_val bs = foldl (\<lambda>acc b. acc * 256 + uint b) 0 bs"

lemma length_be_bytes [simp, codec_simps]: "length (be_bytes n v) = n"
  by (induction n arbitrary: v) simp_all

lemma be_val_Nil [simp]: "be_val [] = 0"
  by (simp add: be_val_def)

lemma be_val_snoc [simp]: "be_val (bs @ [b]) = be_val bs * 256 + uint b"
  by (simp add: be_val_def)

lemma uint_byte_of_int: "uint (word_of_int v :: byte) = v mod 256"
  by (simp add: uint_word_of_int)

lemma be_val_be_bytes [codec_simps]: "be_val (be_bytes n v) = v mod 256 ^ n"
proof (induction n arbitrary: v)
  case 0
  then show ?case by simp
next
  case (Suc n)
  have "be_val (be_bytes (Suc n) v) = (v div 256 mod 256 ^ n) * 256 + v mod 256"
    by (simp add: Suc uint_byte_of_int)
  also have "\<dots> = v mod (256 * 256 ^ n)"
    by (subst zmod_zmult2_eq) (simp_all add: mult.commute)
  finally show ?case by simp
qed

lemma be_bytes_mod: "be_bytes n (v mod 256 ^ n) = be_bytes n v"
proof (induction n arbitrary: v)
  case 0
  then show ?case by simp
next
  case (Suc n)
  have div: "v mod 256 ^ Suc n div 256 = v div 256 mod 256 ^ n"
    by (simp add: zmod_zmult2_eq)
  have "(v mod 256 ^ Suc n) mod 256 = v mod 256"
    by (simp add: mod_mod_cancel)
  then have "(word_of_int (v mod 256 ^ Suc n) :: byte) = word_of_int v"
    by (metis uint_byte_of_int word_uint_eq_iff)
  with div Suc show ?case by simp
qed

lemma be_bytes_mod_cong: "v mod 256 ^ n = w mod 256 ^ n \<Longrightarrow> be_bytes n v = be_bytes n w"
  by (metis be_bytes_mod)

lemma be_bytes_inj:
  assumes "0 \<le> v" "v < 256 ^ n" "0 \<le> w" "w < 256 ^ n" and "be_bytes n v = be_bytes n w"
  shows "v = w"
proof -
  have "v mod 256 ^ n = w mod 256 ^ n"
    using assms(5) by (metis be_val_be_bytes)
  with assms show ?thesis by (simp add: mod_pos_pos_trivial)
qed

lemma be_val_bounds: "0 \<le> be_val bs \<and> be_val bs < 256 ^ length bs"
proof (induction bs rule: rev_induct)
  case Nil
  then show ?case by simp
next
  case (snoc b bs)
  have "uint b < 256" using unsigned_less [of b] by simp
  with snoc show ?case by (simp add: algebra_simps)
qed

subsection \<open>The interface of a text codec\<close>

text \<open>
  The client writes byte arrays as text in two places: ids and tags in messages (hex) and
  the session key in the pairing link (base64url). Both sides rely on the same law: what
  was encoded decodes to the same bytes.
\<close>

locale text_codec =
  fixes enc :: "bytes \<Rightarrow> string"
    and dec :: "string \<Rightarrow> bytes res"
    and alphabet :: "char set"
  assumes dec_enc: "dec (enc bs) = Inr bs"
    and enc_alphabet: "set (enc bs) \<subseteq> alphabet"
begin

lemma enc_inj: "enc as = enc bs \<longleftrightarrow> as = bs"
  by (metis dec_enc sum.inject(2))

lemma enc_char: "c \<in> set (enc bs) \<Longrightarrow> c \<in> alphabet"
  using enc_alphabet by blast

lemma enc_avoids: "c \<notin> alphabet \<Longrightarrow> c \<notin> set (enc bs)"
  using enc_alphabet by blast

end

subsection \<open>Runs of an event-driven machine\<close>

text \<open>
  A component with listeners is a step function from a state and an event to the next
  state. Every event handler of the client runs to its next \<open>await\<close> without interruption,
  so one event is one step, and a run is the fold over the events. The interface
  \<open>event_machine\<close> is what a component promises of its invariant, in every context \<open>c\<close> (its
  parameters) that satisfies its requirements \<open>ok c\<close>; its clients get the invariant in every
  reachable state.
\<close>

definition run :: "('s \<Rightarrow> 'e \<Rightarrow> 's) \<Rightarrow> 's \<Rightarrow> 'e list \<Rightarrow> 's" where
  "run step s evs = foldl step s evs"

lemma run_Nil [simp, machine_simps]: "run step s [] = s"
  by (simp add: run_def)

lemma run_Cons [simp, machine_simps]: "run step s (e # evs) = run step (step s e) evs"
  by (simp add: run_def)

lemma run_append [machine_simps]: "run step s (xs @ ys) = run step (run step s xs) ys"
  by (simp add: run_def)

lemma run_snoc [machine_simps]: "run step s (xs @ [e]) = step (run step s xs) e"
  by (simp add: run_def)

locale event_machine =
  fixes ok :: "'c \<Rightarrow> bool"
    and init :: "'c \<Rightarrow> 's"
    and step :: "'c \<Rightarrow> 's \<Rightarrow> 'e \<Rightarrow> 's"
    and inv :: "'c \<Rightarrow> 's \<Rightarrow> bool"
  assumes init_inv: "ok c \<Longrightarrow> inv c (init c)"
    and step_inv: "ok c \<Longrightarrow> inv c s \<Longrightarrow> inv c (step c s e)"
begin

lemma run_inv: "ok c \<Longrightarrow> inv c s \<Longrightarrow> inv c (run (step c) s evs)"
  by (induction evs arbitrary: s) (auto simp: step_inv)

lemma reach_inv: "ok c \<Longrightarrow> inv c (run (step c) (init c) evs)"
  by (simp add: init_inv run_inv)

text \<open>A property every step keeps beside the invariant holds along the run as well.\<close>

lemma run_keeps:
  assumes "ok c" "inv c s" "P s"
    and "\<And>s e. inv c s \<Longrightarrow> P s \<Longrightarrow> P (step c s e)"
  shows "P (run (step c) s evs)"
proof -
  have "inv c (run (step c) s evs) \<and> P (run (step c) s evs)"
    using assms(2,3)
    by (induction evs arbitrary: s) (auto simp: step_inv [OF assms(1)] assms(4))
  then show ?thesis by simp
qed

end

end
