(* ===== verification/Hex.thy ===== *)
theory Hex
  imports Prelude
begin

section \<open>Hex text of byte arrays (web/hex.js)\<close>

text \<open>
  \<open>toHex\<close> and \<open>fromHex\<close> of web/hex.js, with the parts of the language they rest on:
  \<open>Number.prototype.toString(16)\<close> on a byte, \<open>padStart\<close>, \<open>substr\<close>, \<open>parseInt(s, 16)\<close> with
  its leading white space, sign, \<open>0x\<close> prefix and stop at the first character that is no
  digit, and the store of its result into a \<open>Uint8Array\<close>, where NaN becomes 0 and any
  other integer is taken modulo 256.
\<close>

definition hex_digits :: string where
  "hex_digits = ''0123456789abcdef''"

function toString16 :: "nat \<Rightarrow> string" where
  "toString16 n = (if n < 16 then [hex_digits ! n]
                   else toString16 (n div 16) @ [hex_digits ! (n mod 16)])"
  by pat_completeness auto
termination
  by (relation "measure id") auto

declare toString16.simps [simp del]

definition padStart :: "nat \<Rightarrow> char \<Rightarrow> string \<Rightarrow> string" where
  "padStart n c s = replicate (n - length s) c @ s"

definition byte_toHex :: "byte \<Rightarrow> string" where
  "byte_toHex b = padStart 2 (CHR ''0'') (toString16 (unat b))"

definition toHex :: "bytes \<Rightarrow> string" where
  "toHex bs = concat (map byte_toHex bs)"

text \<open>The pieces of \<open>parseInt(s, 16)\<close>.\<close>

definition is_js_space :: "char \<Rightarrow> bool" where
  "is_js_space c \<longleftrightarrow> of_char c \<in> {9, 10, 11, 12, 13, 32, 160 :: nat}"

definition hex_value :: "char \<Rightarrow> nat option" where
  "hex_value c = (let n = of_char c :: nat in
     if 48 \<le> n \<and> n \<le> 57 then Some (n - 48)
     else if 97 \<le> n \<and> n \<le> 102 then Some (n - 87)
     else if 65 \<le> n \<and> n \<le> 70 then Some (n - 55)
     else None)"

fun hex_digits_value :: "nat \<Rightarrow> string \<Rightarrow> nat" where
  "hex_digits_value acc [] = acc"
| "hex_digits_value acc (c # cs) =
     (case hex_value c of None \<Rightarrow> acc | Some d \<Rightarrow> hex_digits_value (acc * 16 + d) cs)"

definition strip_0x :: "string \<Rightarrow> string" where
  "strip_0x s = (case s of a # b # r \<Rightarrow> if a = CHR ''0'' \<and> b \<in> {CHR ''x'', CHR ''X''} then r else s
                 | _ \<Rightarrow> s)"

definition parseInt16 :: "string \<Rightarrow> int option" where
  "parseInt16 str =
     (let s = dropWhile is_js_space str;
          neg = (s \<noteq> [] \<and> hd s = CHR ''-'');
          s1 = (if s \<noteq> [] \<and> hd s \<in> {CHR ''-'', CHR ''+''} then tl s else s);
          s2 = strip_0x s1
      in if s2 = [] \<or> hex_value (hd s2) = None then None
         else Some ((if neg then - 1 else 1) * int (hex_digits_value 0 s2)))"

definition to_uint8 :: "int option \<Rightarrow> byte" where
  "to_uint8 v = (case v of None \<Rightarrow> 0 | Some i \<Rightarrow> word_of_int i)"

definition substr :: "string \<Rightarrow> nat \<Rightarrow> nat \<Rightarrow> string" where
  "substr s start len = take len (drop start s)"

text \<open>
  \<open>new Uint8Array(hex.length / 2)\<close> truncates a fractional length, so a text of odd length
  loses its last character.
\<close>

definition fromHex :: "string \<Rightarrow> bytes" where
  "fromHex hex = map (\<lambda>i. to_uint8 (parseInt16 (substr hex (i * 2) 2))) [0..<length hex div 2]"

subsection \<open>Digits and single bytes\<close>

definition hex_digit_ok :: "nat \<Rightarrow> bool" where
  "hex_digit_ok d \<longleftrightarrow>
     (let c = hex_digits ! d in
      hex_value c = Some d \<and> \<not> is_js_space c \<and> c \<noteq> CHR ''-'' \<and> c \<noteq> CHR ''+'' \<and>
      c \<noteq> CHR ''x'' \<and> c \<noteq> CHR ''X'' \<and> c \<in> set hex_digits)"

lemma hex_digit_ok_all: "list_all hex_digit_ok [0..<16]"
  by code_simp

lemma hex_digit_ok: "d < 16 \<Longrightarrow> hex_digit_ok d"
  using hex_digit_ok_all by (simp add: list_all_iff)

lemma hex_digit [simp]:
  assumes "d < 16"
  shows "hex_value (hex_digits ! d) = Some d" "\<not> is_js_space (hex_digits ! d)"
    "hex_digits ! d \<noteq> CHR ''-''" "hex_digits ! d \<noteq> CHR ''+''"
    "hex_digits ! d \<noteq> CHR ''x''" "hex_digits ! d \<noteq> CHR ''X''"
    "hex_digits ! d \<in> set hex_digits"
  using hex_digit_ok [OF assms] by (simp_all add: hex_digit_ok_def Let_def)

lemma hex_digits_0: "hex_digits ! 0 = CHR ''0''"
  by (simp add: hex_digits_def)

lemma byte_toHex_digits:
  "byte_toHex b = [hex_digits ! (unat b div 16), hex_digits ! (unat b mod 16)]"
proof (cases "unat b < 16")
  case True
  then show ?thesis
    by (simp add: byte_toHex_def padStart_def toString16.simps [of "unat b"] hex_digits_0)
next
  case False
  have "unat b div 16 < 16" using byte_bound [of b] by simp
  with False show ?thesis
    by (simp add: byte_toHex_def padStart_def toString16.simps [of "unat b"]
        toString16.simps [of "unat b div 16"])
qed

lemma length_byte_toHex [simp, codec_simps]: "length (byte_toHex b) = 2"
  by (simp add: byte_toHex_digits)

lemma parseInt16_two_digits:
  assumes "h < 16" "l < 16"
  shows "parseInt16 [hex_digits ! h, hex_digits ! l] = Some (int (h * 16 + l))"
  using assms by (simp add: parseInt16_def strip_0x_def)

lemma parse_byte_toHex [simp, codec_simps]: "to_uint8 (parseInt16 (byte_toHex b)) = b"
proof -
  have "unat b div 16 < 16" "unat b mod 16 < 16" using byte_bound [of b] by simp_all
  then have "parseInt16 (byte_toHex b) = Some (int (unat b div 16 * 16 + unat b mod 16))"
    unfolding byte_toHex_digits by (rule parseInt16_two_digits)
  then have "parseInt16 (byte_toHex b) = Some (int (unat b))" by (simp only: div_mult_mod_eq)
  then show ?thesis by (simp add: to_uint8_def)
qed

lemma set_byte_toHex: "set (byte_toHex b) \<subseteq> set hex_digits"
  using byte_bound [of b] by (simp add: byte_toHex_digits)

subsection \<open>Byte arrays\<close>

lemma toHex_Nil [simp]: "toHex [] = []"
  by (simp add: toHex_def)

lemma toHex_Cons [simp]: "toHex (b # bs) = byte_toHex b @ toHex bs"
  by (simp add: toHex_def)

lemma length_toHex [simp, codec_simps]: "length (toHex bs) = 2 * length bs"
  by (induction bs) simp_all

lemma set_toHex: "set (toHex bs) \<subseteq> set hex_digits"
  using set_byte_toHex by (induction bs) auto

lemma upt_0_Suc_shift: "[0..<Suc n] = 0 # map Suc [0..<n]"
  by (simp add: map_Suc_upt upt_conv_Cons)

lemma substr_shift: "length p = 2 \<Longrightarrow> substr (p @ s) (Suc i * 2) 2 = substr s (i * 2) 2"
  by (simp add: substr_def)

lemma fromHex_append:
  assumes "length p = 2"
  shows "fromHex (p @ s) = to_uint8 (parseInt16 p) # fromHex s"
proof -
  have len: "length (p @ s) div 2 = Suc (length s div 2)" using assms by simp
  have first: "substr (p @ s) (0 * 2) 2 = p" using assms by (simp add: substr_def)
  show ?thesis
    unfolding fromHex_def len upt_0_Suc_shift
    by (simp only: list.map first map_map comp_def substr_shift [OF assms])
qed

lemma fromHex_toHex [simp, codec_simps]: "fromHex (toHex bs) = bs"
proof (induction bs)
  case Nil
  show ?case by (simp add: fromHex_def)
next
  case (Cons b bs)
  then show ?case by (simp add: fromHex_append)
qed

lemma length_fromHex [simp, codec_simps]: "length (fromHex s) = length s div 2"
  by (simp add: fromHex_def)

interpretation hex: text_codec toHex "\<lambda>s. Inr (fromHex s)" "set hex_digits"
  by unfold_locales (simp_all add: set_toHex)

text \<open>C37. \<open>fromHex\<close> gives back the bytes \<open>toHex\<close> wrote, two lower-case digits for each byte.\<close>

theorem toHex_fromHex_roundtrip:
  "fromHex (toHex bs) = bs \<and> length (toHex bs) = 2 * length bs \<and> set (toHex bs) \<subseteq> set hex_digits"
  by (simp add: set_toHex)

end
