(* ===== verification/Base64url.thy ===== *)
theory Base64url
  imports Prelude
begin

section \<open>Unpadded base64url text (web/base64url.js)\<close>

text \<open>
  \<open>encode\<close> and \<open>decode\<close> of web/base64url.js, with the platform's \<open>btoa\<close> and \<open>atob\<close> written
  out: \<open>btoa\<close> groups the code units by three and pads with \<open>=\<close>; \<open>atob\<close> is the forgiving
  decode of the HTML standard (drop ASCII white space, drop one or two final \<open>=\<close> of a text
  whose length is a multiple of four, refuse a length of 1 modulo 4 and any character
  outside the alphabet, ignore the unused low bits of the last group).
\<close>

definition b64_chars :: string where
  "b64_chars = ''ABCDEFGHIJKLMNOPQRSTUVWXYZabcdefghijklmnopqrstuvwxyz0123456789+/''"

definition b64_char :: "nat \<Rightarrow> char" where
  "b64_char n = b64_chars ! n"

definition b64_value :: "char \<Rightarrow> nat option" where
  "b64_value c = (let n = of_char c :: nat in
     if 65 \<le> n \<and> n \<le> 90 then Some (n - 65)
     else if 97 \<le> n \<and> n \<le> 122 then Some (n - 71)
     else if 48 \<le> n \<and> n \<le> 57 then Some (n + 4)
     else if n = 43 then Some 62
     else if n = 47 then Some 63
     else None)"

fun sextets :: "nat list \<Rightarrow> nat list" where
  "sextets (a # b # c # r) =
     a div 4 # (a mod 4 * 16 + b div 16) # (b mod 16 * 4 + c div 64) # c mod 64 # sextets r"
| "sextets [a, b] = [a div 4, a mod 4 * 16 + b div 16, b mod 16 * 4]"
| "sextets [a] = [a div 4, a mod 4 * 16]"
| "sextets [] = []"

fun unsextets :: "nat list \<Rightarrow> nat list" where
  "unsextets (a # b # c # d # r) =
     (a * 4 + b div 16) # (b mod 16 * 16 + c div 4) # (c mod 4 * 64 + d) # unsextets r"
| "unsextets [a, b, c] = [a * 4 + b div 16, b mod 16 * 16 + c div 4]"
| "unsextets [a, b] = [a * 4 + b div 16]"
| "unsextets _ = []"

definition btoa :: "string \<Rightarrow> string" where
  "btoa s = map b64_char (sextets (map of_char s)) @
            replicate ((3 - length s mod 3) mod 3) (CHR ''='')"

definition is_ascii_space :: "char \<Rightarrow> bool" where
  "is_ascii_space c \<longleftrightarrow> of_char c \<in> {9, 10, 12, 13, 32 :: nat}"

definition drop_final_pad :: "string \<Rightarrow> string" where
  "drop_final_pad s =
     (let one = (\<lambda>t. if t \<noteq> [] \<and> last t = CHR ''='' then butlast t else t) in one (one s))"

definition atob :: "string \<Rightarrow> string res" where
  "atob s =
     (let d = filter (\<lambda>c. \<not> is_ascii_space c) s;
          e = (if length d mod 4 = 0 then drop_final_pad d else d)
      in if length e mod 4 = 1 \<or> (\<exists>c \<in> set e. b64_value c = None) then Inl Invalid_character
         else Inr (map char_of (unsextets (map (\<lambda>c. the (b64_value c)) e))))"

definition replace_all :: "char \<Rightarrow> char \<Rightarrow> string \<Rightarrow> string" where
  "replace_all c d s = map (\<lambda>x. if x = c then d else x) s"

definition strip_pad :: "string \<Rightarrow> string" where
  "strip_pad s = rev (dropWhile (\<lambda>c. c = CHR ''='') (rev s))"

text \<open>\<open>encode(bytes)\<close>: one code unit per byte, \<open>btoa\<close>, then the three replacements.\<close>

definition encode :: "bytes \<Rightarrow> string" where
  "encode bytes =
     (let binary = map (\<lambda>b. char_of (unat b)) bytes
      in strip_pad (replace_all (CHR ''/'') (CHR ''_'')
           (replace_all (CHR ''+'') (CHR ''-'') (btoa binary))))"

text \<open>\<open>decode(str)\<close>: back to the standard alphabet, padded to a multiple of four, \<open>atob\<close>.\<close>

definition decode :: "string \<Rightarrow> bytes res" where
  "decode str =
     (let normalized = replace_all (CHR ''_'') (CHR ''/'') (replace_all (CHR ''-'') (CHR ''+'') str);
          padded = normalized @ replicate ((4 - length normalized mod 4) mod 4) (CHR ''='')
      in res_bind (atob padded) (\<lambda>binary. Inr (map (\<lambda>c. of_nat (of_char c)) binary)))"

subsection \<open>The alphabet\<close>

definition url_chars :: string where
  "url_chars = ''ABCDEFGHIJKLMNOPQRSTUVWXYZabcdefghijklmnopqrstuvwxyz0123456789-_''"

definition url_char :: "char \<Rightarrow> char" where
  "url_char c = (if c = CHR ''+'' then CHR ''-'' else if c = CHR ''/'' then CHR ''_'' else c)"

definition std_char :: "char \<Rightarrow> char" where
  "std_char c = (if c = CHR ''-'' then CHR ''+'' else if c = CHR ''_'' then CHR ''/'' else c)"

definition b64_digit_ok :: "nat \<Rightarrow> bool" where
  "b64_digit_ok d \<longleftrightarrow>
     (let c = b64_char d in
      b64_value c = Some d \<and> \<not> is_ascii_space c \<and> c \<noteq> CHR ''='' \<and>
      std_char (url_char c) = c \<and> url_char c \<noteq> CHR ''='' \<and> url_char c \<in> set url_chars)"

lemma b64_digit_ok_all: "list_all b64_digit_ok [0..<64]"
  by code_simp

lemma b64_digit_ok: "d < 64 \<Longrightarrow> b64_digit_ok d"
  using b64_digit_ok_all by (simp add: list_all_iff)

lemma b64_digit [simp]:
  assumes "d < 64"
  shows "b64_value (b64_char d) = Some d" "\<not> is_ascii_space (b64_char d)"
    "b64_char d \<noteq> CHR ''=''" "std_char (url_char (b64_char d)) = b64_char d"
    "url_char (b64_char d) \<noteq> CHR ''=''" "url_char (b64_char d) \<in> set url_chars"
  using b64_digit_ok [OF assms] by (simp_all add: b64_digit_ok_def Let_def)

subsection \<open>Groups\<close>

definition octets :: "nat list \<Rightarrow> bool" where
  "octets us \<longleftrightarrow> (\<forall>u \<in> set us. u < 256)"

lemma octets_simps [simp]: "octets []" "octets (u # us) \<longleftrightarrow> u < 256 \<and> octets us"
  by (simp_all add: octets_def)

lemma octets_chars [simp]: "octets (map of_char (s :: string))"
  by (simp add: octets_def)

lemma sextets_bound: "octets us \<Longrightarrow> s \<in> set (sextets us) \<Longrightarrow> s < 64"
  by (induction us rule: sextets.induct) auto

lemma length_sextets: "length (sextets us) = (4 * length us + 2) div 3"
  by (induction us rule: sextets.induct) simp_all

lemma length_sextets_mod4: "length (sextets us) mod 4 \<noteq> 1"
  by (induction us rule: sextets.induct) simp_all

lemma group_arith:
  fixes a b c :: nat
  assumes "b < 256" "c < 256"
  shows "a div 4 * 4 + (a mod 4 * 16 + b div 16) div 16 = a"
    "(a mod 4 * 16 + b div 16) mod 16 * 16 + (b mod 16 * 4 + c div 64) div 4 = b"
    "(b mod 16 * 4 + c div 64) mod 4 * 64 + c mod 64 = c"
proof -
  have b: "b div 16 < 16" and c: "c div 64 < 4" using assms by simp_all
  have 1: "(a mod 4 * 16 + b div 16) div 16 = a mod 4" and 2: "(a mod 4 * 16 + b div 16) mod 16 = b div 16"
    using b by simp_all
  have 3: "(b mod 16 * 4 + c div 64) div 4 = b mod 16" and 4: "(b mod 16 * 4 + c div 64) mod 4 = c div 64"
    using c by simp_all
  show "a div 4 * 4 + (a mod 4 * 16 + b div 16) div 16 = a" unfolding 1 by simp
  show "(a mod 4 * 16 + b div 16) mod 16 * 16 + (b mod 16 * 4 + c div 64) div 4 = b"
    unfolding 2 3 by simp
  show "(b mod 16 * 4 + c div 64) mod 4 * 64 + c mod 64 = c" unfolding 4 by simp
qed

lemma unsextets_sextets: "octets us \<Longrightarrow> unsextets (sextets us) = us"
proof (induction us rule: sextets.induct)
  case (1 a b c r)
  then show ?case using group_arith(1,2) [of b c a] group_arith(3) [of b c] by simp
next
  case (2 a b)
  then show ?case using group_arith(1,2) [of b 0 a] by simp
next
  case (3 a)
  then show ?case using group_arith(1) [of 0 0 a] by simp
qed simp

subsection \<open>Round trip\<close>

definition units :: "bytes \<Rightarrow> nat list" where
  "units bs = map unat bs"

lemma octets_units [simp]: "octets (units bs)"
  by (simp add: octets_def units_def byte_bound)

lemma units_chars: "map of_char (map (\<lambda>b. char_of (unat b)) bs) = units (bs :: bytes)"
  by (simp add: units_def)

lemma dropWhile_pad: "dropWhile (\<lambda>c. c = x) (replicate n x @ s) = dropWhile (\<lambda>c. c = x) s"
  by (induction n) simp_all

lemma strip_pad_replicate:
  assumes "\<forall>c \<in> set s. c \<noteq> CHR ''=''"
  shows "strip_pad (s @ replicate n (CHR ''='')) = s"
proof -
  have "dropWhile (\<lambda>c. c = CHR ''='') (rev s) = rev s"
    using assms by (cases "rev s") (auto simp: rev_eq_Cons_iff)
  then show ?thesis by (simp add: strip_pad_def dropWhile_pad)
qed

lemma url_char_replace:
  "replace_all (CHR ''/'') (CHR ''_'') (replace_all (CHR ''+'') (CHR ''-'') s) = map url_char s"
  by (auto simp: replace_all_def url_char_def)

lemma encode_eq: "encode bs = map (\<lambda>d. url_char (b64_char d)) (sextets (units bs))"
proof -
  let ?m = "map (\<lambda>d. url_char (b64_char d)) (sextets (units bs))"
  have "btoa (map (\<lambda>b. char_of (unat b)) bs) =
      map b64_char (sextets (units bs)) @ replicate ((3 - length bs mod 3) mod 3) (CHR ''='')"
    unfolding btoa_def units_chars by simp
  moreover have "\<forall>c \<in> set ?m. c \<noteq> CHR ''=''"
    using sextets_bound [OF octets_units, of _ bs] by auto
  ultimately show ?thesis
    using strip_pad_replicate [of ?m]
    by (simp add: encode_def url_char_replace map_replicate comp_def url_char_def [of "CHR ''=''"])
qed

lemma length_encode [codec_simps]: "length (encode bs) = (4 * length bs + 2) div 3"
  by (simp add: encode_eq length_sextets units_def)

lemma set_encode: "set (encode bs) \<subseteq> set url_chars"
  using sextets_bound [OF octets_units, of _ bs] by (auto simp: encode_eq)

lemma std_char_replace:
  "replace_all (CHR ''_'') (CHR ''/'') (replace_all (CHR ''-'') (CHR ''+'') s) = map std_char s"
  by (auto simp: replace_all_def std_char_def)

lemma normalize_encode:
  "replace_all (CHR ''_'') (CHR ''/'') (replace_all (CHR ''-'') (CHR ''+'') (encode bs)) =
   map b64_char (sextets (units bs))"
  using sextets_bound [OF octets_units, of _ bs] unfolding std_char_replace
  by (simp add: encode_eq)

lemma pad_not_space [simp]: "\<not> is_ascii_space (CHR ''='')"
  by (simp add: is_ascii_space_def)

lemma pad_arith:
  fixes n :: nat
  shows "(n + (4 - n mod 4) mod 4) mod 4 = 0" and "n mod 4 \<noteq> 1 \<Longrightarrow> (4 - n mod 4) mod 4 \<le> 2"
proof -
  have "n mod 4 < 4" by simp
  then consider "n mod 4 = 0" | "n mod 4 = 1" | "n mod 4 = 2" | "n mod 4 = 3" by linarith
  note r = this
  have "(n mod 4 + (4 - n mod 4) mod 4) mod 4 = 0" by (cases rule: r) simp_all
  then show "(n + (4 - n mod 4) mod 4) mod 4 = 0" by (simp only: mod_add_left_eq)
  show "n mod 4 \<noteq> 1 \<Longrightarrow> (4 - n mod 4) mod 4 \<le> 2" by (cases rule: r) simp_all
qed

lemma drop_final_pad_replicate:
  assumes "\<forall>c \<in> set s. c \<noteq> CHR ''=''" and "n \<le> 2"
  shows "drop_final_pad (s @ replicate n (CHR ''='')) = s"
proof -
  have last: "s = [] \<or> last s \<noteq> CHR ''=''" using assms(1) last_in_set by blast
  consider "n = 0" | "n = 1" | "n = 2" using assms(2) by linarith
  then show ?thesis
    using last by cases (auto simp: drop_final_pad_def numeral_2_eq_2 butlast_append)
qed

lemma atob_sextets:
  assumes "octets us"
  shows "atob (map b64_char (sextets us) @ replicate ((4 - length (sextets us) mod 4) mod 4) (CHR ''='')) =
    Inr (map char_of us)"
proof -
  let ?t = "map b64_char (sextets us)"
  let ?n = "(4 - length (sextets us) mod 4) mod 4"
  have bound: "\<And>s. s \<in> set (sextets us) \<Longrightarrow> s < 64" using sextets_bound [OF assms] by blast
  have mod4: "length (sextets us) mod 4 \<noteq> 1" by (rule length_sextets_mod4)
  then have n: "?n \<le> 2" by (rule pad_arith(2))
  have 4: "(length (sextets us) + ?n) mod 4 = 0" by (rule pad_arith(1))
  have id: "filter (\<lambda>c. \<not> is_ascii_space c) (?t @ replicate ?n (CHR ''='')) =
      ?t @ replicate ?n (CHR ''='')"
    using bound by (intro filter_True) auto
  have "drop_final_pad (?t @ replicate ?n (CHR ''='')) = ?t"
    using bound n by (intro drop_final_pad_replicate) auto
  moreover have "map (\<lambda>c. the (b64_value c)) ?t = sextets us"
    using bound by (simp add: comp_def map_idI)
  ultimately show ?thesis
    using bound mod4 4 unfolding atob_def Let_def id
    by (simp add: unsextets_sextets [OF assms])
qed

lemma decode_encode [simp, codec_simps]: "decode (encode bs) = Inr bs"
proof -
  have "map (\<lambda>c. of_nat (of_char c)) (map char_of (units bs) :: string) = bs"
    by (simp add: units_def comp_def)
  then show ?thesis
    using atob_sextets [OF octets_units, of bs]
    by (simp add: decode_def normalize_encode Let_def)
qed

interpretation b64url: text_codec encode decode "set url_chars"
  by unfold_locales (simp_all add: set_encode)

text \<open>C38. Base64url without padding: \<open>decode\<close> gives back the bytes \<open>encode\<close> wrote, and the text uses
  only characters that need no escaping in a URL fragment, four for every three bytes.\<close>

theorem base64url_roundtrip:
  "decode (encode bs) = Inr bs \<and> set (encode bs) \<subseteq> set url_chars \<and>
   length (encode bs) = (4 * length bs + 2) div 3"
  by (simp add: decode_encode set_encode length_encode)

end
