(* ===== verification/Crypto.thy ===== *)
theory Crypto
  imports Prelude
begin

section \<open>Key derivation and chunk encryption (web/crypto.js)\<close>

text \<open>
  The client's own part of the cryptography: which bytes go into which Web Crypto call and
  which lengths are checked first. Web Crypto itself is the browser's: the record
  \<open>webcrypto\<close> holds the four primitives the code calls (HKDF-SHA-256, AES-256-GCM in both
  directions, HMAC-SHA-256), and \<open>webcrypto_lawful\<close> is what the code relies on of them: HKDF
  gives the number of bits asked for, decrypting what was encrypted under the same key,
  nonce and additional data gives the plaintext back, a ciphertext that authenticates is
  the encryption of the plaintext it decrypts to, and the tag adds 16 bytes. Nothing is
  assumed about unforgeability.
\<close>

record webcrypto =
  wc_hkdf :: "bytes \<Rightarrow> bytes \<Rightarrow> bytes \<Rightarrow> nat \<Rightarrow> bytes"
  wc_encrypt :: "bytes \<Rightarrow> bytes \<Rightarrow> bytes \<Rightarrow> bytes \<Rightarrow> bytes"
  wc_decrypt :: "bytes \<Rightarrow> bytes \<Rightarrow> bytes \<Rightarrow> bytes \<Rightarrow> bytes option"
  wc_hmac :: "bytes \<Rightarrow> bytes \<Rightarrow> bytes"

definition webcrypto_lawful :: "webcrypto \<Rightarrow> bool" where
  "webcrypto_lawful wc \<longleftrightarrow>
     (\<forall>ikm salt info n. length (wc_hkdf wc ikm salt info (8 * n)) = n) \<and>
     (\<forall>k iv aad pt. wc_decrypt wc k iv aad (wc_encrypt wc k iv aad pt) = Some pt) \<and>
     (\<forall>k iv aad ct pt. wc_decrypt wc k iv aad ct = Some pt \<longrightarrow> ct = wc_encrypt wc k iv aad pt) \<and>
     (\<forall>k iv aad pt. length (wc_encrypt wc k iv aad pt) = length pt + 16)"

definition KEY_SIZE_BITS :: nat where "KEY_SIZE_BITS = 256"
definition NONCE_SIZE :: nat where "NONCE_SIZE = 12"
definition FILE_ID_SIZE :: nat where "FILE_ID_SIZE = 16"

definition METADATA_CHUNK_INDEX :: int where
  "METADATA_CHUNK_INDEX = 0xffffffffffffffff"

definition EPOCH_INFO :: bytes where "EPOCH_INFO = utf8_encode ''quicksend-epoch-v1''"
definition FILE_INFO :: bytes where "FILE_INFO = utf8_encode ''quicksend-v1''"
definition RECONNECT_INFO :: bytes where "RECONNECT_INFO = utf8_encode ''quicksend-reconnect''"

definition assertLength :: "bytes \<Rightarrow> nat \<Rightarrow> string \<Rightarrow> unit res" where
  "assertLength bs expected name =
     (if length bs \<noteq> expected
      then Inl (Error_msg (name @ '' must be '' @ num_string expected @ '' bytes, got '' @
                           num_string (length bs)))
      else Inr ())"

definition hkdf :: "webcrypto \<Rightarrow> bytes \<Rightarrow> bytes \<Rightarrow> bytes \<Rightarrow> nat \<Rightarrow> bytes" where
  "hkdf wc ikm salt info lengthBits = wc_hkdf wc ikm salt info lengthBits"

definition deriveEpochKey :: "webcrypto \<Rightarrow> bytes \<Rightarrow> int \<Rightarrow> bytes res" where
  "deriveEpochKey wc sessionKey epoch =
     res_bind (assertLength sessionKey 32 ''sessionKey'') (\<lambda>_.
       Inr (hkdf wc sessionKey (be_bytes 4 epoch) EPOCH_INFO KEY_SIZE_BITS))"

definition deriveFileKey :: "webcrypto \<Rightarrow> bytes \<Rightarrow> bytes \<Rightarrow> bytes res" where
  "deriveFileKey wc epochKey fileID =
     res_bind (assertLength epochKey 32 ''epochKey'') (\<lambda>_.
     res_bind (assertLength fileID FILE_ID_SIZE ''fileID'') (\<lambda>_.
       Inr (hkdf wc epochKey fileID FILE_INFO KEY_SIZE_BITS)))"

text \<open>Four zero bytes and the chunk index in eight; a \<open>BigInt\<close> is stored modulo \<open>2^64\<close>.\<close>

definition chunkNonce :: "int \<Rightarrow> bytes" where
  "chunkNonce chunkIndex = replicate (NONCE_SIZE - 8) 0 @ be_bytes 8 chunkIndex"

definition chunkAAD :: "bytes \<Rightarrow> int \<Rightarrow> bool \<Rightarrow> bytes" where
  "chunkAAD fileID chunkIndex isLast =
     fileID @ be_bytes 8 chunkIndex @ [if isLast then 1 else 0]"

definition importAesKey :: "bytes \<Rightarrow> bytes res" where
  "importAesKey fileKey =
     res_bind (assertLength fileKey 32 ''fileKey'') (\<lambda>_. Inr fileKey)"

definition encryptChunk ::
  "webcrypto \<Rightarrow> bytes \<Rightarrow> bytes \<Rightarrow> int \<Rightarrow> bool \<Rightarrow> bytes \<Rightarrow> bytes res" where
  "encryptChunk wc fileKey fileID chunkIndex isLast plaintext =
     res_bind (assertLength fileID FILE_ID_SIZE ''fileID'') (\<lambda>_.
     res_bind (importAesKey fileKey) (\<lambda>key.
       Inr (wc_encrypt wc key (chunkNonce chunkIndex) (chunkAAD fileID chunkIndex isLast) plaintext)))"

definition decryptChunk ::
  "webcrypto \<Rightarrow> bytes \<Rightarrow> bytes \<Rightarrow> int \<Rightarrow> bool \<Rightarrow> bytes \<Rightarrow> bytes res" where
  "decryptChunk wc fileKey fileID chunkIndex isLast ciphertext =
     res_bind (assertLength fileID FILE_ID_SIZE ''fileID'') (\<lambda>_.
     res_bind (importAesKey fileKey) (\<lambda>key.
       case wc_decrypt wc key (chunkNonce chunkIndex) (chunkAAD fileID chunkIndex isLast) ciphertext of
         None \<Rightarrow> Inl Operation_error
       | Some pt \<Rightarrow> Inr pt))"

definition deriveReconnectToken :: "webcrypto \<Rightarrow> bytes \<Rightarrow> string \<Rightarrow> bytes res" where
  "deriveReconnectToken wc sessionKey sessionId =
     res_bind (assertLength sessionKey 32 ''sessionKey'') (\<lambda>_.
       Inr (wc_hmac wc sessionKey (RECONNECT_INFO @ utf8_encode sessionId)))"

subsection \<open>Lengths and failures\<close>

lemma assertLength_Inr [simp]: "assertLength bs n name = Inr u \<longleftrightarrow> length bs = n"
  by (simp add: assertLength_def)

lemma assertLength_ok [simp]: "length bs = n \<Longrightarrow> assertLength bs n name = Inr ()"
  by (simp add: assertLength_def)

lemma importAesKey_Inr [simp]: "importAesKey k = Inr k' \<longleftrightarrow> length k = 32 \<and> k' = k"
  by (auto simp: importAesKey_def res_bind_eq_Inr)

lemma length_chunkNonce [simp]: "length (chunkNonce i) = 12"
  by (simp add: chunkNonce_def NONCE_SIZE_def)

lemma length_chunkAAD [simp]: "length (chunkAAD f i l) = length f + 9"
  by (simp add: chunkAAD_def)

lemma deriveFileKey_Inr:
  "deriveFileKey wc ek f = Inr k \<longleftrightarrow>
   length ek = 32 \<and> length f = 16 \<and> k = wc_hkdf wc ek f FILE_INFO 256"
  by (auto simp: deriveFileKey_def res_bind_eq_Inr hkdf_def FILE_ID_SIZE_def KEY_SIZE_BITS_def)

lemma deriveFileKey_length:
  "webcrypto_lawful wc \<Longrightarrow> deriveFileKey wc ek f = Inr k \<Longrightarrow> length k = 32"
proof -
  assume "webcrypto_lawful wc" "deriveFileKey wc ek f = Inr k"
  moreover have "(256 :: nat) = 8 * 32" by simp
  ultimately show "length k = 32"
    unfolding webcrypto_lawful_def deriveFileKey_Inr by metis
qed

lemma encryptChunk_Inr:
  "encryptChunk wc k f i l pt = Inr ct \<longleftrightarrow>
   length f = 16 \<and> length k = 32 \<and> ct = wc_encrypt wc k (chunkNonce i) (chunkAAD f i l) pt"
  by (auto simp: encryptChunk_def res_bind_eq_Inr FILE_ID_SIZE_def)

lemma decryptChunk_Inr:
  "decryptChunk wc k f i l ct = Inr pt \<longleftrightarrow>
   length f = 16 \<and> length k = 32 \<and> wc_decrypt wc k (chunkNonce i) (chunkAAD f i l) ct = Some pt"
  by (auto simp: decryptChunk_def res_bind_eq_Inr FILE_ID_SIZE_def split: option.splits)

subsection \<open>What nonce and additional data identify\<close>

lemma be_bytes_8_eq: "be_bytes 8 i = be_bytes 8 j \<longleftrightarrow> i mod 2 ^ 64 = j mod 2 ^ 64"
proof
  assume "be_bytes 8 i = be_bytes 8 j"
  then have "be_val (be_bytes 8 i) = be_val (be_bytes 8 j)" by simp
  then show "i mod 2 ^ 64 = j mod 2 ^ 64" by (simp add: be_val_be_bytes)
next
  assume "i mod 2 ^ 64 = j mod 2 ^ 64"
  then show "be_bytes 8 i = be_bytes 8 j" using be_bytes_mod_cong [of i 8 j] by simp
qed

lemma chunkNonce_eq: "chunkNonce i = chunkNonce j \<longleftrightarrow> i mod 2 ^ 64 = j mod 2 ^ 64"
  by (simp add: chunkNonce_def be_bytes_8_eq)

lemma chunkAAD_eq:
  assumes "length f = length g"
  shows "chunkAAD f i l = chunkAAD g j m \<longleftrightarrow> f = g \<and> i mod 2 ^ 64 = j mod 2 ^ 64 \<and> l = m"
  using assms by (auto simp: chunkAAD_def be_bytes_8_eq)

subsection \<open>The interface the transfer relies on\<close>

text \<open>
  What transfer.js needs of the chunk cipher, for any context \<open>c\<close> in which the cipher is
  sound (\<open>ok c\<close>): with keys and ids of the right length sealing succeeds, opening gives back
  what was sealed with the same parameters, and only that.
\<close>

locale chunk_cipher =
  fixes ok :: "'c \<Rightarrow> bool"
    and seal :: "'c \<Rightarrow> bytes \<Rightarrow> bytes \<Rightarrow> int \<Rightarrow> bool \<Rightarrow> bytes \<Rightarrow> bytes res"
    and unseal :: "'c \<Rightarrow> bytes \<Rightarrow> bytes \<Rightarrow> int \<Rightarrow> bool \<Rightarrow> bytes \<Rightarrow> bytes res"
  assumes seal_total: "length k = 32 \<Longrightarrow> length f = 16 \<Longrightarrow> \<exists>ct. seal c k f i l pt = Inr ct"
    and unseal_seal: "ok c \<Longrightarrow> seal c k f i l pt = Inr ct \<Longrightarrow> unseal c k f i l ct = Inr pt"
    and unseal_only: "ok c \<Longrightarrow> unseal c k f i l ct = Inr pt \<Longrightarrow> seal c k f i l pt = Inr ct"
begin

lemma unseal_iff: "ok c \<Longrightarrow> unseal c k f i l ct = Inr pt \<longleftrightarrow> seal c k f i l pt = Inr ct"
  by (blast intro: unseal_seal unseal_only)

lemma seal_inj:
  assumes "ok c" "seal c k f i l p = Inr ct" "seal c k f i l q = Inr ct"
  shows "p = q"
  using assms unseal_seal [OF assms(1,2)] unseal_seal [OF assms(1,3)] by simp

lemma seal_then_unseal:
  assumes "ok c" "length k = 32" "length f = 16"
  shows "res_bind (seal c k f i l pt) (unseal c k f i l) = Inr pt"
proof -
  obtain ct where "seal c k f i l pt = Inr ct" using seal_total assms(2,3) by blast
  with assms(1) show ?thesis by (simp add: unseal_seal)
qed

end

interpretation aes: chunk_cipher webcrypto_lawful encryptChunk decryptChunk
  by unfold_locales (auto simp: encryptChunk_Inr decryptChunk_Inr webcrypto_lawful_def)

subsection \<open>A concrete Web Crypto for closed examples\<close>

text \<open>
  A lawful instance of the parameter for the witnesses: it is no cipher, only a function
  that satisfies the laws (it appends the first byte of the key, the nonce's last three bytes
  and the additional data's last twelve as its tag).
\<close>

definition tag_of :: "bytes \<Rightarrow> bytes \<Rightarrow> bytes \<Rightarrow> bytes" where
  "tag_of k iv aad = take 16 (take 1 k @ drop 9 iv @ drop (length aad - 12) aad @ replicate 16 0)"

definition demo_crypto :: webcrypto where
  "demo_crypto =
     \<lparr>wc_hkdf = (\<lambda>ikm salt info bits. take (bits div 8) (salt @ ikm @ replicate (bits div 8) 7)),
      wc_encrypt = (\<lambda>k iv aad pt. pt @ tag_of k iv aad),
      wc_decrypt = (\<lambda>k iv aad ct.
         if length ct \<ge> 16 \<and> drop (length ct - 16) ct = tag_of k iv aad
         then Some (take (length ct - 16) ct) else None),
      wc_hmac = (\<lambda>k m. take 32 (k @ m @ replicate 32 0))\<rparr>"

lemma length_tag_of [simp]: "length (tag_of k iv aad) = 16"
  unfolding tag_of_def by (subst length_take) simp

lemma demo_decrypt_encrypt:
  "wc_decrypt demo_crypto k iv aad (wc_encrypt demo_crypto k iv aad pt) = Some pt"
  by (simp add: demo_crypto_def)

lemma demo_decrypt_only:
  assumes "wc_decrypt demo_crypto k iv aad ct = Some pt"
  shows "ct = wc_encrypt demo_crypto k iv aad pt"
proof -
  from assms have "drop (length ct - 16) ct = tag_of k iv aad" and "pt = take (length ct - 16) ct"
    by (auto simp: demo_crypto_def split: if_splits)
  then have "ct = pt @ tag_of k iv aad" by (metis append_take_drop_id)
  then show ?thesis by (simp add: demo_crypto_def)
qed

lemma demo_lengths:
  "length (wc_hkdf demo_crypto ikm salt info (8 * n)) = n"
  "length (wc_encrypt demo_crypto k iv aad pt) = length pt + 16"
  by (simp_all add: demo_crypto_def)

lemma demo_crypto_lawful: "webcrypto_lawful demo_crypto"
  unfolding webcrypto_lawful_def
  using demo_decrypt_encrypt demo_decrypt_only demo_lengths by blast

subsection \<open>Properties\<close>

text \<open>C34. The nonce determines the chunk index and the additional data determine the file id, the
  chunk index and the last-chunk flag, for every index a chunk frame can carry.\<close>

theorem nonce_and_aad_identify_chunk:
  assumes "0 \<le> i" "i < 2 ^ 64" "0 \<le> j" "j < 2 ^ 64" and "length f = 16" "length g = 16"
  shows "(chunkNonce i = chunkNonce j \<longleftrightarrow> i = j) \<and>
    (chunkAAD f i l = chunkAAD g j m \<longleftrightarrow> f = g \<and> i = j \<and> l = m) \<and>
    length (chunkNonce i) = 12 \<and> length (chunkAAD f i l) = 25"
  using assms by (simp add: chunkNonce_eq chunkAAD_eq mod_pos_pos_trivial)

theorem nonce_and_aad_identify_chunk_witness:
  "(chunkNonce 3 = chunkNonce METADATA_CHUNK_INDEX \<longleftrightarrow> (3 :: int) = METADATA_CHUNK_INDEX) \<and>
   (chunkAAD (replicate 16 1) 3 True = chunkAAD (replicate 16 2) METADATA_CHUNK_INDEX True \<longleftrightarrow>
      replicate 16 (1 :: byte) = replicate 16 2 \<and> (3 :: int) = METADATA_CHUNK_INDEX \<and> True = True) \<and>
   length (chunkNonce 3) = 12 \<and> length (chunkAAD (replicate 16 1) 3 True) = 25"
  by (rule nonce_and_aad_identify_chunk) (simp_all add: METADATA_CHUNK_INDEX_def)

text \<open>Key derivation fails exactly on inputs of a wrong length and otherwise gives 32 bytes, so a
  file key is always one \<open>importAesKey\<close> accepts.\<close>

theorem key_lengths:
  assumes "webcrypto_lawful wc"
  shows "((\<exists>k. deriveEpochKey wc sk epoch = Inr k \<and> length k = 32) \<longleftrightarrow> length sk = 32) \<and>
    ((\<exists>e. deriveEpochKey wc sk epoch = Inl e) \<longleftrightarrow> length sk \<noteq> 32) \<and>
    ((\<exists>k. deriveFileKey wc ek f = Inr k \<and> importAesKey k = Inr k) \<longleftrightarrow> length ek = 32 \<and> length f = 16) \<and>
    ((\<exists>e. deriveFileKey wc ek f = Inl e) \<longleftrightarrow> \<not> (length ek = 32 \<and> length f = 16))"
proof -
  have "length (wc_hkdf wc a b c (8 * 32)) = 32" for a b c
    using assms unfolding webcrypto_lawful_def by blast
  then have l: "length (wc_hkdf wc a b c 256) = 32" for a b c by simp
  have "deriveEpochKey wc sk epoch = Inr k \<longleftrightarrow>
      length sk = 32 \<and> k = wc_hkdf wc sk (be_bytes 4 epoch) EPOCH_INFO 256" for k
    by (auto simp: deriveEpochKey_def res_bind_eq_Inr hkdf_def KEY_SIZE_BITS_def)
  moreover have inl: "(\<exists>e. r = Inl e) \<longleftrightarrow> \<not> (\<exists>x. r = Inr x)" for r :: "bytes res"
    by (cases r) auto
  ultimately show ?thesis unfolding inl by (simp add: deriveFileKey_Inr l)
qed

theorem key_lengths_witness:
  "((\<exists>k. deriveEpochKey demo_crypto [1] 0 = Inr k \<and> length k = 32) \<longleftrightarrow> length [1 :: byte] = 32) \<and>
   ((\<exists>e. deriveEpochKey demo_crypto [1] 0 = Inl e) \<longleftrightarrow> length [1 :: byte] \<noteq> 32) \<and>
   ((\<exists>k. deriveFileKey demo_crypto (replicate 32 2) (replicate 16 3) = Inr k \<and> importAesKey k = Inr k) \<longleftrightarrow>
      length (replicate 32 (2 :: byte)) = 32 \<and> length (replicate 16 (3 :: byte)) = 16) \<and>
   ((\<exists>e. deriveFileKey demo_crypto (replicate 32 2) (replicate 16 3) = Inl e) \<longleftrightarrow>
      \<not> (length (replicate 32 (2 :: byte)) = 32 \<and> length (replicate 16 (3 :: byte)) = 16))"
  by (rule key_lengths) (rule demo_crypto_lawful)

end
