(* ===== verification/Json.thy ===== *)
theory Json
  imports Prelude
begin

section \<open>JSON text\<close>

text \<open>
  The part of the language's \<open>JSON\<close> object and of \<open>TextEncoder\<close>/\<open>TextDecoder\<close> that the
  client uses: \<open>JSON.stringify\<close> and \<open>JSON.parse\<close> over values built from null, booleans,
  integers, strings, arrays and objects, and the UTF-8 bytes of a string. A number with a
  fraction or an exponent is kept as its text (\<open>JDec\<close>): the client never computes with one.
  Strings are code units up to 255 (theory Prelude); a larger code point, in an escape or in
  UTF-8, stands in the model as one \<open>wide\<close> character. It can only occur inside a string
  literal of a JSON text that parses, so whether a text parses, and its structure, are those
  of the code; only the contents of such a string are abstracted.

  The parser carries fuel, one unit for each nested call; \<open>json_parse\<close> starts it with the
  length of the text plus one, and \<open>parse_value_stringify\<close> shows that the length of a
  printed value is enough to read it back.
\<close>

datatype json =
    JNull
  | JBool bool
  | JInt int
  | JDec string
  | JStr string
  | JArr "json list"
  | JObj "(string \<times> json) list"

text \<open>A property read: the last of several entries with the same key counts.\<close>

definition jget :: "(string \<times> json) list \<Rightarrow> string \<Rightarrow> json option" where
  "jget kvs k = map_of (rev kvs) k"

subsection \<open>Printing\<close>

definition hex_char :: "nat \<Rightarrow> char" where
  "hex_char k = char_of (if k < 10 then 48 + k else 87 + k)"

definition hex4 :: "nat \<Rightarrow> string" where
  "hex4 n = [hex_char (n div 4096 mod 16), hex_char (n div 256 mod 16),
             hex_char (n div 16 mod 16), hex_char (n mod 16)]"

definition BSL :: char where "BSL = char_of (92 :: nat)"
definition QUOT :: char where "QUOT = char_of (34 :: nat)"

definition wide :: char where "wide = CHR ''?''"

definition quote_char :: "char \<Rightarrow> string" where
  "quote_char c = (let n = of_char c :: nat in
     if n = 34 \<or> n = 92 then [BSL, c]
     else if n = 8 then [BSL, CHR ''b''] else if n = 9 then [BSL, CHR ''t'']
     else if n = 10 then [BSL, CHR ''n''] else if n = 12 then [BSL, CHR ''f'']
     else if n = 13 then [BSL, CHR ''r''] else if n < 32 then BSL # CHR ''u'' # hex4 n
     else [c])"

definition quote :: "string \<Rightarrow> string" where
  "quote s = QUOT # concat (map quote_char s) @ [QUOT]"

definition int_string :: "int \<Rightarrow> string" where
  "int_string i = (if i < 0 then CHR ''-'' # num_string (nat (- i)) else num_string (nat i))"

fun join_comma :: "string list \<Rightarrow> string" where
  "join_comma [] = []"
| "join_comma [s] = s"
| "join_comma (s # t # r) = s @ CHR '','' # join_comma (t # r)"

fun stringify :: "json \<Rightarrow> string" where
  "stringify JNull = ''null''"
| "stringify (JBool b) = (if b then ''true'' else ''false'')"
| "stringify (JInt i) = int_string i"
| "stringify (JDec s) = s"
| "stringify (JStr s) = quote s"
| "stringify (JArr vs) = CHR ''['' # join_comma (map stringify vs) @ '']''"
| "stringify (JObj kvs) =
     CHR ''{'' # join_comma (map (\<lambda>(k, v). quote k @ CHR '':'' # stringify v) kvs) @ ''}''"

subsection \<open>Parsing\<close>

definition is_json_ws :: "char \<Rightarrow> bool" where
  "is_json_ws c \<longleftrightarrow> of_char c \<in> {9, 10, 13, 32 :: nat}"

definition skip_ws :: "string \<Rightarrow> string" where
  "skip_ws s = dropWhile is_json_ws s"

definition is_digit :: "char \<Rightarrow> bool" where
  "is_digit c \<longleftrightarrow> (of_char c :: nat) \<in> {48..57}"

definition hex_unit :: "char \<Rightarrow> nat option" where
  "hex_unit c = (let n = of_char c :: nat in
     if 48 \<le> n \<and> n \<le> 57 then Some (n - 48)
     else if 97 \<le> n \<and> n \<le> 102 then Some (n - 87)
     else if 65 \<le> n \<and> n \<le> 70 then Some (n - 55) else None)"

definition hex4_value :: "char \<Rightarrow> char \<Rightarrow> char \<Rightarrow> char \<Rightarrow> nat option" where
  "hex4_value a b c d =
     (case (hex_unit a, hex_unit b, hex_unit c, hex_unit d) of
        (Some w, Some x, Some y, Some z) \<Rightarrow> Some (w * 4096 + x * 256 + y * 16 + z)
      | _ \<Rightarrow> None)"

definition escape_char :: "char \<Rightarrow> char option" where
  "escape_char e =
     (if e = QUOT \<or> e = BSL \<or> e = CHR ''/'' then Some e
      else if e = CHR ''b'' then Some (char_of (8 :: nat))
      else if e = CHR ''t'' then Some (char_of (9 :: nat))
      else if e = CHR ''n'' then Some (char_of (10 :: nat))
      else if e = CHR ''f'' then Some (char_of (12 :: nat))
      else if e = CHR ''r'' then Some (char_of (13 :: nat)) else None)"

text \<open>The characters of a string literal after its opening quote, and the rest.\<close>

function parse_str :: "string \<Rightarrow> (string \<times> string) option" where
  "parse_str s = (case s of
     [] \<Rightarrow> None
   | c # r \<Rightarrow>
      if c = QUOT then Some ([], r)
      else if c = BSL then
        (case r of
           [] \<Rightarrow> None
         | e # r' \<Rightarrow>
             if e = CHR ''u'' then
               (case r' of
                  w # x # y # z # r'' \<Rightarrow>
                    (case hex4_value w x y z of
                       Some n \<Rightarrow>
                         map_option (\<lambda>(t, q). ((if n < 256 then char_of n else wide) # t, q)) (parse_str r'')
                     | None \<Rightarrow> None)
                | _ \<Rightarrow> None)
             else (case escape_char e of
                     Some d \<Rightarrow> map_option (\<lambda>(t, q). (d # t, q)) (parse_str r')
                   | None \<Rightarrow> None))
      else if (of_char c :: nat) < 32 then None
      else map_option (\<lambda>(t, q). (c # t, q)) (parse_str r))"
  by pat_completeness auto
termination
  by (relation "measure length") auto

declare parse_str.simps [simp del]

text \<open>A number: an optional sign, an integer part without a leading zero, then nothing more
  (an integer) or a fraction or exponent (kept as text).\<close>

definition num_frac :: "string \<Rightarrow> (string \<times> string) option" where
  "num_frac r =
     (if r = [] \<or> hd r \<noteq> CHR ''.'' then Some ([], r)
      else let ds = takeWhile is_digit (tl r)
           in if ds = [] then None else Some (CHR ''.'' # ds, dropWhile is_digit (tl r)))"

definition num_exp :: "string \<Rightarrow> (string \<times> string) option" where
  "num_exp r =
     (if r = [] \<or> hd r \<notin> {CHR ''e'', CHR ''E''} then Some ([], r)
      else let u = tl r;
               sgn = (if u \<noteq> [] \<and> hd u \<in> {CHR ''+'', CHR ''-''} then [hd u] else []);
               v = drop (length sgn) u;
               ds = takeWhile is_digit v
           in if ds = [] then None else Some (hd r # sgn @ ds, dropWhile is_digit v))"

definition num_tail :: "string \<Rightarrow> (string \<times> string) option" where
  "num_tail r = (case num_frac r of
     None \<Rightarrow> None
   | Some (f, r1) \<Rightarrow> (case num_exp r1 of None \<Rightarrow> None | Some (e, r2) \<Rightarrow> Some (f @ e, r2)))"

definition parse_num :: "string \<Rightarrow> (json \<times> string) option" where
  "parse_num s =
     (let neg = (s \<noteq> [] \<and> hd s = CHR ''-'');
          u = (if neg then tl s else s);
          ds = takeWhile is_digit u
      in if ds = [] \<or> (length ds > 1 \<and> hd ds = CHR ''0'') then None
         else (case num_tail (dropWhile is_digit u) of
            None \<Rightarrow> None
          | Some (t, r) \<Rightarrow>
             if t = [] then Some (JInt (if neg then - int (dec_value ds) else int (dec_value ds)), r)
             else Some (JDec ((if neg then ''-'' else []) @ ds @ t), r)))"

fun parse_value :: "nat \<Rightarrow> string \<Rightarrow> (json \<times> string) option"
  and parse_elems :: "nat \<Rightarrow> string \<Rightarrow> (json list \<times> string) option"
  and parse_members :: "nat \<Rightarrow> string \<Rightarrow> ((string \<times> json) list \<times> string) option" where
  "parse_value 0 s = None"
| "parse_value (Suc n) s =
     (case skip_ws s of
        [] \<Rightarrow> None
      | c # r \<Rightarrow>
         if c = CHR ''{'' then
           (case skip_ws r of
              [] \<Rightarrow> None
            | d # r' \<Rightarrow> if d = CHR ''}'' then Some (JObj [], r')
                        else map_option (\<lambda>(m, q). (JObj m, q)) (parse_members n r))
         else if c = CHR ''['' then
           (case skip_ws r of
              [] \<Rightarrow> None
            | d # r' \<Rightarrow> if d = CHR '']'' then Some (JArr [], r')
                        else map_option (\<lambda>(m, q). (JArr m, q)) (parse_elems n r))
         else if c = QUOT then map_option (\<lambda>(t, q). (JStr t, q)) (parse_str r)
         else if take 3 r = ''rue'' \<and> c = CHR ''t'' then Some (JBool True, drop 3 r)
         else if take 4 r = ''alse'' \<and> c = CHR ''f'' then Some (JBool False, drop 4 r)
         else if take 3 r = ''ull'' \<and> c = CHR ''n'' then Some (JNull, drop 3 r)
         else parse_num (c # r))"
| "parse_elems 0 s = None"
| "parse_elems (Suc n) s =
     (case parse_value n s of
        None \<Rightarrow> None
      | Some (v, r) \<Rightarrow>
         (case skip_ws r of
            [] \<Rightarrow> None
          | d # r' \<Rightarrow> if d = CHR '']'' then Some ([v], r')
                      else if d = CHR '','' then map_option (\<lambda>(m, q). (v # m, q)) (parse_elems n r')
                      else None))"
| "parse_members 0 s = None"
| "parse_members (Suc n) s =
     (case skip_ws s of
        [] \<Rightarrow> None
      | c # r \<Rightarrow>
         if c \<noteq> QUOT then None
         else (case parse_str r of
            None \<Rightarrow> None
          | Some (k, r1) \<Rightarrow>
             (case skip_ws r1 of
                [] \<Rightarrow> None
              | d # r2 \<Rightarrow>
                 if d \<noteq> CHR '':'' then None
                 else (case parse_value n r2 of
                    None \<Rightarrow> None
                  | Some (v, r3) \<Rightarrow>
                     (case skip_ws r3 of
                        [] \<Rightarrow> None
                      | e # r4 \<Rightarrow>
                         if e = CHR ''}'' then Some ([(k, v)], r4)
                         else if e = CHR '','' then
                           map_option (\<lambda>(m, q). ((k, v) # m, q)) (parse_members n r4)
                         else None)))))"

definition json_parse :: "string \<Rightarrow> json res" where
  "json_parse s = (case parse_value (Suc (length s)) s of
     None \<Rightarrow> Inl Syntax_error
   | Some (v, r) \<Rightarrow> if skip_ws r = [] then Inr v else Inl Syntax_error)"

text \<open>
  \<open>new TextDecoder().decode(bytes)\<close>: a byte order mark at the start is dropped, a code point
  above 255 and every malformed sequence (U+FFFD in the code, one for each maximal part that
  could begin a sequence) is a \<open>wide\<close> character. \<open>utf8_need a\<close> is what must follow the lead
  byte \<open>a\<close>: the bounds of the second byte and the number of bytes in all.
\<close>

definition utf8_need :: "byte \<Rightarrow> (nat \<times> nat \<times> nat) option" where
  "utf8_need a = (let n = unat a in
     if 194 \<le> n \<and> n \<le> 223 then Some (128, 191, 2)
     else if n = 224 then Some (160, 191, 3)
     else if n = 237 then Some (128, 159, 3)
     else if 225 \<le> n \<and> n \<le> 239 then Some (128, 191, 3)
     else if n = 240 then Some (144, 191, 4)
     else if 241 \<le> n \<and> n \<le> 243 then Some (128, 191, 4)
     else if n = 244 then Some (128, 143, 4)
     else None)"

text \<open>How many bytes after the lead byte belong to its sequence.\<close>

fun utf8_rest :: "nat \<Rightarrow> nat \<Rightarrow> nat \<Rightarrow> bytes \<Rightarrow> nat" where
  "utf8_rest lo hi 0 r = 0"
| "utf8_rest lo hi (Suc n) [] = 0"
| "utf8_rest lo hi (Suc n) (b # r) =
     (if lo \<le> unat b \<and> unat b \<le> hi then Suc (utf8_rest 128 191 n r) else 0)"

function utf8_text :: "bytes \<Rightarrow> string" where
  "utf8_text [] = []"
| "utf8_text (a # r) =
     (if unat a < 128 then char_of (unat a) # utf8_text r
      else case utf8_need a of
        None \<Rightarrow> wide # utf8_text r
      | Some (lo, hi, n) \<Rightarrow>
          let k = utf8_rest lo hi (n - 1) r in
          (if n = 2 \<and> k = 1 \<and> unat a \<le> 195
           then char_of ((unat a - 192) * 64 + (unat (hd r) - 128)) else wide) # utf8_text (drop k r))"
  by pat_completeness auto
termination
  by (relation "measure length") auto

definition utf8_decode :: "bytes \<Rightarrow> string" where
  "utf8_decode bs = utf8_text (if take 3 bs = [0xEF, 0xBB, 0xBF] then drop 3 bs else bs)"

subsection \<open>UTF-8\<close>

lemma of_char_bound: "(of_char c :: nat) < 256"
  by simp

lemma unat_small: "n < 256 \<Longrightarrow> unat (of_nat n :: byte) = n"
  by (simp add: unat_of_nat)

lemma utf8_text_unit: "utf8_text (utf8_unit c @ r) = c # utf8_text r"
proof (cases "(of_char c :: nat) < 128")
  case True
  then show ?thesis by (simp add: utf8_unit_def unat_small)
next
  case False
  define n :: nat where "n = of_char c"
  have n: "128 \<le> n" "n < 256" using False by (simp_all add: n_def)
  have hi: "unat (of_nat (192 + n div 64) :: byte) = 192 + n div 64"
    and lo: "unat (of_nat (128 + n mod 64) :: byte) = 128 + n mod 64"
    using n by (intro unat_small; simp)+
  have "char_of (n div 64 * 64 + n mod 64) = c" by (simp add: n_def)
  moreover have "2 \<le> n div 64" "n div 64 \<le> 3" using n by simp_all
  moreover have "utf8_need (of_nat (192 + n div 64)) = Some (128, 191, 2)"
    using calculation by (simp add: utf8_need_def hi del: of_nat_add)
  moreover have "128 + n mod 64 \<le> 191" by simp
  moreover have "utf8_unit c = [of_nat (192 + n div 64), of_nat (128 + n mod 64)]"
    using n by (simp add: utf8_unit_def n_def Let_def)
  ultimately show ?thesis by (simp add: hi lo numeral_2_eq_2 [symmetric] del: of_nat_add)
qed

lemma utf8_text_encode [simp, codec_simps]: "utf8_text (utf8_encode s) = s"
  by (induction s) (simp_all add: utf8_encode_def utf8_text_unit)

lemma utf8_unit_not_bom: "utf8_unit c @ r \<noteq> 0xEF # r'"
proof -
  have "unat (0xEF :: byte) = 239" by simp
  moreover have "unat (hd (utf8_unit c)) \<noteq> 239"
  proof -
    have "of_char c div 64 < (4 :: nat)" using of_char_bound [of c] by (simp add: less_mult_imp_div_less)
    then have "unat (of_nat (192 + of_char c div 64) :: byte) = 192 + of_char c div 64"
      by (intro unat_small) simp
    with \<open>of_char c div 64 < (4 :: nat)\<close> show ?thesis
      by (simp add: utf8_unit_def unat_small Let_def del: of_nat_add)
  qed
  moreover have "utf8_unit c \<noteq> []" by (simp add: utf8_unit_def Let_def)
  ultimately show ?thesis by (metis hd_append2 list.sel(1))
qed

lemma utf8_decode_encode [simp, codec_simps]: "utf8_decode (utf8_encode s) = s"
proof -
  have "take 3 (utf8_encode s) \<noteq> [0xEF, 0xBB, 0xBF]"
  proof
    assume "take 3 (utf8_encode s) = [0xEF, 0xBB, 0xBF]"
    then have "utf8_encode s = 0xEF # [0xBB, 0xBF] @ drop 3 (utf8_encode s)"
      by (metis append_Cons append_take_drop_id)
    then show False using utf8_unit_not_bom by (cases s) (auto simp: utf8_encode_def)
  qed
  then show ?thesis unfolding utf8_decode_def by (simp only: if_False utf8_text_encode)
qed

subsection \<open>Reading back a string literal\<close>

lemma char_eq_nat: "c = d \<longleftrightarrow> (of_char c :: nat) = of_char d"
  by (metis char_of_char)

lemma of_char_BSL_QUOT [simp]: "(of_char BSL :: nat) = 92" "(of_char QUOT :: nat) = 34"
  by (simp_all add: BSL_def QUOT_def)

lemma BSL_QUOT_distinct [simp]: "BSL \<noteq> QUOT" "QUOT \<noteq> BSL"
  by (simp_all add: char_eq_nat)

lemma hex_unit_digit: "k < 16 \<Longrightarrow> hex_unit (hex_char k) = Some k"
  by (auto simp: hex_unit_def hex_char_def)

lemma hex4_value_hex4:
  "n < 256 \<Longrightarrow> \<exists>a b c d. hex4 n = [a, b, c, d] \<and> hex4_value a b c d = Some n"
  by (simp add: hex4_def hex4_value_def Let_def hex_unit_digit)

lemma parse_str_escape:
  assumes "escape_char e = Some d" "e \<noteq> CHR ''u''"
  shows "parse_str (BSL # e # r) = map_option (\<lambda>(t, q). (d # t, q)) (parse_str r)"
  using assms by (subst parse_str.simps) simp

lemma escape_char_simps [simp]:
  "escape_char QUOT = Some QUOT" "escape_char BSL = Some BSL"
  "escape_char (CHR ''b'') = Some (char_of (8 :: nat))" "escape_char (CHR ''t'') = Some (char_of (9 :: nat))"
  "escape_char (CHR ''n'') = Some (char_of (10 :: nat))" "escape_char (CHR ''f'') = Some (char_of (12 :: nat))"
  "escape_char (CHR ''r'') = Some (char_of (13 :: nat))"
  by (simp_all add: escape_char_def char_eq_nat)

lemma parse_str_plain:
  assumes "c \<noteq> QUOT" "c \<noteq> BSL" "\<not> (of_char c :: nat) < 32"
  shows "parse_str (c # r) = map_option (\<lambda>(t, q). (c # t, q)) (parse_str r)"
  using assms by (subst parse_str.simps) simp

lemma parse_str_hex:
  assumes "(of_char c :: nat) < 32"
  shows "parse_str (BSL # CHR ''u'' # hex4 (of_char c) @ r) = map_option (\<lambda>(t, q). (c # t, q)) (parse_str r)"
proof -
  from assms obtain w x y z where h: "hex4 (of_char c) = [w, x, y, z]"
    and v: "hex4_value w x y z = Some (of_char c)"
    using hex4_value_hex4 [of "of_char c"] by auto
  show ?thesis unfolding h by (subst parse_str.simps) (simp add: v)
qed

lemma quote_char_cases:
  obtains (self) "c = QUOT \<or> c = BSL" "quote_char c = [BSL, c]"
  | (short) e where "quote_char c = [BSL, e]" "escape_char e = Some c" "e \<noteq> CHR ''u''"
  | (hex) "(of_char c :: nat) < 32" "quote_char c = BSL # CHR ''u'' # hex4 (of_char c)"
  | (plain) "c \<noteq> QUOT" "c \<noteq> BSL" "\<not> (of_char c :: nat) < 32" "quote_char c = [c]"
proof -
  define n :: nat where "n = of_char c"
  have c: "c = char_of n" by (simp add: n_def)
  have q: "c = QUOT \<longleftrightarrow> n = 34" and b: "c = BSL \<longleftrightarrow> n = 92" by (simp_all add: char_eq_nat n_def)
  consider "n = 34 \<or> n = 92" | "n = 8" | "n = 9" | "n = 10" | "n = 12" | "n = 13"
    | "n < 32" "n \<notin> {8, 9, 10, 12, 13}" | "\<not> n < 32" "n \<noteq> 34" "n \<noteq> 92" by force
  then show thesis
  proof cases
    case 1
    then show ?thesis using q b by (intro self) (auto simp: quote_char_def n_def [symmetric])
  next
    case 2
    show ?thesis by (rule short [of "CHR ''b''"]) (simp_all add: quote_char_def n_def [symmetric] 2 c)
  next
    case 3
    show ?thesis by (rule short [of "CHR ''t''"]) (simp_all add: quote_char_def n_def [symmetric] 3 c)
  next
    case 4
    show ?thesis by (rule short [of "CHR ''n''"]) (simp_all add: quote_char_def n_def [symmetric] 4 c)
  next
    case 5
    show ?thesis by (rule short [of "CHR ''f''"]) (simp_all add: quote_char_def n_def [symmetric] 5 c)
  next
    case 6
    show ?thesis by (rule short [of "CHR ''r''"]) (simp_all add: quote_char_def n_def [symmetric] 6 c)
  next
    case 7
    then show ?thesis by (intro hex) (auto simp: quote_char_def n_def [symmetric])
  next
    case 8
    then show ?thesis using q b by (intro plain) (auto simp: quote_char_def n_def [symmetric])
  qed
qed

lemma parse_str_quote_char:
  "parse_str (quote_char c @ r) = map_option (\<lambda>(t, q). (c # t, q)) (parse_str r)"
proof (cases c rule: quote_char_cases)
  case self
  from self(1) have "escape_char c = Some c" by auto
  moreover from self(1) have "c \<noteq> CHR ''u''" by (auto simp: char_eq_nat)
  ultimately show ?thesis by (simp add: self(2) parse_str_escape)
next
  case (short e)
  then show ?thesis by (simp add: parse_str_escape)
next
  case hex
  then show ?thesis by (simp add: parse_str_hex)
next
  case plain
  then show ?thesis by (simp add: parse_str_plain)
qed

lemma parse_str_QUOT: "parse_str (QUOT # r) = Some ([], r)"
  by (subst parse_str.simps) simp

lemma parse_str_literal: "parse_str (concat (map quote_char s) @ QUOT # r) = Some (s, r)"
  by (induction s) (simp_all add: parse_str_quote_char parse_str_QUOT)

subsection \<open>Reading back a number\<close>

definition stops :: "string \<Rightarrow> bool" where
  "stops r \<longleftrightarrow> r = [] \<or> hd r \<in> {CHR '','', CHR ''}'', CHR '']''}"

lemma stops_simps [simp]: "stops []" "stops (CHR '','' # r)" "stops (CHR ''}'' # r)" "stops (CHR '']'' # r)"
  by (simp_all add: stops_def)

lemma num_string_is_digit: "c \<in> set (num_string n) \<Longrightarrow> is_digit c"
  using num_string_digits by (simp add: is_digit_def)

lemma num_string_nonempty [simp]: "num_string n \<noteq> []"
  by (subst num_string.simps) simp

lemma num_string_no_leading_zero: "length (num_string n) > 1 \<Longrightarrow> hd (num_string n) \<noteq> CHR ''0''"
proof (induction n rule: num_string.induct)
  case (1 n)
  show ?case
  proof (cases "n < 10")
    case True
    then show ?thesis using "1.prems" by (simp add: num_string.simps [of n])
  next
    case False
    then have eq: "num_string n = num_string (n div 10) @ [dec_digit (n mod 10)]"
      by (simp add: num_string.simps [of n])
    show ?thesis
    proof (cases "n div 10 < 10")
      case True
      then have "num_string (n div 10) = [dec_digit (n div 10)]" by (simp add: num_string.simps)
      moreover have "1 \<le> n div 10" using False by simp
      ultimately show ?thesis using True unfolding eq by (simp add: dec_digit_def char_eq_nat)
    next
      case big: False
      then have "length (num_string (n div 10)) > 1" by (subst num_string.simps) (simp add: Suc_le_eq)
      with "1.IH" False show ?thesis by (simp add: eq)
    qed
  qed
qed

lemma digits_then_stop:
  assumes "stops r"
  shows "takeWhile is_digit (num_string n @ r) = num_string n"
    "dropWhile is_digit (num_string n @ r) = r"
  using assms num_string_is_digit
  by (cases r; auto simp: stops_def is_digit_def takeWhile_append2 dropWhile_append2)+

lemma num_string_hd_not_minus: "hd (num_string n) \<noteq> CHR ''-''"
proof -
  have "is_digit (hd (num_string n))" using num_string_is_digit num_string_nonempty hd_in_set by blast
  then show ?thesis by (auto simp: is_digit_def)
qed

lemma num_tail_stops: "stops r \<Longrightarrow> num_tail r = Some ([], r)"
  by (auto simp: num_tail_def num_frac_def num_exp_def stops_def)

lemma parse_num_unsigned:
  assumes "stops r"
  shows "parse_num (num_string n @ r) = Some (JInt (int n), r)"
  using num_string_no_leading_zero [of n]
  by (simp add: parse_num_def num_string_hd_not_minus digits_then_stop [OF assms]
      dec_value_num_string num_tail_stops [OF assms] Let_def)

lemma parse_num_negative:
  assumes "stops r"
  shows "parse_num (CHR ''-'' # num_string n @ r) = Some (JInt (- int n), r)"
  using num_string_no_leading_zero [of n]
  by (simp add: parse_num_def digits_then_stop [OF assms] dec_value_num_string
      num_tail_stops [OF assms] Let_def)

lemma parse_num_int: "stops r \<Longrightarrow> parse_num (int_string i @ r) = Some (JInt i, r)"
  by (simp add: int_string_def parse_num_unsigned parse_num_negative)

subsection \<open>Reading back a value\<close>

text \<open>\<open>plain v\<close>: \<open>v\<close> holds no number kept as text.\<close>

fun plain :: "json \<Rightarrow> bool" where
  "plain (JDec s) = False"
| "plain (JArr vs) = list_all plain vs"
| "plain (JObj kvs) = list_all (\<lambda>(k, v). plain v) kvs"
| "plain _ = True"

definition starts_ok :: "string \<Rightarrow> bool" where
  "starts_ok s \<longleftrightarrow> (\<exists>c t. s = c # t \<and> \<not> is_json_ws c \<and> c \<noteq> CHR '']'' \<and> c \<noteq> CHR ''}'')"

lemma starts_ok_append: "starts_ok s \<Longrightarrow> starts_ok (s @ r)"
  by (auto simp: starts_ok_def)

lemma QUOT_not_ws [simp]: "\<not> is_json_ws QUOT" "QUOT \<noteq> CHR '']''" "QUOT \<noteq> CHR ''}''" "QUOT \<noteq> CHR ''{''"
    "QUOT \<noteq> CHR ''[''" "QUOT \<noteq> CHR ''-''" "CHR ''n'' \<noteq> QUOT" "CHR ''t'' \<noteq> QUOT" "CHR ''f'' \<noteq> QUOT"
  by (simp_all add: is_json_ws_def char_eq_nat)

lemma int_string_start: "\<exists>c t. int_string i = c # t \<and> (c = CHR ''-'' \<or> is_digit c)"
proof -
  have "\<exists>c t. num_string n = c # t \<and> is_digit c" for n
    using num_string_is_digit [of _ n] num_string_nonempty [of n] by (cases "num_string n") auto
  then show ?thesis unfolding int_string_def by (cases "i < 0") (force, metis)
qed

lemma digit_start:
  "c = CHR ''-'' \<or> is_digit c \<Longrightarrow>
   \<not> is_json_ws c \<and> c \<noteq> CHR '']'' \<and> c \<noteq> CHR ''}'' \<and> c \<noteq> CHR ''{'' \<and> c \<noteq> CHR ''['' \<and> c \<noteq> QUOT \<and>
   c \<noteq> CHR ''t'' \<and> c \<noteq> CHR ''f'' \<and> c \<noteq> CHR ''n''"
  by (auto simp: is_digit_def is_json_ws_def char_eq_nat)

lemma stringify_starts: "plain v \<Longrightarrow> starts_ok (stringify v)"
proof (cases v)
  case (JInt i)
  then show ?thesis using int_string_start [of i] digit_start by (fastforce simp: starts_ok_def)
qed (auto simp: starts_ok_def quote_def is_json_ws_def)

lemma skip_ws_starts: "starts_ok s \<Longrightarrow> skip_ws s = s"
  by (auto simp: starts_ok_def skip_ws_def)

lemma skip_ws_Cons: "\<not> is_json_ws c \<Longrightarrow> skip_ws (c # r) = c # r"
  by (simp add: skip_ws_def)

lemma json_punct [simp]: "\<not> is_json_ws (CHR '','')" "\<not> is_json_ws (CHR '':'')" "\<not> is_json_ws (CHR ''}'')"
    "\<not> is_json_ws (CHR '']'')" "\<not> is_json_ws (CHR ''{'')" "\<not> is_json_ws (CHR ''['')"
    "\<not> is_json_ws (CHR ''t'')" "\<not> is_json_ws (CHR ''f'')" "\<not> is_json_ws (CHR ''n'')"
  by (simp_all add: is_json_ws_def)

lemmas json_lex = skip_ws_Cons quote_def parse_str_literal

definition reads_back :: "json \<Rightarrow> bool" where
  "reads_back v \<longleftrightarrow> (\<forall>n r. length (stringify v) \<le> n \<longrightarrow> stops r \<longrightarrow>
     parse_value n (stringify v @ r) = Some (v, r))"

lemma reads_backD:
  "reads_back v \<Longrightarrow> length (stringify v) \<le> n \<Longrightarrow> stops r \<Longrightarrow> parse_value n (stringify v @ r) = Some (v, r)"
  by (simp add: reads_back_def)

lemma parse_elems_join:
  assumes "\<forall>v \<in> set vs. reads_back v" and "vs \<noteq> []"
    and "length (join_comma (map stringify vs)) < n"
  shows "parse_elems n (join_comma (map stringify vs) @ CHR '']'' # r) = Some (vs, r)"
  using assms
proof (induction vs arbitrary: n)
  case Nil
  then show ?case by simp
next
  case (Cons v vs)
  then obtain m where n: "n = Suc m" by (cases n) auto
  have v: "reads_back v" using Cons.prems by simp
  show ?case
  proof (cases vs)
    case Nil
    then show ?thesis using Cons.prems(3) reads_backD [OF v] by (simp add: n json_lex)
  next
    case (Cons w ws)
    let ?tail = "join_comma (map stringify vs)"
    have shape: "join_comma (map stringify (v # vs)) = stringify v @ CHR '','' # ?tail"
      by (simp add: Cons)
    have "length (stringify v) \<le> m" and lt: "length ?tail < m" using Cons.prems(3) unfolding shape n by simp_all
    then have "parse_value m (stringify v @ CHR '','' # ?tail @ CHR '']'' # r) =
        Some (v, CHR '','' # ?tail @ CHR '']'' # r)"
      using reads_backD [OF v] by simp
    moreover have "parse_elems m (?tail @ CHR '']'' # r) = Some (vs, r)"
      using Cons.prems lt by (intro Cons.IH) (simp_all add: Cons)
    ultimately show ?thesis by (simp add: shape n json_lex del: list.map join_comma.simps)
  qed
qed

definition member_text :: "string \<times> json \<Rightarrow> string" where
  "member_text = (\<lambda>(k, v). quote k @ CHR '':'' # stringify v)"

lemma parse_members_join:
  assumes "\<forall>(k, v) \<in> set kvs. reads_back v \<and> plain v" and "kvs \<noteq> []"
    and "length (join_comma (map member_text kvs)) < n"
  shows "parse_members n (join_comma (map member_text kvs) @ CHR ''}'' # r) = Some (kvs, r)"
  using assms
proof (induction kvs arbitrary: n)
  case Nil
  then show ?case by simp
next
  case (Cons kv kvs)
  obtain k v where kv: "kv = (k, v)" by (cases kv)
  obtain m where n: "n = Suc m" using Cons.prems by (cases n) auto
  have v: "reads_back v" and pv: "plain v" using Cons.prems by (simp_all add: kv)
  have vt: "skip_ws (stringify v @ t) = stringify v @ t" for t
    by (intro skip_ws_starts starts_ok_append stringify_starts pv)
  show ?case
  proof (cases kvs)
    case Nil
    have "length (stringify v) \<le> m" using Cons.prems(3) by (simp add: Nil kv n member_text_def)
    then show ?thesis using reads_backD [OF v] by (simp add: Nil kv n member_text_def json_lex)
  next
    case (Cons w ws)
    let ?tail = "join_comma (map member_text kvs)"
    have shape: "join_comma (map member_text (kv # kvs)) =
        QUOT # concat (map quote_char k) @ QUOT # CHR '':'' # stringify v @ CHR '','' # ?tail"
      by (simp add: Cons kv member_text_def quote_def)
    have "length (stringify v) \<le> m" and lt: "length ?tail < m" using Cons.prems(3) unfolding shape n by simp_all
    then have "parse_value m (stringify v @ CHR '','' # ?tail @ CHR ''}'' # r) =
        Some (v, CHR '','' # ?tail @ CHR ''}'' # r)"
      using reads_backD [OF v] by simp
    moreover have "parse_members m (?tail @ CHR ''}'' # r) = Some (kvs, r)"
      using Cons.prems lt by (intro Cons.IH) (simp_all add: Cons)
    ultimately show ?thesis unfolding shape n
      by (simp add: kv json_lex del: list.map join_comma.simps)
  qed
qed

lemma join_comma_starts: "ss \<noteq> [] \<Longrightarrow> starts_ok (hd ss) \<Longrightarrow> starts_ok (join_comma ss)"
  by (induction ss rule: join_comma.induct) (auto intro: starts_ok_append)

lemma starts_ok_neq: "starts_ok s \<Longrightarrow> \<exists>c t. s = c # t \<and> skip_ws s = c # t \<and> c \<noteq> CHR '']'' \<and> c \<noteq> CHR ''}''"
  by (auto simp: starts_ok_def skip_ws_def)

lemma parse_value_stringify: "plain v \<Longrightarrow> reads_back v"
proof (induction v)
  case (JInt i)
  show ?case unfolding reads_back_def
  proof (intro allI impI)
    fix n r
    assume len: "length (stringify (JInt i)) \<le> n" and stop: "stops r"
    obtain c t where i: "int_string i = c # t" and c: "c = CHR ''-'' \<or> is_digit c"
      using int_string_start by blast
    obtain m where n: "n = Suc m" using len i by (cases n) auto
    show "parse_value n (stringify (JInt i) @ r) = Some (JInt i, r)"
      using digit_start [OF c] parse_num_int [OF stop, of i] by (simp add: n i skip_ws_Cons)
  qed
next
  case (JStr s)
  show ?case unfolding reads_back_def
  proof (intro allI impI)
    fix n r
    assume "length (stringify (JStr s)) \<le> n" and "stops r"
    then obtain m where "n = Suc m" by (cases n) (auto simp: quote_def)
    then show "parse_value n (stringify (JStr s) @ r) = Some (JStr s, r)" by (simp add: json_lex)
  qed
next
  case (JArr vs)
  have rb: "\<forall>v \<in> set vs. reads_back v" using JArr by (auto simp: list_all_iff)
  show ?case unfolding reads_back_def
  proof (intro allI impI)
    fix n r
    assume len: "length (stringify (JArr vs)) \<le> n" and "stops r"
    then obtain m where n: "n = Suc m" by (cases n) auto
    show "parse_value n (stringify (JArr vs) @ r) = Some (JArr vs, r)"
    proof (cases "vs = []")
      case True
      then show ?thesis by (simp add: n skip_ws_Cons)
    next
      case False
      let ?b = "join_comma (map stringify vs)"
      have "starts_ok ?b" using False JArr.prems
        by (intro join_comma_starts) (auto simp: hd_map list_all_iff intro!: stringify_starts)
      then have "starts_ok (?b @ CHR '']'' # r)" by (rule starts_ok_append)
      moreover have "length ?b < m" using len by (simp add: n)
      ultimately show ?thesis
        using starts_ok_neq [of "?b @ CHR '']'' # r"] parse_elems_join [OF rb False, of m r]
        by (auto simp: n skip_ws_Cons)
    qed
  qed
next
  case (JObj kvs)
  have rb: "\<forall>(k, v) \<in> set kvs. reads_back v \<and> plain v"
    using JObj by (fastforce simp: list_all_iff)
  show ?case unfolding reads_back_def
  proof (intro allI impI)
    fix n r
    assume len: "length (stringify (JObj kvs)) \<le> n" and "stops r"
    then obtain m where n: "n = Suc m" by (cases n) auto
    have shape: "stringify (JObj kvs) = CHR ''{'' # join_comma (map member_text kvs) @ ''}''"
      by (simp add: member_text_def)
    show "parse_value n (stringify (JObj kvs) @ r) = Some (JObj kvs, r)"
    proof (cases "kvs = []")
      case True
      then show ?thesis by (simp add: n skip_ws_Cons)
    next
      case False
      let ?b = "join_comma (map member_text kvs)"
      have "starts_ok (member_text (hd kvs))"
        by (cases "hd kvs") (simp add: member_text_def quote_def starts_ok_def)
      then have "starts_ok ?b" using False by (intro join_comma_starts) (auto simp: hd_map)
      then have "starts_ok (?b @ CHR ''}'' # r)" by (rule starts_ok_append)
      moreover have "length ?b < m" using len unfolding shape by (simp add: n)
      ultimately show ?thesis
        using starts_ok_neq [of "?b @ CHR ''}'' # r"] parse_members_join [OF rb False, of m r]
        unfolding shape by (auto simp: n skip_ws_Cons)
    qed
  qed
next
  case JNull
  show ?case unfolding reads_back_def
  proof (intro allI impI)
    fix n r
    assume "length (stringify JNull) \<le> n"
    then obtain m where "n = Suc m" by (cases n) auto
    then show "parse_value n (stringify JNull @ r) = Some (JNull, r)" by (simp add: skip_ws_Cons)
  qed
next
  case (JBool b)
  show ?case unfolding reads_back_def
  proof (intro allI impI)
    fix n r
    assume "length (stringify (JBool b)) \<le> n"
    then obtain m where "n = Suc m" by (cases n) (auto split: if_splits)
    then show "parse_value n (stringify (JBool b) @ r) = Some (JBool b, r)"
      by (cases b) (simp_all add: skip_ws_Cons)
  qed
qed simp

lemma json_parse_stringify [codec_simps]: "plain v \<Longrightarrow> json_parse (stringify v) = Inr v"
  using reads_backD [OF parse_value_stringify, of v "Suc (length (stringify v))" "[]"]
  by (simp add: json_parse_def skip_ws_def)

end
