(* ===== verification/Wire.thy ===== *)
theory Wire
  imports Hex Json
begin

section \<open>Messages and chunk frames (web/ws-client.js, web/transfer.js)\<close>

text \<open>
  What travels over a WebSocket of the client. A text frame carries the JSON text of an
  envelope \<open>{type, payload}\<close>: \<open>envelope\<close> has one constructor for each message type of
  docs/PROTOCOL.md that the client sends or reacts to, with the payload fields the client
  reads. \<open>json_env\<close> is what the handlers see of a parsed message: \<open>Malformed t\<close> is a message
  of a known type whose payload lacks what the handler dereferences (the handler throws a
  TypeError there), \<open>Other_env\<close> any message no handler reacts to. The sender takes over
  whatever \<open>ackedUpTo\<close> a \<open>chunk_ack\<close> carries, so a message in which it is missing or no integer
  is kept with the value it has (\<open>Odd_ack\<close>); all other fields are read at the types of
  docs/PROTOCOL.md. A binary frame is a byte array,
  and the chunk frame format of transfer.js is modelled byte by byte. The sending side of a
  socket is the list of frames it has accepted, in order.
\<close>

datatype envelope =
    Create_session
  | Session_created string
  | Create_code_session
  | Code_session_created string string
  | Join string
  | Join_by_code string
  | Paired "string option"
  | Error_env "string option"
  | Reconnect_token string
  | Reconnect string string string
  | Reconnected
  | Peer_reconnected
  | Peer_disconnected
  | Session_ended "string option"
  | End_session
  | Role_swap_request
  | Role_swap_response bool
  | Pake_msg string
  | Pake_confirm string
  | File_meta string string
  | Chunk_ack string int
  | Odd_ack string "json option"
  | File_abort string "string option"
  | Malformed string
  | Other_env string

datatype frame = Text string | Binary bytes

subsection \<open>Envelopes as JSON\<close>

definition env_obj :: "string \<Rightarrow> json \<Rightarrow> json" where
  "env_obj t p = JObj [(''type'', JStr t), (''payload'', p)]"

definition opt_field :: "string \<Rightarrow> string option \<Rightarrow> (string \<times> json) list" where
  "opt_field k v = (case v of None \<Rightarrow> [] | Some x \<Rightarrow> [(k, JStr x)])"

fun env_json :: "envelope \<Rightarrow> json" where
  "env_json Create_session = env_obj ''create_session'' JNull"
| "env_json (Session_created i) = env_obj ''session_created'' (JObj [(''sessionId'', JStr i)])"
| "env_json Create_code_session = env_obj ''create_code_session'' JNull"
| "env_json (Code_session_created c x) =
     env_obj ''code_session_created'' (JObj [(''code'', JStr c), (''expiresAt'', JStr x)])"
| "env_json (Join i) = env_obj ''join'' (JObj [(''sessionId'', JStr i)])"
| "env_json (Join_by_code c) = env_obj ''join_by_code'' (JObj [(''code'', JStr c)])"
| "env_json (Paired i) = env_obj ''paired'' (JObj (opt_field ''sessionId'' i))"
| "env_json (Error_env c) = env_obj ''error'' (JObj (opt_field ''code'' c))"
| "env_json (Reconnect_token x) = env_obj ''reconnect_token'' (JObj [(''tokenHex'', JStr x)])"
| "env_json (Reconnect i r x) =
     env_obj ''reconnect'' (JObj [(''sessionId'', JStr i), (''role'', JStr r), (''tokenHex'', JStr x)])"
| "env_json Reconnected = env_obj ''reconnected'' JNull"
| "env_json Peer_reconnected = env_obj ''peer_reconnected'' JNull"
| "env_json Peer_disconnected = env_obj ''peer_disconnected'' JNull"
| "env_json (Session_ended r) = env_obj ''session_ended'' (JObj (opt_field ''reason'' r))"
| "env_json End_session = env_obj ''end_session'' JNull"
| "env_json Role_swap_request = env_obj ''role_swap_request'' JNull"
| "env_json (Role_swap_response b) = env_obj ''role_swap_response'' (JObj [(''accepted'', JBool b)])"
| "env_json (Pake_msg m) = env_obj ''pake_msg'' (JObj [(''message'', JStr m)])"
| "env_json (Pake_confirm x) = env_obj ''pake_confirm'' (JObj [(''tagHex'', JStr x)])"
| "env_json (File_meta f c) = env_obj ''file_meta'' (JObj [(''fileId'', JStr f), (''ciphertext'', JStr c)])"
| "env_json (Chunk_ack f i) = env_obj ''chunk_ack'' (JObj [(''fileId'', JStr f), (''ackedUpTo'', JInt i)])"
| "env_json (Odd_ack f v) = env_obj ''chunk_ack'' (JObj ((''fileId'', JStr f) #
     (case v of None \<Rightarrow> [] | Some j \<Rightarrow> [(''ackedUpTo'', j)])))"
| "env_json (File_abort f r) = env_obj ''file_abort'' (JObj ((''fileId'', JStr f) # opt_field ''reason'' r))"
| "env_json (Malformed t) = env_obj t JNull"
| "env_json (Other_env t) = env_obj t JNull"

definition str_field :: "json option \<Rightarrow> string \<Rightarrow> string option" where
  "str_field p k = (case p of
     Some (JObj kvs) \<Rightarrow> (case jget kvs k of Some (JStr s) \<Rightarrow> Some s | _ \<Rightarrow> None)
   | _ \<Rightarrow> None)"

definition int_field :: "json option \<Rightarrow> string \<Rightarrow> int option" where
  "int_field p k = (case p of
     Some (JObj kvs) \<Rightarrow> (case jget kvs k of Some (JInt i) \<Rightarrow> Some i | _ \<Rightarrow> None)
   | _ \<Rightarrow> None)"

definition any_field :: "json option \<Rightarrow> string \<Rightarrow> json option" where
  "any_field p k = (case p of Some (JObj kvs) \<Rightarrow> jget kvs k | _ \<Rightarrow> None)"

definition bool_field :: "json option \<Rightarrow> string \<Rightarrow> bool" where
  "bool_field p k = (case p of
     Some (JObj kvs) \<Rightarrow> (jget kvs k = Some (JBool True))
   | _ \<Rightarrow> False)"

definition need :: "string \<Rightarrow> 'a option \<Rightarrow> ('a \<Rightarrow> envelope) \<Rightarrow> envelope" where
  "need t v mk = (case v of None \<Rightarrow> Malformed t | Some x \<Rightarrow> mk x)"

text \<open>
  For \<open>chunk_ack\<close> and \<open>file_abort\<close> the handlers compare \<open>payload.fileId\<close>: a payload that is null
  or missing throws, one without the field is just a different file.
\<close>

definition need_id :: "string \<Rightarrow> json option \<Rightarrow> 'a option \<Rightarrow> ('a \<Rightarrow> envelope) \<Rightarrow> envelope" where
  "need_id t p v mk =
     (if p = None \<or> p = Some JNull then Malformed t
      else case v of None \<Rightarrow> Other_env t | Some x \<Rightarrow> mk x)"

definition dispatch :: "string \<Rightarrow> json option \<Rightarrow> envelope" where
  "dispatch t p =
     (if t = ''create_session'' then Create_session
      else if t = ''session_created'' then need t (str_field p ''sessionId'') Session_created
      else if t = ''create_code_session'' then Create_code_session
      else if t = ''code_session_created'' then
        need t (str_field p ''code'') (\<lambda>c. need t (str_field p ''expiresAt'') (Code_session_created c))
      else if t = ''join'' then need t (str_field p ''sessionId'') Join
      else if t = ''join_by_code'' then need t (str_field p ''code'') Join_by_code
      else if t = ''paired'' then Paired (str_field p ''sessionId'')
      else if t = ''error'' then Error_env (str_field p ''code'')
      else if t = ''reconnect_token'' then need t (str_field p ''tokenHex'') Reconnect_token
      else if t = ''reconnect'' then
        need t (str_field p ''sessionId'') (\<lambda>i. need t (str_field p ''role'') (\<lambda>r.
          need t (str_field p ''tokenHex'') (Reconnect i r)))
      else if t = ''reconnected'' then Reconnected
      else if t = ''peer_reconnected'' then Peer_reconnected
      else if t = ''peer_disconnected'' then Peer_disconnected
      else if t = ''session_ended'' then Session_ended (str_field p ''reason'')
      else if t = ''end_session'' then End_session
      else if t = ''role_swap_request'' then Role_swap_request
      else if t = ''role_swap_response'' then Role_swap_response (bool_field p ''accepted'')
      else if t = ''pake_msg'' then need t (str_field p ''message'') Pake_msg
      else if t = ''pake_confirm'' then need t (str_field p ''tagHex'') Pake_confirm
      else if t = ''file_meta'' then
        need t (str_field p ''fileId'') (\<lambda>f. need t (str_field p ''ciphertext'') (File_meta f))
      else if t = ''chunk_ack'' then
        need_id t p (str_field p ''fileId'') (\<lambda>f. case int_field p ''ackedUpTo'' of
          Some i \<Rightarrow> Chunk_ack f i | None \<Rightarrow> Odd_ack f (any_field p ''ackedUpTo''))
      else if t = ''file_abort'' then
        need_id t p (str_field p ''fileId'') (\<lambda>f. File_abort f (str_field p ''reason''))
      else Other_env t)"

text \<open>\<open>if (!env) return\<close>: null, false, 0 and the empty string are dropped by every handler.\<close>

fun json_env :: "json \<Rightarrow> envelope option" where
  "json_env JNull = None"
| "json_env (JBool b) = (if b then Some (Other_env []) else None)"
| "json_env (JInt i) = (if i = 0 then None else Some (Other_env []))"
| "json_env (JStr s) = (if s = [] then None else Some (Other_env []))"
| "json_env (JObj kvs) =
     (case jget kvs ''type'' of
        Some (JStr t) \<Rightarrow> Some (dispatch t (jget kvs ''payload''))
      | _ \<Rightarrow> Some (Other_env []))"
| "json_env _ = Some (Other_env [])"

text \<open>\<open>sendEnvelope(socket, type, payload)\<close> and \<open>parseEnvelope(event)\<close> of ws-client.js.\<close>

definition env_frame :: "envelope \<Rightarrow> frame" where
  "env_frame env = Text (stringify (env_json env))"

definition sendEnvelope :: "frame list \<Rightarrow> envelope \<Rightarrow> frame list" where
  "sendEnvelope socket env = socket @ [env_frame env]"

fun parseEnvelope :: "frame \<Rightarrow> envelope option" where
  "parseEnvelope (Binary _) = None"
| "parseEnvelope (Text t) = (case json_parse t of Inl _ \<Rightarrow> None | Inr j \<Rightarrow> json_env j)"

fun well_typed :: "envelope \<Rightarrow> bool" where
  "well_typed (Malformed _) = False"
| "well_typed (Other_env _) = False"
| "well_typed (Odd_ack _ _) = False"
| "well_typed _ = True"

lemma plain_env_json: "well_typed e \<or> e = Odd_ack f None \<Longrightarrow> plain (env_json e)"
  by (cases e) (auto simp: env_obj_def opt_field_def split: option.splits)

lemma field_simps_jget [simp]:
  "jget [] k = None"
  "jget [(a, v)] k = (if k = a then Some v else None)"
  "jget [(a, v), (b, w)] k = (if k = b then Some w else if k = a then Some v else None)"
  "jget [(a, v), (b, w), (c, u)] k =
     (if k = c then Some u else if k = b then Some w else if k = a then Some v else None)"
  by (simp_all add: jget_def)

lemma json_env_obj [simp]: "json_env (env_obj t p) = Some (dispatch t (Some p))"
  by (simp add: env_obj_def)

lemmas field_defs = str_field_def int_field_def any_field_def bool_field_def need_def need_id_def opt_field_def

lemma json_env_json: "well_typed e \<Longrightarrow> json_env (env_json e) = Some e"
  by (cases e) (simp_all add: dispatch_def field_defs split: option.splits)

lemma parseEnvelope_env_frame [simp]: "well_typed e \<Longrightarrow> parseEnvelope (env_frame e) = Some e"
  by (simp add: env_frame_def json_parse_stringify [OF plain_env_json] json_env_json)

lemma parseEnvelope_bare_ack [simp]: "parseEnvelope (env_frame (Odd_ack f None)) = Some (Odd_ack f None)"
  using json_parse_stringify [OF plain_env_json [of "Odd_ack f None"]]
  by (simp add: env_frame_def dispatch_def field_defs)

lemma env_frame_inj: "well_typed e \<Longrightarrow> well_typed f \<Longrightarrow> env_frame e = env_frame f \<longleftrightarrow> e = f"
  by (metis option.sel parseEnvelope_env_frame)

lemma env_frame_not_Binary [simp]: "env_frame e \<noteq> Binary b" "Binary b \<noteq> env_frame e"
  by (simp_all add: env_frame_def)

subsection \<open>The chunk frame\<close>

text \<open>
  \<open>arr.set(xs, off)\<close> on a typed array that is long enough: the bytes from \<open>off\<close> on are
  overwritten.
\<close>

definition set_at :: "nat \<Rightarrow> bytes \<Rightarrow> bytes \<Rightarrow> bytes" where
  "set_at off xs arr = take off arr @ xs @ drop (off + length xs) arr"

definition slice :: "nat \<Rightarrow> nat \<Rightarrow> bytes \<Rightarrow> bytes" where
  "slice from to xs = take (to - from) (drop from xs)"

definition FRAME_TYPE_CHUNK :: byte where "FRAME_TYPE_CHUNK = 1"

definition buildChunkFrame :: "bytes \<Rightarrow> int \<Rightarrow> bool \<Rightarrow> bytes \<Rightarrow> bytes" where
  "buildChunkFrame fileId index isLast ciphertext =
     (let frame0 = replicate (1 + 1 + 16 + 8 + length ciphertext) 0;
          frame1 = frame0[0 := FRAME_TYPE_CHUNK];
          frame2 = frame1[1 := (if isLast then 1 else 0)];
          frame3 = set_at 2 fileId frame2;
          frame4 = set_at 18 (be_bytes 8 index) frame3
      in set_at 26 ciphertext frame4)"

record chunk_frame =
  cf_fileId :: bytes
  cf_index :: int
  cf_isLast :: bool
  cf_ciphertext :: bytes

definition parseChunkFrame :: "bytes \<Rightarrow> chunk_frame option" where
  "parseChunkFrame buffer =
     (if length buffer < 26 \<or> buffer ! 0 \<noteq> FRAME_TYPE_CHUNK then None
      else Some \<lparr>cf_fileId = slice 2 18 buffer,
                 cf_index = be_val (take 8 (drop 18 buffer)),
                 cf_isLast = (buffer ! 1 AND 1 = 1),
                 cf_ciphertext = drop 26 buffer\<rparr>)"

lemma set_at_middle:
  "length a = off \<Longrightarrow> length m = length xs \<Longrightarrow> set_at off xs (a @ m @ b) = a @ xs @ b"
  by (simp add: set_at_def)

lemma buildChunkFrame_layout:
  assumes "length fileId = 16"
  shows "buildChunkFrame fileId index isLast ct =
    FRAME_TYPE_CHUNK # (if isLast then 1 else 0) # fileId @ be_bytes 8 index @ ct"
proof -
  let ?hd = "[FRAME_TYPE_CHUNK, (if isLast then 1 else 0)] :: bytes"
  let ?i = "be_bytes 8 index"
  let ?n = "length ct"
  have zeros: "replicate (1 + 1 + 16 + 8 + ?n) (0 :: byte) =
      [0, 0] @ replicate 16 0 @ (replicate 8 0 @ replicate ?n 0)"
  proof -
    have "(1 + 1 + 16 + 8 + ?n) = 2 + (16 + (8 + ?n))" by simp
    then show ?thesis by (simp only: replicate_add) (simp add: numeral_2_eq_2)
  qed
  have "set_at 2 fileId (?hd @ replicate 16 0 @ (replicate 8 0 @ replicate ?n 0)) =
      ?hd @ fileId @ (replicate 8 0 @ replicate ?n 0)"
    using assms by (intro set_at_middle) simp_all
  moreover have "set_at 18 ?i ((?hd @ fileId) @ replicate 8 0 @ replicate ?n 0) =
      (?hd @ fileId) @ ?i @ replicate ?n 0"
    using assms by (intro set_at_middle) simp_all
  moreover have "set_at 26 ct ((?hd @ fileId @ ?i) @ replicate ?n 0 @ []) =
      (?hd @ fileId @ ?i) @ ct @ []"
    using assms by (intro set_at_middle) simp_all
  ultimately show ?thesis
    unfolding buildChunkFrame_def zeros Let_def by simp
qed

lemma length_buildChunkFrame [codec_simps]:
  "length fileId = 16 \<Longrightarrow> length (buildChunkFrame fileId index isLast ct) = 26 + length ct"
  by (simp add: buildChunkFrame_layout)

lemma parse_build [codec_simps]:
  assumes "length fileId = 16"
  shows "parseChunkFrame (buildChunkFrame fileId index isLast ct) =
    Some \<lparr>cf_fileId = fileId, cf_index = index mod 2 ^ 64, cf_isLast = isLast, cf_ciphertext = ct\<rparr>"
  using assms
  by (simp add: parseChunkFrame_def buildChunkFrame_layout slice_def be_val_be_bytes)

lemma parse_length:
  "parseChunkFrame buffer = Some fr \<Longrightarrow>
   length (cf_fileId fr) = 16 \<and> 0 \<le> cf_index fr \<and> cf_index fr < 2 ^ 64 \<and>
   length buffer = 26 + length (cf_ciphertext fr)"
  using be_val_bounds [of "take 8 (drop 18 buffer)"]
  by (auto simp: parseChunkFrame_def slice_def split: if_splits)

subsection \<open>Properties\<close>

text \<open>C35. A chunk frame is read back as it was built, for every index below \<open>2^64\<close>; the frame is 26
  bytes longer than the ciphertext, and what is shorter than 26 bytes or does not start with the
  chunk type is no chunk frame.\<close>

theorem chunk_frame_roundtrip:
  assumes "length fileId = 16" "0 \<le> index" "index < 2 ^ 64"
  shows "parseChunkFrame (buildChunkFrame fileId index isLast ct) =
      Some \<lparr>cf_fileId = fileId, cf_index = index, cf_isLast = isLast, cf_ciphertext = ct\<rparr> \<and>
    length (buildChunkFrame fileId index isLast ct) = 26 + length ct \<and>
    (length buffer < 26 \<or> hd buffer \<noteq> FRAME_TYPE_CHUNK \<longleftrightarrow> parseChunkFrame buffer = None)"
proof -
  have "length buffer < 26 \<or> hd buffer \<noteq> FRAME_TYPE_CHUNK \<longleftrightarrow> parseChunkFrame buffer = None"
    by (cases buffer) (simp_all add: parseChunkFrame_def)
  then show ?thesis
    using assms by (simp add: parse_build length_buildChunkFrame mod_pos_pos_trivial)
qed

theorem chunk_frame_roundtrip_witness:
  "parseChunkFrame (buildChunkFrame (replicate 16 5) 258 True [7, 8]) =
      Some \<lparr>cf_fileId = replicate 16 5, cf_index = 258, cf_isLast = True, cf_ciphertext = [7, 8]\<rparr> \<and>
    length (buildChunkFrame (replicate 16 5) 258 True [7, 8]) = 26 + length ([7, 8] :: bytes) \<and>
    (length ([1] :: bytes) < 26 \<or> hd [1] \<noteq> FRAME_TYPE_CHUNK \<longleftrightarrow> parseChunkFrame [1] = None)"
  by (rule chunk_frame_roundtrip) simp_all

text \<open>C36. Every message the client sends is read back by \<open>parseEnvelope\<close> as the message it was, and no
  two different messages have the same text; a binary frame is never taken for a message.\<close>

theorem envelope_roundtrip:
  assumes "well_typed e" "well_typed f"
  shows "parseEnvelope (env_frame e) = Some e \<and> (env_frame e = env_frame f \<longleftrightarrow> e = f) \<and>
    parseEnvelope (Binary b) = None"
  using assms by (simp add: env_frame_inj)

theorem envelope_roundtrip_witness:
  "parseEnvelope (env_frame (Chunk_ack ''00ff'' 3)) = Some (Chunk_ack ''00ff'' 3) \<and>
   (env_frame (Chunk_ack ''00ff'' 3) = env_frame (File_abort ''00ff'' None) \<longleftrightarrow>
      Chunk_ack ''00ff'' 3 = File_abort ''00ff'' None) \<and>
   parseEnvelope (Binary [1]) = None"
  by (rule envelope_roundtrip) simp_all

end
