(* ===== verification/Receiver.thy ===== *)
theory Receiver
  imports Wire Crypto
begin

section \<open>Receiving files (attachReceiver of web/transfer.js)\<close>

text \<open>
  A receiver handles one message at a time: \<open>onMessage\<close> puts a step on \<open>processingChain\<close>, and
  the step that runs is parked at an \<open>await\<close> of its handler function (\<open>r_phase\<close>), the others wait
  in \<open>r_queue\<close>. A step that ends starts the next one before any other event (\<open>drain\<close>).
  \<open>R_settle\<close> is the fulfilment of the promise awaited (key derivation, decryption, or the
  promise of \<open>onFileStart\<close> or \<open>onChunk\<close>), \<open>R_reject e\<close> the rejection of the latter or an exception
  in them. What the receiver does outwardly, calling a handler or sending a message, is one
  list in the order it happens (\<open>r_log\<close>). The handlers that are not awaited are taken not to
  throw. A frame sent on a closed socket is discarded.
\<close>

record recv_ctx =
  rc_wc :: webcrypto
  rc_epochKey :: bytes

text \<open>\<open>current\<close>.\<close>

record rfile =
  rf_fileIdHex :: string
  rf_fileKey :: bytes
  rf_expectedIndex :: nat

text \<open>The steps on the chain; \<open>None\<close> is a payload without the fields the handler reads.\<close>

datatype r_task =
    Handle_meta "(string \<times> string) option"
  | Handle_abort "(string \<times> string option) option"
  | Handle_chunk bytes

datatype r_phase =
    Idle
  | Meta_deriving string string
  | Meta_decrypting string bytes string
  | Meta_starting
  | Chunk_decrypting chunk_frame bytes
  | Chunk_handling chunk_frame nat

datatype r_call =
    OnFileStart string "json option" "json option" "json option"
  | OnChunk string nat bool bytes
  | OnFileComplete string
  | OnAborted string "string option"
  | OnError js_error

datatype r_out = Call r_call | Sent frame

record receiver =
  r_current :: "rfile option"
  r_phase :: r_phase
  r_queue :: "r_task list"
  r_open :: bool
  r_attached :: bool
  r_log :: "r_out list"

datatype r_event = R_frame frame | R_settle | R_reject js_error | R_close | R_abortCurrent | R_detach

definition r_call :: "r_call \<Rightarrow> receiver \<Rightarrow> receiver" where
  "r_call cl r = r\<lparr>r_log := r_log r @ [Call cl]\<rparr>"

definition r_send :: "envelope \<Rightarrow> receiver \<Rightarrow> receiver" where
  "r_send env r = (if r_open r then r\<lparr>r_log := r_log r @ [Sent (env_frame env)]\<rparr> else r)"

text \<open>The end of a step; an exception ends it in the \<open>catch\<close> of \<open>chainStep\<close>, and the two \<open>catch\<close>
  blocks of the handlers do the same.\<close>

definition r_done :: "receiver \<Rightarrow> receiver" where
  "r_done r = r\<lparr>r_phase := Idle\<rparr>"

definition r_fail :: "js_error \<Rightarrow> receiver \<Rightarrow> receiver" where
  "r_fail e r = r_done (r_call (OnError e) r)"

subsection \<open>handleFileMeta\<close>

text \<open>The property \<open>v.k\<close> of a parsed JSON value.\<close>

fun jprop :: "json \<Rightarrow> string \<Rightarrow> json option" where
  "jprop (JObj kvs) k = jget kvs k"
| "jprop _ k = None"

definition meta_start :: "(string \<times> string) option \<Rightarrow> receiver \<Rightarrow> receiver" where
  "meta_start payload r = (case payload of
     None \<Rightarrow> r_fail Type_error r
   | Some (fileId, ciphertext) \<Rightarrow> r\<lparr>r_phase := Meta_deriving fileId ciphertext\<rparr>)"

definition meta_derived :: "recv_ctx \<Rightarrow> string \<Rightarrow> string \<Rightarrow> receiver \<Rightarrow> receiver" where
  "meta_derived c fileId ciphertext r =
     (case deriveFileKey (rc_wc c) (rc_epochKey c) (fromHex fileId) of
        Inl e \<Rightarrow> r_fail e r
      | Inr key \<Rightarrow> r\<lparr>r_phase := Meta_decrypting fileId key ciphertext\<rparr>)"

definition meta_decrypted :: "recv_ctx \<Rightarrow> string \<Rightarrow> bytes \<Rightarrow> string \<Rightarrow> receiver \<Rightarrow> receiver" where
  "meta_decrypted c fileId key ciphertext r =
     (case decryptChunk (rc_wc c) key (fromHex fileId) METADATA_CHUNK_INDEX True (fromHex ciphertext) of
        Inl e \<Rightarrow> r_fail e r
      | Inr plaintext \<Rightarrow>
          (case json_parse (utf8_decode plaintext) of
             Inl e \<Rightarrow> r_fail e r
           | Inr meta \<Rightarrow>
               let r1 = r\<lparr>r_current := Some \<lparr>rf_fileIdHex = fileId, rf_fileKey = key,
                                             rf_expectedIndex = 0\<rparr>\<rparr>
               in if meta = JNull then r_fail Type_error r1
                  else (r_call (OnFileStart fileId (jprop meta ''name'') (jprop meta ''size'')
                          (jprop meta ''mime'')) r1)\<lparr>r_phase := Meta_starting\<rparr>))"

subsection \<open>handleChunkFrame\<close>

definition out_of_order :: js_error where
  "out_of_order = Error_msg ''file chunk out of order or for the wrong file''"

definition chunk_start :: "bytes \<Rightarrow> receiver \<Rightarrow> receiver" where
  "chunk_start buffer r = (case parseChunkFrame buffer of
     None \<Rightarrow> r_done r
   | Some fr \<Rightarrow>
      (case r_current r of
         None \<Rightarrow> r_done r
       | Some cur \<Rightarrow>
           if toHex (cf_fileId fr) \<noteq> rf_fileIdHex cur \<or> cf_index fr \<noteq> int (rf_expectedIndex cur)
           then r_fail out_of_order r
           else r\<lparr>r_phase := Chunk_decrypting fr (rf_fileKey cur)\<rparr>))"

text \<open>After the decryption \<open>current\<close> may have become null; reading \<open>expectedIndex\<close> then throws.\<close>

definition chunk_decrypted :: "recv_ctx \<Rightarrow> chunk_frame \<Rightarrow> bytes \<Rightarrow> receiver \<Rightarrow> receiver" where
  "chunk_decrypted c fr key r =
     (case decryptChunk (rc_wc c) key (cf_fileId fr) (cf_index fr) (cf_isLast fr) (cf_ciphertext fr) of
        Inl e \<Rightarrow> r_fail e r
      | Inr plaintext \<Rightarrow>
          (case r_current r of
             None \<Rightarrow> r_fail Type_error r
           | Some cur \<Rightarrow>
               let index = rf_expectedIndex cur
               in (r_call (OnChunk (toHex (cf_fileId fr)) index (cf_isLast fr) plaintext) r)
                    \<lparr>r_phase := Chunk_handling fr index\<rparr>))"

definition chunk_handled :: "chunk_frame \<Rightarrow> nat \<Rightarrow> receiver \<Rightarrow> receiver" where
  "chunk_handled fr index r =
     (let fileIdHex = toHex (cf_fileId fr);
          r1 = r_send (Chunk_ack fileIdHex (int index)) r
      in case r_current r1 of
           None \<Rightarrow> r_fail Type_error r1
         | Some cur \<Rightarrow>
             if cf_isLast fr
             then r_done (r_call (OnFileComplete fileIdHex) (r1\<lparr>r_current := None\<rparr>))
             else r_done (r1\<lparr>r_current := Some (cur\<lparr>rf_expectedIndex := rf_expectedIndex cur + 1\<rparr>)\<rparr>))"

subsection \<open>handleFileAbort and the chain\<close>

definition abort_start :: "(string \<times> string option) option \<Rightarrow> receiver \<Rightarrow> receiver" where
  "abort_start payload r = (case r_current r of
     None \<Rightarrow> r_done r
   | Some cur \<Rightarrow>
       (case payload of
          None \<Rightarrow> r_fail Type_error r
        | Some (fileId, reason) \<Rightarrow>
            if fileId \<noteq> rf_fileIdHex cur then r_done r
            else r_done (r_call (OnAborted fileId reason) (r\<lparr>r_current := None\<rparr>))))"

fun r_start :: "r_task \<Rightarrow> receiver \<Rightarrow> receiver" where
  "r_start (Handle_meta p) r = meta_start p r"
| "r_start (Handle_abort p) r = abort_start p r"
| "r_start (Handle_chunk b) r = chunk_start b r"

primrec drain :: "r_task list \<Rightarrow> receiver \<Rightarrow> receiver" where
  "drain [] r = r\<lparr>r_queue := []\<rparr>"
| "drain (t # ts) r = (if r_phase r = Idle then drain ts (r_start t r) else r\<lparr>r_queue := t # ts\<rparr>)"

text \<open>\<open>onMessage\<close>: what a frame puts on the chain.\<close>

fun tasks_of :: "frame \<Rightarrow> r_task list" where
  "tasks_of (Binary b) = [Handle_chunk b]"
| "tasks_of (Text t) = (case parseEnvelope (Text t) of
     Some (File_meta f ct) \<Rightarrow> [Handle_meta (Some (f, ct))]
   | Some (File_abort f reason) \<Rightarrow> [Handle_abort (Some (f, reason))]
   | Some (Malformed ty) \<Rightarrow>
       if ty = ''file_meta'' then [Handle_meta None]
       else if ty = ''file_abort'' then [Handle_abort None] else []
   | _ \<Rightarrow> [])"

text \<open>The step that is parked, resumed; \<open>r_rejected\<close> for the promises of the handlers.\<close>

definition r_resume :: "recv_ctx \<Rightarrow> receiver \<Rightarrow> receiver" where
  "r_resume c r = (case r_phase r of
     Idle \<Rightarrow> r
   | Meta_deriving f ct \<Rightarrow> meta_derived c f ct r
   | Meta_decrypting f key ct \<Rightarrow> meta_decrypted c f key ct r
   | Meta_starting \<Rightarrow> r_done r
   | Chunk_decrypting fr key \<Rightarrow> chunk_decrypted c fr key r
   | Chunk_handling fr index \<Rightarrow> chunk_handled fr index r)"

definition r_rejected :: "js_error \<Rightarrow> receiver \<Rightarrow> receiver" where
  "r_rejected e r = (case r_phase r of
     Meta_starting \<Rightarrow> r_fail e r
   | Chunk_handling _ _ \<Rightarrow> r_fail e r
   | _ \<Rightarrow> r)"

subsection \<open>Listeners and the returned functions\<close>

definition r_lost :: js_error where
  "r_lost = Error_msg ''connection_lost''"

definition r_onClose :: "receiver \<Rightarrow> receiver" where
  "r_onClose r = (case r_current r of
     None \<Rightarrow> r
   | Some _ \<Rightarrow> r_call (OnError r_lost) (r\<lparr>r_current := None\<rparr>))"

definition abortCurrent :: "receiver \<Rightarrow> receiver" where
  "abortCurrent r = (case r_current r of
     None \<Rightarrow> r
   | Some cur \<Rightarrow>
       r_call (OnAborted (rf_fileIdHex cur) None)
         (r_send (File_abort (rf_fileIdHex cur) None) (r\<lparr>r_current := None\<rparr>)))"

fun r_step :: "recv_ctx \<Rightarrow> receiver \<Rightarrow> r_event \<Rightarrow> receiver" where
  "r_step c r (R_frame fr) = (if r_attached r then drain (r_queue r @ tasks_of fr) r else r)"
| "r_step c r R_settle = drain (r_queue r) (r_resume c r)"
| "r_step c r (R_reject e) = drain (r_queue r) (r_rejected e r)"
| "r_step c r R_close =
     (let r1 = r\<lparr>r_open := False\<rparr> in if r_attached r then r_onClose r1 else r1)"
| "r_step c r R_abortCurrent = abortCurrent r"
| "r_step c r R_detach = r\<lparr>r_attached := False\<rparr>"

definition r_init :: receiver where
  "r_init = \<lparr>r_current = None, r_phase = Idle, r_queue = [], r_open = True, r_attached = True, r_log = []\<rparr>"

abbreviation r_run :: "recv_ctx \<Rightarrow> r_event list \<Rightarrow> receiver" where
  "r_run c evs \<equiv> run (r_step c) r_init evs"

end
