(* ===== verification/ReceiverInv.thy ===== *)
theory ReceiverInv
  imports Receiver "HOL-Library.Sublist"
begin

section \<open>The protocol a receiver keeps\<close>

text \<open>
  What a receiver does outwardly follows a small protocol, stated here without phases, queues
  or cryptography: \<open>views\<close> relates a list of outputs to the view of the current file it leaves.
  \<open>receiver_inv\<close> says that the outputs of the receiver keep that protocol, with the view its
  state stands for (\<open>view_of\<close>); what the protocol promises of acknowledgements is then proved
  on \<open>views\<close> alone.
\<close>

subsection \<open>The abstract protocol\<close>

text \<open>
  \<open>Await f i\<close>: chunk \<open>i\<close> of file \<open>f\<close> is next. \<open>Given f i l\<close>: \<open>onChunk\<close> was called with chunk \<open>i\<close> and
  has not returned. \<open>Dropped f i\<close>: the same, but the file was abandoned meanwhile. \<open>Acked f\<close>: the
  last chunk was acknowledged.
\<close>

datatype r_view = No_file | Await string nat | Given string nat bool | Dropped string nat | Acked string

definition ack_out :: "string \<Rightarrow> nat \<Rightarrow> r_out" where
  "ack_out f i = Sent (env_frame (Chunk_ack f (int i)))"

definition cancel_out :: "string \<Rightarrow> r_out" where
  "cancel_out f = Sent (env_frame (File_abort f None))"

definition between :: "r_view \<Rightarrow> bool" where
  "between v \<longleftrightarrow> v = No_file \<or> (\<exists>f i. v = Await f i)"

inductive view_step :: "r_view \<Rightarrow> r_out option \<Rightarrow> r_view \<Rightarrow> bool" where
  vs_start: "between v \<Longrightarrow> view_step v (Some (Call (OnFileStart f n s m))) (Await f 0)"
| vs_bad_meta: "between v \<Longrightarrow> view_step v (Some (Call (OnError Type_error))) (Await f 0)"
| vs_chunk: "view_step (Await f i) (Some (Call (OnChunk f i l pt))) (Given f i l)"
| vs_ack: "view_step (Given f i False) (Some (ack_out f i)) (Await f (Suc i))"
| vs_ack_closed: "view_step (Given f i False) None (Await f (Suc i))"
| vs_ack_last: "view_step (Given f i True) (Some (ack_out f i)) (Acked f)"
| vs_ack_last_closed: "view_step (Given f i True) None (Acked f)"
| vs_complete: "view_step (Acked f) (Some (Call (OnFileComplete f))) No_file"
| vs_late_ack: "view_step (Dropped f i) (Some (ack_out f i)) No_file"
| vs_late_closed: "view_step (Dropped f i) None No_file"
| vs_error: "between v \<Longrightarrow> view_step v (Some (Call (OnError e))) v"
| vs_rejected: "view_step (Given f i l) (Some (Call (OnError e))) (Await f i)"
| vs_rejected_late: "view_step (Dropped f i) (Some (Call (OnError e))) No_file"
| vs_cancel: "view_step (Await f i) (Some (cancel_out f)) (Await f i)"
| vs_cancel_given: "view_step (Given f i l) (Some (cancel_out f)) (Given f i l)"
| vs_aborted: "view_step (Await f i) (Some (Call (OnAborted f r))) No_file"
| vs_aborted_given: "view_step (Given f i l) (Some (Call (OnAborted f r))) (Dropped f i)"
| vs_lost: "view_step (Await f i) (Some (Call (OnError r_lost))) No_file"
| vs_lost_given: "view_step (Given f i l) (Some (Call (OnError r_lost))) (Dropped f i)"

inductive views :: "r_out list \<Rightarrow> r_view \<Rightarrow> bool" where
  views_Nil: "views [] No_file"
| views_out: "views L v \<Longrightarrow> view_step v (Some x) w \<Longrightarrow> views (L @ [x]) w"
| views_tau: "views L v \<Longrightarrow> view_step v None w \<Longrightarrow> views L w"

lemma between_simps [simp]:
  "between No_file" "between (Await f i)" "\<not> between (Given f i l)" "\<not> between (Dropped f i)"
  "\<not> between (Acked f)"
  by (simp_all add: between_def)

lemma outs_distinct [simp]:
  "ack_out f i \<noteq> Call c" "Call c \<noteq> ack_out f i" "cancel_out f \<noteq> Call c" "Call c \<noteq> cancel_out f"
  "cancel_out f \<noteq> ack_out g i" "ack_out g i \<noteq> cancel_out f"
  "ack_out f i = ack_out g j \<longleftrightarrow> f = g \<and> i = j"
  by (auto simp: ack_out_def cancel_out_def env_frame_inj)

text \<open>Each output as a rule on \<open>views\<close>.\<close>

lemma views_between:
  "views L v \<Longrightarrow> between v \<Longrightarrow> views (L @ [Call (OnFileStart f n s m)]) (Await f 0)"
  "views L v \<Longrightarrow> between v \<Longrightarrow> views (L @ [Call (OnError Type_error)]) (Await f 0)"
  "views L v \<Longrightarrow> between v \<Longrightarrow> views (L @ [Call (OnError e)]) v"
  by (blast intro: views_out vs_start vs_bad_meta vs_error)+

lemmas views_await =
  vs_chunk [THEN [2] views_out] vs_cancel [THEN [2] views_out] vs_aborted [THEN [2] views_out]
  vs_lost [THEN [2] views_out]

lemmas views_given =
  vs_ack [THEN [2] views_out] vs_ack_closed [THEN [2] views_tau]
  vs_ack_last [THEN [2] views_out] vs_ack_last_closed [THEN [2] views_tau] vs_complete [THEN [2] views_out]
  vs_rejected [THEN [2] views_out] vs_cancel_given [THEN [2] views_out]
  vs_aborted_given [THEN [2] views_out] vs_lost_given [THEN [2] views_out]

lemmas views_dropped =
  vs_late_ack [THEN [2] views_out] vs_late_closed [THEN [2] views_tau] vs_rejected_late [THEN [2] views_out]

inductive_cases ack_stepE: "view_step v (Some (ack_out f i)) w"
inductive_cases complete_stepE: "view_step v (Some (Call (OnFileComplete f))) w"

subsection \<open>What the protocol promises\<close>

text \<open>The indices \<open>onChunk\<close> was called with for file \<open>f\<close>, in order.\<close>

fun given_index :: "string \<Rightarrow> r_out \<Rightarrow> nat list" where
  "given_index f (Call (OnChunk g i l pt)) = (if g = f then [i] else [])"
| "given_index f _ = []"

definition given :: "string \<Rightarrow> r_out list \<Rightarrow> nat list" where
  "given f L = concat (map (given_index f) L)"

lemma given_simps [simp]: "given f [] = []" "given f (L @ M) = given f L @ given f M"
  "given f [x] = given_index f x"
  by (simp_all add: given_def)

definition given_upto :: "string \<Rightarrow> nat \<Rightarrow> r_out list \<Rightarrow> bool" where
  "given_upto f n L \<longleftrightarrow> subseq [0..<n] (given f L)"

lemma given_upto_0 [simp]: "given_upto f 0 L"
  by (simp add: given_upto_def)

lemma given_upto_more: "given_upto f n L \<Longrightarrow> given_upto f n (L @ M)"
  unfolding given_upto_def by (simp add: subseq_rev_drop_many)

lemma given_upto_chunk: "given_upto f n L \<Longrightarrow> given_upto f (Suc n) (L @ [Call (OnChunk f n l pt)])"
  unfolding given_upto_def by (simp add: list_emb_append_mono)

lemma given_upto_less: "given_upto f (Suc n) L \<Longrightarrow> given_upto f n L"
  unfolding given_upto_def by (metis subseq_order.order_trans list_emb_append2 list_emb_refl upt_Suc_append
      le0 subseq_rev_drop_many subseq_order.order_refl)

definition given_last :: "string \<Rightarrow> r_out list \<Rightarrow> bool" where
  "given_last f L \<longleftrightarrow> (\<exists>n pt. given_upto f (Suc n) L \<and> Call (OnChunk f n True pt) \<in> set L)"

lemma given_last_more: "given_last f L \<Longrightarrow> given_last f (L @ M)"
  unfolding given_last_def by (metis given_upto_more Un_iff set_append)

definition hist :: "r_out list \<Rightarrow> r_view \<Rightarrow> bool" where
  "hist L v = (case v of
     No_file \<Rightarrow> True
   | Await f n \<Rightarrow> given_upto f n L
   | Given f n l \<Rightarrow> given_upto f (Suc n) L \<and> (\<exists>pt. Call (OnChunk f n l pt) \<in> set L)
   | Dropped f n \<Rightarrow> given_upto f (Suc n) L
   | Acked f \<Rightarrow> given_last f L)"

lemma hist_out: "hist L v \<Longrightarrow> view_step v (Some x) w \<Longrightarrow> hist (L @ [x]) w"
  by (erule view_step.cases)
    (auto simp: hist_def between_def given_last_def intro: given_upto_more given_upto_chunk
      given_upto_more [OF given_upto_less])

lemma hist_tau: "hist L v \<Longrightarrow> view_step v None w \<Longrightarrow> hist L w"
  by (erule view_step.cases) (auto simp: hist_def given_last_def)

lemma views_hist: "views L v \<Longrightarrow> hist L v"
  by (induction rule: views.induct) (auto simp: hist_def [of "[]"] intro: hist_out hist_tau)

text \<open>Every acknowledgement comes after the calls of \<open>onChunk\<close> for all chunks up to it, and every
  completion after the call for the chunk marked as the last.\<close>

definition acks_ok :: "r_out list \<Rightarrow> bool" where
  "acks_ok L \<longleftrightarrow>
     (\<forall>pre f i post. L = pre @ ack_out f i # post \<longrightarrow> given_upto f (Suc i) pre) \<and>
     (\<forall>pre f post. L = pre @ Call (OnFileComplete f) # post \<longrightarrow> given_last f pre)"

lemma acks_ok_snoc:
  assumes "acks_ok L" "\<And>f i. x = ack_out f i \<Longrightarrow> given_upto f (Suc i) L"
    "\<And>f. x = Call (OnFileComplete f) \<Longrightarrow> given_last f L"
  shows "acks_ok (L @ [x])"
  unfolding acks_ok_def
proof (intro conjI allI impI)
  fix pre f i post
  assume "L @ [x] = pre @ ack_out f i # post"
  then show "given_upto f (Suc i) pre"
    using assms(1,2) by (cases post rule: rev_cases) (auto simp: acks_ok_def)
next
  fix pre f post
  assume "L @ [x] = pre @ Call (OnFileComplete f) # post"
  then show "given_last f pre"
    using assms(1,3) by (cases post rule: rev_cases) (auto simp: acks_ok_def)
qed

lemma views_acks_ok: "views L v \<Longrightarrow> acks_ok L"
proof (induction rule: views.induct)
  case views_Nil
  then show ?case by (simp add: acks_ok_def)
next
  case (views_out L v x w)
  then show ?case
    using views_hist [OF views_out.hyps(1)]
    by (intro acks_ok_snoc) (auto elim!: ack_stepE complete_stepE simp: hist_def)
qed

subsection \<open>The receiver keeps the protocol\<close>

definition view_of :: "receiver \<Rightarrow> r_view" where
  "view_of r = (case r_phase r of
     Chunk_handling fr i \<Rightarrow>
       (case r_current r of None \<Rightarrow> Dropped (toHex (cf_fileId fr)) i
        | Some _ \<Rightarrow> Given (toHex (cf_fileId fr)) i (cf_isLast fr))
   | _ \<Rightarrow> (case r_current r of None \<Rightarrow> No_file
           | Some cur \<Rightarrow> Await (rf_fileIdHex cur) (rf_expectedIndex cur)))"

text \<open>The file a parked chunk step is about is still the current one, unless it was abandoned.\<close>

definition parked_ok :: "receiver \<Rightarrow> bool" where
  "parked_ok r \<longleftrightarrow> (case r_phase r of
     Chunk_decrypting fr key \<Rightarrow>
       (\<forall>cur. r_current r = Some cur \<longrightarrow> rf_fileIdHex cur = toHex (cf_fileId fr) \<and>
          int (rf_expectedIndex cur) = cf_index fr \<and> rf_fileKey cur = key)
   | Chunk_handling fr i \<Rightarrow>
       (\<forall>cur. r_current r = Some cur \<longrightarrow> rf_fileIdHex cur = toHex (cf_fileId fr) \<and> rf_expectedIndex cur = i)
   | _ \<Rightarrow> True)"

definition r_ok :: "receiver \<Rightarrow> bool" where
  "r_ok r \<longleftrightarrow> parked_ok r \<and> views (r_log r) (view_of r)"

definition receiver_inv :: "receiver \<Rightarrow> bool" where
  "receiver_inv r \<longleftrightarrow> r_ok r \<and> (r_phase r = Idle \<longrightarrow> r_queue r = [])"

lemma r_ok_queue [simp]: "r_ok (r\<lparr>r_queue := q\<rparr>) = r_ok r"
  by (cases "r_phase r") (simp_all add: r_ok_def parked_ok_def view_of_def)

definition r_quiet :: "receiver \<Rightarrow> bool" where
  "r_quiet r \<longleftrightarrow> (case r_phase r of Chunk_decrypting _ _ \<Rightarrow> False | Chunk_handling _ _ \<Rightarrow> False | _ \<Rightarrow> True)"

definition between_of :: "receiver \<Rightarrow> r_view" where
  "between_of r = (case r_current r of None \<Rightarrow> No_file
     | Some cur \<Rightarrow> Await (rf_fileIdHex cur) (rf_expectedIndex cur))"

lemma between_between_of [simp]: "between (between_of r)"
  by (simp add: between_of_def split: option.split)

lemma view_of_between: "(\<forall>fr i. r_phase r \<noteq> Chunk_handling fr i) \<Longrightarrow> view_of r = between_of r"
  by (auto simp: view_of_def between_of_def split: r_phase.split)

lemma r_okI_quiet: "r_quiet r \<Longrightarrow> views (r_log r) (between_of r) \<Longrightarrow> r_ok r"
  by (auto simp: r_ok_def parked_ok_def r_quiet_def view_of_between split: r_phase.splits)

lemma r_quiet_done [simp]: "r_quiet (r_done r)"
  by (simp add: r_quiet_def r_done_def)

lemma r_helper_simps [simp]:
  "r_current (r_done r) = r_current r" "r_log (r_done r) = r_log r" "r_phase (r_done r) = Idle"
  "r_open (r_done r) = r_open r" "r_queue (r_done r) = r_queue r" "r_attached (r_done r) = r_attached r"
  "r_current (r_call cl r) = r_current r" "r_log (r_call cl r) = r_log r @ [Call cl]"
  "r_phase (r_call cl r) = r_phase r" "r_open (r_call cl r) = r_open r" "r_queue (r_call cl r) = r_queue r"
  "r_attached (r_call cl r) = r_attached r"
  "r_current (r_send env r) = r_current r" "r_phase (r_send env r) = r_phase r"
  "r_open (r_send env r) = r_open r" "r_queue (r_send env r) = r_queue r" "r_attached (r_send env r) = r_attached r"
  by (simp_all add: r_done_def r_call_def r_send_def)

lemma r_fail_simps [simp]:
  "r_current (r_fail e r) = r_current r" "r_log (r_fail e r) = r_log r @ [Call (OnError e)]"
  "r_phase (r_fail e r) = Idle" "r_queue (r_fail e r) = r_queue r" "r_open (r_fail e r) = r_open r"
  "r_attached (r_fail e r) = r_attached r" "r_quiet (r_fail e r)"
  by (simp_all add: r_fail_def)

lemma between_of_simps [simp]:
  "between_of (r_fail e r) = between_of r" "between_of (r_done r) = between_of r"
  "between_of (r_call cl r) = between_of r" "between_of (r_send env r) = between_of r"
  "between_of (r\<lparr>r_phase := p\<rparr>) = between_of r" "between_of (r\<lparr>r_current := None\<rparr>) = No_file"
  "between_of (r\<lparr>r_current := Some cur\<rparr>) = Await (rf_fileIdHex cur) (rf_expectedIndex cur)"
  "between_of (r\<lparr>r_open := b\<rparr>) = between_of r"
  by (simp_all add: between_of_def)

lemma r_fail_ok: "views (r_log r) (between_of r) \<Longrightarrow> r_ok (r_fail e r)"
  by (rule r_okI_quiet) (auto intro: views_between(3))

lemma r_done_ok: "views (r_log r) (between_of r) \<Longrightarrow> r_ok (r_done r)"
  by (rule r_okI_quiet) simp_all

lemma r_ok_views: "r_ok r \<Longrightarrow> (\<forall>fr i. r_phase r \<noteq> Chunk_handling fr i) \<Longrightarrow> views (r_log r) (between_of r)"
  by (simp add: r_ok_def view_of_between)

lemma meta_start_ok: "r_ok r \<Longrightarrow> r_phase r = Idle \<Longrightarrow> r_ok (meta_start p r)"
  by (auto simp: meta_start_def r_quiet_def intro!: r_fail_ok r_okI_quiet dest: r_ok_views split: option.split)

lemma abort_start_ok:
  assumes "r_ok r" "r_phase r = Idle"
  shows "r_ok (abort_start p r)"
proof (cases "r_current r")
  case None
  then show ?thesis using assms by (auto simp: abort_start_def intro!: r_done_ok dest: r_ok_views)
next
  case (Some cur)
  have v: "views (r_log r) (between_of r)" using assms by (simp add: r_ok_views)
  then have "views (r_log r @ [Call (OnAborted (rf_fileIdHex cur) reason)]) No_file" for reason
    using Some by (auto simp: between_of_def intro: views_await)
  then show ?thesis
    using Some v by (auto simp: abort_start_def intro!: r_fail_ok r_done_ok split: option.split)
qed

lemma chunk_start_ok:
  assumes "r_ok r" "r_phase r = Idle"
  shows "r_ok (chunk_start b r)"
proof -
  have v: "views (r_log r) (between_of r)" using assms by (simp add: r_ok_views)
  show ?thesis
  proof (cases "parseChunkFrame b")
    case None
    then show ?thesis using v by (simp add: chunk_start_def r_done_ok)
  next
    case (Some fr)
    then show ?thesis
      using v by (auto simp: chunk_start_def intro!: r_done_ok r_fail_ok split: option.split)
        (auto simp: r_ok_def parked_ok_def view_of_def between_of_def)
  qed
qed

lemma r_start_ok: "r_ok r \<Longrightarrow> r_phase r = Idle \<Longrightarrow> r_ok (r_start t r)"
  by (cases t) (simp_all add: meta_start_ok abort_start_ok chunk_start_ok)

lemma drain_inv: "r_ok r \<Longrightarrow> receiver_inv (drain ts r)"
  by (induction ts arbitrary: r) (auto simp: receiver_inv_def r_start_ok)

lemma meta_derived_ok: "views (r_log r) (between_of r) \<Longrightarrow> r_ok (meta_derived c f ct r)"
  by (auto simp: meta_derived_def r_quiet_def intro!: r_fail_ok r_okI_quiet split: sum.split)

lemma meta_decrypted_ok:
  assumes v: "views (r_log r) (between_of r)"
  shows "r_ok (meta_decrypted c f key ct r)"
proof -
  let ?cur = "\<lparr>rf_fileIdHex = f, rf_fileKey = key, rf_expectedIndex = 0\<rparr>"
  have "views (r_log r @ [Call (OnError Type_error)]) (Await f 0)"
    "views (r_log r @ [Call (OnFileStart f n s m)]) (Await f 0)" for n s m
    by (intro views_between [OF v] between_between_of)+
  then show ?thesis
    using v by (auto simp: meta_decrypted_def Let_def r_quiet_def intro!: r_okI_quiet
        views_between(3) [OF v between_between_of] split: sum.split)
qed

lemma chunk_decrypted_ok:
  assumes ok: "r_ok r" and p: "r_phase r = Chunk_decrypting fr key"
  shows "r_ok (chunk_decrypted c fr key r)"
proof -
  have v: "views (r_log r) (between_of r)" using ok p by (simp add: r_ok_views)
  show ?thesis
  proof (cases "r_current r")
    case None
    then show ?thesis using v by (auto simp: chunk_decrypted_def intro!: r_fail_ok split: sum.split)
  next
    case (Some cur)
    have "rf_fileIdHex cur = toHex (cf_fileId fr)" using ok p Some by (simp add: r_ok_def parked_ok_def)
    then have "views (r_log r @ [Call (OnChunk (toHex (cf_fileId fr)) (rf_expectedIndex cur) (cf_isLast fr) pt)])
        (Given (toHex (cf_fileId fr)) (rf_expectedIndex cur) (cf_isLast fr))" for pt
      using v Some by (auto simp: between_of_def intro: views_await)
    then show ?thesis
      using v Some \<open>rf_fileIdHex cur = _\<close>
      by (auto simp: chunk_decrypted_def Let_def intro!: r_fail_ok split: sum.split)
        (auto simp: r_ok_def parked_ok_def view_of_def)
  qed
qed

lemma chunk_handled_ok:
  assumes ok: "r_ok r" and p: "r_phase r = Chunk_handling fr i"
  shows "r_ok (chunk_handled fr i r)"
proof (cases "r_current r")
  case None
  then have v: "views (r_log r) (Dropped (toHex (cf_fileId fr)) i)"
    using ok p by (simp add: r_ok_def view_of_def)
  then have "views (r_log (r_send (Chunk_ack (toHex (cf_fileId fr)) (int i)) r)) No_file"
    using views_dropped unfolding r_send_def ack_out_def by auto
  then show ?thesis
    using None by (auto simp: chunk_handled_def Let_def between_of_def intro!: r_fail_ok)
next
  case (Some cur)
  let ?f = "toHex (cf_fileId fr)"
  have v: "views (r_log r) (Given ?f i (cf_isLast fr))"
    and cur: "rf_fileIdHex cur = ?f" "rf_expectedIndex cur = i"
    using ok p Some by (simp_all add: r_ok_def view_of_def parked_ok_def)
  have a: "views (r_log (r_send (Chunk_ack ?f (int i)) r)) (if cf_isLast fr then Acked ?f else Await ?f (Suc i))"
    using v views_given(1-4) unfolding r_send_def ack_out_def by (auto split: if_splits)
  show ?thesis
  proof (cases "cf_isLast fr")
    case True
    then have "views (r_log (r_send (Chunk_ack ?f (int i)) r) @ [Call (OnFileComplete ?f)]) No_file"
      using a by (auto intro: views_given)
    then show ?thesis using True Some by (auto simp: chunk_handled_def Let_def intro!: r_done_ok)
  next
    case False
    then show ?thesis using a Some cur by (auto simp: chunk_handled_def Let_def intro!: r_done_ok)
  qed
qed

lemma r_resume_ok:
  assumes "r_ok r"
  shows "r_ok (r_resume c r)"
proof (cases "r_phase r")
  case (Meta_deriving f ct)
  then show ?thesis using assms by (simp add: r_resume_def meta_derived_ok r_ok_views)
next
  case (Meta_decrypting f key ct)
  then show ?thesis using assms by (simp add: r_resume_def meta_decrypted_ok r_ok_views)
next
  case Meta_starting
  then show ?thesis using assms by (simp add: r_resume_def r_done_ok r_ok_views)
next
  case (Chunk_decrypting fr key)
  then show ?thesis using assms by (simp add: r_resume_def chunk_decrypted_ok)
next
  case (Chunk_handling fr i)
  then show ?thesis using assms by (simp add: r_resume_def chunk_handled_ok)
qed (use assms in \<open>simp add: r_resume_def\<close>)

lemma r_rejected_ok:
  assumes ok: "r_ok r"
  shows "r_ok (r_rejected e r)"
proof (cases "r_phase r")
  case Meta_starting
  then show ?thesis using assms by (simp add: r_rejected_def r_fail_ok r_ok_views)
next
  case (Chunk_handling fr i)
  then have "views (r_log r @ [Call (OnError e)]) (between_of r)"
    using ok views_given(6) [where e = e] views_dropped(3) [where e = e]
    by (auto simp: r_ok_def view_of_def between_of_def parked_ok_def split: option.splits)
  then show ?thesis using Chunk_handling by (auto simp: r_rejected_def intro!: r_okI_quiet)
qed (use assms in \<open>simp_all add: r_rejected_def\<close>)

text \<open>Abandoning the current file from outside the chain: the parked step stays.\<close>

definition abandoned :: "receiver \<Rightarrow> bool \<Rightarrow> r_out list \<Rightarrow> receiver" where
  "abandoned r opn outs = r\<lparr>r_current := None, r_open := opn, r_log := r_log r @ outs\<rparr>"

lemma abandon_ok:
  assumes ok: "r_ok r" and cur: "r_current r = Some cur"
    and await: "\<And>f i. views (r_log r) (Await f i) \<Longrightarrow> f = rf_fileIdHex cur \<Longrightarrow> views (r_log r @ outs) No_file"
    and gvn: "\<And>f i l. views (r_log r) (Given f i l) \<Longrightarrow> f = rf_fileIdHex cur \<Longrightarrow> views (r_log r @ outs) (Dropped f i)"
  shows "r_ok (abandoned r opn outs)"
proof (cases "r_phase r")
  case (Chunk_handling fr i)
  then show ?thesis
    using ok cur gvn by (auto simp: r_ok_def parked_ok_def view_of_def abandoned_def)
qed (use ok cur await in \<open>auto simp: r_ok_def parked_ok_def view_of_def abandoned_def\<close>)

lemma r_ok_open [simp]: "r_ok (r\<lparr>r_open := b\<rparr>) = r_ok r" "r_ok (r\<lparr>r_attached := b\<rparr>) = r_ok r"
  by (cases "r_phase r"; simp add: r_ok_def parked_ok_def view_of_def)+

lemma r_onClose_ok:
  assumes ok: "r_ok r"
  shows "r_ok (r_onClose (r\<lparr>r_open := False\<rparr>))"
proof (cases "r_current r")
  case None
  then show ?thesis using ok by (simp add: r_onClose_def)
next
  case (Some cur)
  have "r_onClose (r\<lparr>r_open := False\<rparr>) = abandoned r False [Call (OnError r_lost)]"
    using Some by (simp add: r_onClose_def abandoned_def r_call_def)
  moreover have "r_ok (abandoned r False [Call (OnError r_lost)])"
    by (rule abandon_ok [OF ok Some]) (auto intro: views_await views_given)
  ultimately show ?thesis by simp
qed

lemma abortCurrent_ok:
  assumes ok: "r_ok r"
  shows "r_ok (abortCurrent r)"
proof (cases "r_current r")
  case None
  then show ?thesis using ok by (simp add: abortCurrent_def)
next
  case (Some cur)
  let ?f = "rf_fileIdHex cur"
  let ?outs = "(if r_open r then [cancel_out ?f] else []) @ [Call (OnAborted ?f None)]"
  have "abortCurrent r = abandoned r (r_open r) ?outs"
    using Some by (simp add: abortCurrent_def abandoned_def r_call_def r_send_def cancel_out_def)
  moreover have "r_ok (abandoned r (r_open r) ?outs)"
  proof (rule abandon_ok [OF ok Some])
    fix f i
    assume "views (r_log r) (Await f i)" "f = ?f"
    then show "views (r_log r @ ?outs) No_file"
      using views_await(2,3) by (cases "r_open r") (simp_all, metis append_Cons append_Nil append_assoc)
  next
    fix f i l
    assume "views (r_log r) (Given f i l)" "f = ?f"
    then show "views (r_log r @ ?outs) (Dropped f i)"
      using views_given(7,8) by (cases "r_open r") (simp_all, metis append_Cons append_Nil append_assoc)
  qed
  ultimately show ?thesis by simp
qed

lemma abortCurrent_frame [simp]:
  "r_phase (abortCurrent r) = r_phase r" "r_queue (abortCurrent r) = r_queue r"
  by (simp_all add: abortCurrent_def split: option.split)

lemma r_onClose_frame [simp]:
  "r_phase (r_onClose r) = r_phase r" "r_queue (r_onClose r) = r_queue r"
  by (simp_all add: r_onClose_def split: option.split)

lemma r_step_inv: "receiver_inv r \<Longrightarrow> receiver_inv (r_step c r e)"
proof (cases e)
  case (R_frame fr)
  assume "receiver_inv r"
  then show ?thesis using R_frame drain_inv [of r] by (simp add: receiver_inv_def [of r])
next
  case R_settle
  assume "receiver_inv r"
  then show ?thesis using R_settle by (simp add: receiver_inv_def [of r] drain_inv r_resume_ok)
next
  case (R_reject err)
  assume "receiver_inv r"
  then show ?thesis using R_reject by (simp add: receiver_inv_def [of r] drain_inv r_rejected_ok)
next
  case R_close
  assume "receiver_inv r"
  then show ?thesis using R_close by (simp add: receiver_inv_def Let_def r_onClose_ok)
next
  case R_abortCurrent
  assume "receiver_inv r"
  then show ?thesis using R_abortCurrent by (simp add: receiver_inv_def abortCurrent_ok)
next
  case R_detach
  assume "receiver_inv r"
  then show ?thesis using R_detach by (simp add: receiver_inv_def)
qed

lemma r_init_inv: "receiver_inv r_init"
  by (simp add: receiver_inv_def r_init_def r_ok_def parked_ok_def view_of_def views_Nil)

interpretation receiving: event_machine "\<lambda>_. True" "\<lambda>_. r_init" r_step "\<lambda>_. receiver_inv"
  by unfold_locales (simp_all add: r_init_inv r_step_inv)

lemma receiver_views: "views (r_log (r_run c evs)) (view_of (r_run c evs))"
  using receiving.reach_inv [of c evs] by (simp add: receiver_inv_def r_ok_def)

end
