(* ===== verification/Sender.thy ===== *)
theory Sender
  imports Wire Crypto
begin

section \<open>Sending one file (sendFile of web/transfer.js)\<close>

text \<open>
  \<open>sendFile\<close> is an async function with three listeners. Between two \<open>await\<close>s it runs without
  interruption, so its state is where it is parked (\<open>s_phase\<close>), its local variables, and what
  the socket has accepted so far; one event is one step. \<open>Settle\<close> is the fulfilment of the
  platform promise the function is waiting for (key derivation, encryption, reading a slice
  of the file), \<open>Read_fail\<close> the rejection of the read, \<open>Message\<close>, \<open>Closed\<close> and \<open>Signal_abort\<close> the
  events its listeners are registered for. The resolver a waiting loop has put into
  \<open>ackWaiters\<close> is called by \<open>wakeWaiters\<close>, and the code after its \<open>await\<close> runs before any other
  event: \<open>s_wake\<close> is that continuation. A frame sent on a closed socket is discarded, as
  \<open>WebSocket.send\<close> does.
\<close>

record js_file =
  f_name :: string
  f_type :: string
  f_content :: bytes

definition f_size :: "js_file \<Rightarrow> nat" where
  "f_size f = length (f_content f)"

definition CHUNK_SIZE :: nat where "CHUNK_SIZE = 256 * 1024"
definition WINDOW_SIZE :: int where "WINDOW_SIZE = 8"

record send_ctx =
  sc_wc :: webcrypto
  sc_epochKey :: bytes
  sc_file :: js_file
  sc_fileId :: bytes

text \<open>
  \<open>ackedUpTo\<close> holds whatever the last acknowledgement carried, and is only ever compared with
  numbers. An \<open>ack_number\<close> is that value converted to a number: \<open>Some (m, d)\<close> is the decimal
  fraction \<open>m / 10 ^ d\<close>, \<open>None\<close> is \<open>NaN\<close>, for which every comparison is false. A field that is
  missing is \<open>undefined\<close>, so \<open>NaN\<close>; of the texts that convert to a number the decimal ones are
  modelled, and \<open>Infinity\<close>, \<open>0x10\<close>, \<open>0o7\<close> and \<open>0b1\<close> are left as \<open>NaN\<close>.
\<close>

type_synonym ack_number = "(int \<times> nat) option"

abbreviation ack_int :: "int \<Rightarrow> ack_number" where
  "ack_int a \<equiv> Some (a, 0)"

definition ack_less :: "ack_number \<Rightarrow> int \<Rightarrow> bool" where
  "ack_less v k = (case v of None \<Rightarrow> False | Some (m, d) \<Rightarrow> m < k * 10 ^ d)"

definition ack_atmost :: "ack_number \<Rightarrow> int \<Rightarrow> bool" where
  "ack_atmost v k = (case v of None \<Rightarrow> False | Some (m, d) \<Rightarrow> m \<le> k * 10 ^ d)"

definition exponent :: "string \<Rightarrow> int option" where
  "exponent r =
     (if r = [] then Some 0
      else if hd r \<notin> {CHR ''e'', CHR ''E''} then None
      else let neg = (tl r \<noteq> [] \<and> hd (tl r) = CHR ''-'');
               ds = (if tl r \<noteq> [] \<and> hd (tl r) \<in> {CHR ''+'', CHR ''-''} then tl (tl r) else tl r)
           in if ds = [] \<or> \<not> list_all is_digit ds then None
              else Some (if neg then - int (dec_value ds) else int (dec_value ds)))"

definition decimal :: "string \<Rightarrow> ack_number" where
  "decimal s =
     (let neg = (s \<noteq> [] \<and> hd s = CHR ''-'');
          u = (if s \<noteq> [] \<and> hd s \<in> {CHR ''+'', CHR ''-''} then tl s else s);
          ip = takeWhile is_digit u;
          r = dropWhile is_digit u;
          dot = (r \<noteq> [] \<and> hd r = CHR ''.'');
          fp = (if dot then takeWhile is_digit (tl r) else []);
          v = (if neg then - int (dec_value (ip @ fp)) else int (dec_value (ip @ fp)))
      in if ip @ fp = [] then None
         else case exponent (if dot then dropWhile is_digit (tl r) else r) of
           None \<Rightarrow> None
         | Some e \<Rightarrow> Some (v * 10 ^ nat e, length fp + nat (- e)))"

definition text_number :: "string \<Rightarrow> ack_number" where
  "text_number s =
     (let t = rev (dropWhile is_js_space (rev (dropWhile is_js_space s)))
      in if t = [] then ack_int 0 else decimal t)"

fun js_number :: "json \<Rightarrow> ack_number" where
  "js_number JNull = ack_int 0"
| "js_number (JBool b) = ack_int (if b then 1 else 0)"
| "js_number (JInt i) = ack_int i"
| "js_number (JDec t) = decimal t"
| "js_number (JStr s) = text_number s"
| "js_number (JArr []) = ack_int 0"
| "js_number (JArr [v]) = (case v of JBool _ \<Rightarrow> None | _ \<Rightarrow> js_number v)"
| "js_number (JArr (_ # _ # _)) = None"
| "js_number (JObj _) = None"

definition odd_number :: "json option \<Rightarrow> ack_number" where
  "odd_number v = (case v of None \<Rightarrow> None | Some j \<Rightarrow> js_number j)"

lemma ack_compare [simp]:
  "ack_less (ack_int a) k \<longleftrightarrow> a < k" "ack_atmost (ack_int a) k \<longleftrightarrow> a \<le> k"
  "\<not> ack_less None k" "\<not> ack_atmost None k"
  by (simp_all add: ack_less_def ack_atmost_def)

datatype abort_by = By_us | By_peer "string option"

datatype s_phase =
    Deriving
  | Enc_meta
  | Wait_window nat
  | Reading nat
  | Encrypting nat bytes
  | Wait_final
  | Settled "unit res"

record sender =
  s_phase :: s_phase
  s_fileKey :: bytes
  s_ackedUpTo :: ack_number
  s_connectionLost :: bool
  s_aborted :: "abort_by option"
  s_open :: bool
  s_out :: "frame list"
  s_progress :: "(nat \<times> nat) list"

datatype s_event = Settle | Read_fail | Message frame | Closed | Signal_abort

subsection \<open>The pieces of the transfer\<close>

definition fileIdHex :: "send_ctx \<Rightarrow> string" where
  "fileIdHex c = toHex (sc_fileId c)"

definition totalChunks :: "js_file \<Rightarrow> nat" where
  "totalChunks f = max 1 ((f_size f + CHUNK_SIZE - 1) div CHUNK_SIZE)"

definition metaPlaintext :: "js_file \<Rightarrow> bytes" where
  "metaPlaintext f = utf8_encode (stringify (JObj
     [(''name'', JStr (f_name f)), (''size'', JInt (int (f_size f))),
      (''mime'', JStr (if f_type f = [] then ''application/octet-stream'' else f_type f))]))"

text \<open>\<open>file.slice(start, end)\<close> with \<open>start = index * CHUNK_SIZE\<close>.\<close>

definition chunk_end :: "js_file \<Rightarrow> nat \<Rightarrow> nat" where
  "chunk_end f index = min (index * CHUNK_SIZE + CHUNK_SIZE) (f_size f)"

definition chunk_plaintext :: "js_file \<Rightarrow> nat \<Rightarrow> bytes" where
  "chunk_plaintext f index = slice (index * CHUNK_SIZE) (chunk_end f index) (f_content f)"

definition isLast_chunk :: "js_file \<Rightarrow> nat \<Rightarrow> bool" where
  "isLast_chunk f index \<longleftrightarrow> index = totalChunks f - 1"

definition abort_frame :: "send_ctx \<Rightarrow> frame" where
  "abort_frame c = env_frame (File_abort (fileIdHex c) None)"

definition s_send :: "frame \<Rightarrow> sender \<Rightarrow> sender" where
  "s_send fr s = (if s_open s then s\<lparr>s_out := s_out s @ [fr]\<rparr> else s)"

subsection \<open>The body\<close>

text \<open>The \<open>catch\<close> and \<open>finally\<close> blocks: tell the receiver unless it knows already.\<close>

definition s_throw :: "send_ctx \<Rightarrow> js_error \<Rightarrow> sender \<Rightarrow> sender" where
  "s_throw c err s =
     (let isAbort = (case err of Abort_error _ \<Rightarrow> True | _ \<Rightarrow> False);
          s1 = (if \<not> isAbort \<and> \<not> s_connectionLost s then s_send (abort_frame c) s else s)
      in s1\<lparr>s_phase := Settled (Inl err)\<rparr>)"

definition s_finish :: "send_ctx \<Rightarrow> sender \<Rightarrow> sender" where
  "s_finish c s = (case s_aborted s of
     None \<Rightarrow> s\<lparr>s_phase := Settled (Inr ())\<rparr>
   | Some By_us \<Rightarrow> s_throw c (Abort_error None) (s_send (abort_frame c) s)
   | Some (By_peer r) \<Rightarrow> s_throw c (Abort_error (if r = Some [] then None else r)) s)"

definition s_final :: "send_ctx \<Rightarrow> sender \<Rightarrow> sender" where
  "s_final c s =
     (if s_aborted s = None \<and> ack_less (s_ackedUpTo s) (int (totalChunks (sc_file c)) - 1)
      then s\<lparr>s_phase := Wait_final\<rparr> else s_finish c s)"

text \<open>
  The head of the \<open>for\<close> loop with counter \<open>index\<close>, up to the next \<open>await\<close>. The window is full when
  \<open>index - 1 - ackedUpTo >= WINDOW_SIZE\<close>, that is, \<open>ackedUpTo\<close> is a number of at most
  \<open>index - 1 - WINDOW_SIZE\<close>.
\<close>

definition s_loop :: "send_ctx \<Rightarrow> nat \<Rightarrow> sender \<Rightarrow> sender" where
  "s_loop c index s =
     (if index < totalChunks (sc_file c) then
        (if ack_atmost (s_ackedUpTo s) (int index - 1 - WINDOW_SIZE) then s\<lparr>s_phase := Wait_window index\<rparr>
         else if s_aborted s \<noteq> None then s_final c s
         else s\<lparr>s_phase := Reading index\<rparr>)
      else s_final c s)"

definition connection_lost :: js_error where
  "connection_lost = Error_msg ''connection_lost''"

definition s_wake :: "send_ctx \<Rightarrow> sender \<Rightarrow> sender" where
  "s_wake c s = (case s_phase s of
     Wait_window index \<Rightarrow>
       if s_connectionLost s then s_throw c connection_lost s
       else if s_aborted s \<noteq> None then s_final c s
       else s_loop c index s
   | Wait_final \<Rightarrow>
       if s_connectionLost s then s_throw c connection_lost s else s_final c s
   | _ \<Rightarrow> s)"

definition s_settle :: "send_ctx \<Rightarrow> sender \<Rightarrow> sender" where
  "s_settle c s = (case s_phase s of
     Deriving \<Rightarrow>
       (case deriveFileKey (sc_wc c) (sc_epochKey c) (sc_fileId c) of
          Inl e \<Rightarrow> s\<lparr>s_phase := Settled (Inl e)\<rparr>
        | Inr k \<Rightarrow> s\<lparr>s_fileKey := k, s_phase := Enc_meta\<rparr>)
   | Enc_meta \<Rightarrow>
       (case encryptChunk (sc_wc c) (s_fileKey s) (sc_fileId c) METADATA_CHUNK_INDEX True
               (metaPlaintext (sc_file c)) of
          Inl e \<Rightarrow> s\<lparr>s_phase := Settled (Inl e)\<rparr>
        | Inr ct \<Rightarrow> s_loop c 0 (s_send (env_frame (File_meta (fileIdHex c) (toHex ct))) s))
   | Reading index \<Rightarrow> s\<lparr>s_phase := Encrypting index (chunk_plaintext (sc_file c) index)\<rparr>
   | Encrypting index plaintext \<Rightarrow>
       (let isLast = isLast_chunk (sc_file c) index in
        case encryptChunk (sc_wc c) (s_fileKey s) (sc_fileId c) (int index) isLast plaintext of
          Inl e \<Rightarrow> s_throw c e s
        | Inr ct \<Rightarrow>
            let s1 = s_send (Binary (buildChunkFrame (sc_fileId c) (int index) isLast ct)) s;
                s2 = s1\<lparr>s_progress := s_progress s1 @
                           [(chunk_end (sc_file c) index, f_size (sc_file c))]\<rparr>
            in s_loop c (Suc index) s2)
   | _ \<Rightarrow> s)"

definition s_readFail :: "send_ctx \<Rightarrow> sender \<Rightarrow> sender" where
  "s_readFail c s = (case s_phase s of Reading _ \<Rightarrow> s_throw c Read_error s | _ \<Rightarrow> s)"

subsection \<open>The listeners\<close>

definition s_onMessage :: "send_ctx \<Rightarrow> frame \<Rightarrow> sender \<Rightarrow> sender" where
  "s_onMessage c fr s = (case parseEnvelope fr of
     Some (Chunk_ack f a) \<Rightarrow>
       if f = fileIdHex c then s_wake c (s\<lparr>s_ackedUpTo := ack_int a\<rparr>) else s
   | Some (Odd_ack f v) \<Rightarrow>
       if f = fileIdHex c then s_wake c (s\<lparr>s_ackedUpTo := odd_number v\<rparr>) else s
   | Some (File_abort f r) \<Rightarrow>
       if f = fileIdHex c then s_wake c (s\<lparr>s_aborted := Some (By_peer r)\<rparr>) else s
   | _ \<Rightarrow> s)"

definition s_onClose :: "send_ctx \<Rightarrow> sender \<Rightarrow> sender" where
  "s_onClose c s = s_wake c (s\<lparr>s_connectionLost := True\<rparr>)"

definition s_onSignalAbort :: "send_ctx \<Rightarrow> sender \<Rightarrow> sender" where
  "s_onSignalAbort c s = s_wake c (s\<lparr>s_aborted := Some By_us\<rparr>)"

text \<open>The listeners are added after \<open>file_meta\<close> was sent and removed in \<open>finally\<close>.\<close>

definition s_listening :: "sender \<Rightarrow> bool" where
  "s_listening s = (case s_phase s of Deriving \<Rightarrow> False | Enc_meta \<Rightarrow> False | Settled _ \<Rightarrow> False | _ \<Rightarrow> True)"

fun s_step :: "send_ctx \<Rightarrow> sender \<Rightarrow> s_event \<Rightarrow> sender" where
  "s_step c s Settle = s_settle c s"
| "s_step c s Read_fail = s_readFail c s"
| "s_step c s (Message fr) = (if s_listening s then s_onMessage c fr s else s)"
| "s_step c s Closed =
     (let s' = s\<lparr>s_open := False\<rparr> in if s_listening s then s_onClose c s' else s')"
| "s_step c s Signal_abort = (if s_listening s then s_onSignalAbort c s else s)"

definition s_init :: sender where
  "s_init = \<lparr>s_phase = Deriving, s_fileKey = [], s_ackedUpTo = ack_int (- 1), s_connectionLost = False,
             s_aborted = None, s_open = True, s_out = [], s_progress = []\<rparr>"

abbreviation s_run :: "send_ctx \<Rightarrow> s_event list \<Rightarrow> sender" where
  "s_run c evs \<equiv> run (s_step c) s_init evs"

end
