(* ===== verification/SenderInv.thy ===== *)
theory SenderInv
  imports Sender
begin

section \<open>What sendFile puts on the socket\<close>

text \<open>
  The invariant of \<open>sendFile\<close>: in every phase the frames on the socket are the encrypted
  metadata followed by the chunk frames of an initial segment of the file, in order, each the
  encryption of the slice with its index; after a failure at most one \<open>file_abort\<close> follows.
  The window invariant bounds the chunks sent beyond the highest acknowledgement received.
\<close>

subsection \<open>The frames a file consists of\<close>

definition file_key :: "send_ctx \<Rightarrow> bytes res" where
  "file_key c = deriveFileKey (sc_wc c) (sc_epochKey c) (sc_fileId c)"

definition the_key :: "send_ctx \<Rightarrow> bytes" where
  "the_key c = (case file_key c of Inr k \<Rightarrow> k | Inl _ \<Rightarrow> [])"

definition sealed_chunk :: "send_ctx \<Rightarrow> nat \<Rightarrow> bytes" where
  "sealed_chunk c i = wc_encrypt (sc_wc c) (the_key c) (chunkNonce (int i))
     (chunkAAD (sc_fileId c) (int i) (isLast_chunk (sc_file c) i)) (chunk_plaintext (sc_file c) i)"

definition chunk_frame_of :: "send_ctx \<Rightarrow> nat \<Rightarrow> frame" where
  "chunk_frame_of c i = Binary (buildChunkFrame (sc_fileId c) (int i) (isLast_chunk (sc_file c) i)
     (sealed_chunk c i))"

definition sealed_meta :: "send_ctx \<Rightarrow> bytes" where
  "sealed_meta c = wc_encrypt (sc_wc c) (the_key c) (chunkNonce METADATA_CHUNK_INDEX)
     (chunkAAD (sc_fileId c) METADATA_CHUNK_INDEX True) (metaPlaintext (sc_file c))"

definition meta_frame :: "send_ctx \<Rightarrow> frame" where
  "meta_frame c = env_frame (File_meta (fileIdHex c) (toHex (sealed_meta c)))"

definition frames_upto :: "send_ctx \<Rightarrow> nat \<Rightarrow> frame list" where
  "frames_upto c k = meta_frame c # map (chunk_frame_of c) [0..<k]"

lemma frames_upto_Suc: "frames_upto c (Suc k) = frames_upto c k @ [chunk_frame_of c k]"
  by (simp add: frames_upto_def)

abbreviation total :: "send_ctx \<Rightarrow> nat" where
  "total c \<equiv> totalChunks (sc_file c)"

lemma total_pos [simp]: "0 < total c"
  by (simp add: totalChunks_def)

text \<open>The frames of a transfer that has sent \<open>k\<close> chunks; a closed socket has taken a prefix.\<close>

definition legal :: "send_ctx \<Rightarrow> nat \<Rightarrow> bool \<Rightarrow> frame list \<Rightarrow> bool" where
  "legal c k opn out \<longleftrightarrow>
     (if opn then out = frames_upto c k
      else out = [] \<or> (\<exists>j \<le> k. out = frames_upto c j))"

lemma legal_close: "legal c k opn out \<Longrightarrow> legal c k False out"
  by (auto simp: legal_def split: if_splits)

lemma legal_send_chunk:
  "legal c k (s_open s) (s_out s) \<Longrightarrow>
   legal c (Suc k) (s_open s) (s_out (s_send (chunk_frame_of c k) s))"
  by (auto simp: legal_def s_send_def frames_upto_Suc intro: le_SucI split: if_splits)

lemma legal_send_meta:
  "s_out s = [] \<Longrightarrow> legal c 0 (s_open s) (s_out (s_send (meta_frame c) s))"
  by (simp add: legal_def s_send_def frames_upto_def)

lemma s_send_simps [simp]:
  "s_open (s_send fr s) = s_open s" "s_phase (s_send fr s) = s_phase s"
  "s_fileKey (s_send fr s) = s_fileKey s" "s_ackedUpTo (s_send fr s) = s_ackedUpTo s"
  "s_connectionLost (s_send fr s) = s_connectionLost s" "s_aborted (s_send fr s) = s_aborted s"
  by (simp_all add: s_send_def)

subsection \<open>The invariant\<close>

definition is_abort :: "js_error \<Rightarrow> bool" where
  "is_abort e = (case e of Abort_error _ \<Rightarrow> True | _ \<Rightarrow> False)"

lemma is_abort_simps [simp]:
  "is_abort (Abort_error r)" "\<not> is_abort connection_lost" "\<not> is_abort Read_error"
  by (simp_all add: is_abort_def connection_lost_def)

text \<open>
  How the promise of a failed transfer ended: before anything was sent, or after some chunks
  with at most one \<open>file_abort\<close>. On a socket that is still open, exactly one is sent unless
  the receiver cancelled the transfer itself.
\<close>

definition told_peer :: "send_ctx \<Rightarrow> sender \<Rightarrow> js_error \<Rightarrow> frame list \<Rightarrow> bool" where
  "told_peer c s e tail \<longleftrightarrow>
     (tail = [] \<or> tail = [abort_frame c]) \<and>
     (s_open s \<longrightarrow> tail = (if is_abort e \<and> s_aborted s \<noteq> Some By_us then [] else [abort_frame c])) \<and>
     (is_abort e \<longrightarrow> s_aborted s \<noteq> None)"

definition settled_ok :: "send_ctx \<Rightarrow> sender \<Rightarrow> unit res \<Rightarrow> bool" where
  "settled_ok c s r = (case r of
     Inr _ \<Rightarrow> legal c (total c) (s_open s) (s_out s) \<and> s_aborted s = None \<and>
              \<not> ack_less (s_ackedUpTo s) (int (total c) - 1) \<and> file_key c = Inr (s_fileKey s)
   | Inl e \<Rightarrow>
       (s_out s = [] \<and> file_key c = Inl e) \<or>
       (\<exists>pre tail k opn. k \<le> total c \<and> legal c k opn pre \<and> s_out s = pre @ tail \<and>
          (s_open s \<longrightarrow> opn) \<and> told_peer c s e tail))"

definition sender_inv :: "send_ctx \<Rightarrow> sender \<Rightarrow> bool" where
  "sender_inv c s \<longleftrightarrow> (s_connectionLost s \<longrightarrow> \<not> s_open s) \<and> (case s_phase s of
     Deriving \<Rightarrow> s_out s = []
   | Enc_meta \<Rightarrow> s_out s = [] \<and> file_key c = Inr (s_fileKey s) \<and> s_aborted s = None
   | Wait_window i \<Rightarrow> i < total c \<and> file_key c = Inr (s_fileKey s) \<and> legal c i (s_open s) (s_out s)
   | Reading i \<Rightarrow> i < total c \<and> file_key c = Inr (s_fileKey s) \<and> legal c i (s_open s) (s_out s)
   | Encrypting i pt \<Rightarrow> i < total c \<and> file_key c = Inr (s_fileKey s) \<and>
       legal c i (s_open s) (s_out s) \<and> pt = chunk_plaintext (sc_file c) i
   | Wait_final \<Rightarrow> file_key c = Inr (s_fileKey s) \<and> legal c (total c) (s_open s) (s_out s)
   | Settled r \<Rightarrow> settled_ok c s r) \<and>
   (s_phase s = Deriving \<longrightarrow> s_aborted s = None)"

text \<open>The state a loop head works on: \<open>k\<close> chunks sent, nothing settled.\<close>

definition loop_inv :: "send_ctx \<Rightarrow> nat \<Rightarrow> sender \<Rightarrow> bool" where
  "loop_inv c k s \<longleftrightarrow> (s_connectionLost s \<longrightarrow> \<not> s_open s) \<and> k \<le> total c \<and>
     file_key c = Inr (s_fileKey s) \<and> legal c k (s_open s) (s_out s)"

lemma settled_failI:
  assumes "k \<le> total c" "legal c k (s_open s) pre" "s_out s = pre @ tail" "told_peer c s e tail"
  shows "settled_ok c s (Inl e)"
  using assms unfolding settled_ok_def by fastforce

lemma sender_inv_SettledI:
  "(s_connectionLost s \<longrightarrow> \<not> s_open s) \<Longrightarrow> s_phase s = Settled r \<Longrightarrow> settled_ok c s r \<Longrightarrow> sender_inv c s"
  by (simp add: sender_inv_def)

lemma s_throw_abort: "s_throw c (Abort_error r) s = s\<lparr>s_phase := Settled (Inl (Abort_error r))\<rparr>"
  by (simp add: s_throw_def)

lemma s_throw_other:
  "\<not> is_abort e \<Longrightarrow> s_throw c e s =
     (if s_connectionLost s then s else s_send (abort_frame c) s)\<lparr>s_phase := Settled (Inl e)\<rparr>"
  by (simp add: s_throw_def is_abort_def split: js_error.splits)

lemma s_send_out: "s_out (s_send fr s) = s_out s @ (if s_open s then [fr] else [])"
  by (simp add: s_send_def)

lemma s_throw_inv:
  assumes loop: "loop_inv c k s" and e: "\<not> is_abort e"
  shows "sender_inv c (s_throw c e s)"
proof (rule sender_inv_SettledI)
  let ?t = "s_throw c e s"
  let ?tail = "if s_connectionLost s \<or> \<not> s_open s then [] else [abort_frame c]"
  show "s_connectionLost ?t \<longrightarrow> \<not> s_open ?t"
    using loop by (simp add: s_throw_other [OF e] loop_inv_def)
  show "s_phase ?t = Settled (Inl e)" by (simp add: s_throw_other [OF e])
  show "settled_ok c ?t (Inl e)"
  proof (rule settled_failI)
    show "k \<le> total c" "legal c k (s_open ?t) (s_out s)"
      using loop by (auto simp: s_throw_other [OF e] loop_inv_def)
    show "s_out ?t = s_out s @ ?tail" by (simp add: s_throw_other [OF e] s_send_out)
    show "told_peer c ?t e ?tail"
      using e loop by (auto simp: told_peer_def s_throw_other loop_inv_def)
  qed
qed

lemma s_finish_aborted_inv:
  assumes loop: "loop_inv c k s" and a: "s_aborted s = Some a"
  shows "sender_inv c (s_finish c s)"
proof -
  let ?t = "s_finish c s"
  let ?r = "case a of By_us \<Rightarrow> None | By_peer r \<Rightarrow> if r = Some [] then None else r"
  let ?tail = "if a = By_us \<and> s_open s then [abort_frame c] else []"
  have t: "?t = (if a = By_us then s_send (abort_frame c) s else s)\<lparr>s_phase := Settled (Inl (Abort_error ?r))\<rparr>"
    using a by (cases a) (simp_all add: s_finish_def s_throw_abort)
  show ?thesis
  proof (rule sender_inv_SettledI)
    show "s_connectionLost ?t \<longrightarrow> \<not> s_open ?t" using loop by (simp add: t loop_inv_def)
    show "s_phase ?t = Settled (Inl (Abort_error ?r))" by (simp add: t)
    show "settled_ok c ?t (Inl (Abort_error ?r))"
    proof (rule settled_failI)
      show "k \<le> total c" "legal c k (s_open ?t) (s_out s)" using loop by (simp_all add: t loop_inv_def)
      show "s_out ?t = s_out s @ ?tail" by (simp add: t s_send_out)
      show "told_peer c ?t (Abort_error ?r) ?tail" using a by (simp add: told_peer_def t)
    qed
  qed
qed

lemma s_finish_inv:
  assumes "loop_inv c k s"
    and "s_aborted s = None \<Longrightarrow> k = total c \<and> \<not> ack_less (s_ackedUpTo s) (int (total c) - 1)"
  shows "sender_inv c (s_finish c s)"
proof (cases "s_aborted s")
  case None
  with assms show ?thesis by (auto simp: s_finish_def sender_inv_def settled_ok_def loop_inv_def)
next
  case (Some a)
  with assms(1) show ?thesis by (rule s_finish_aborted_inv)
qed

lemma s_final_inv:
  assumes "loop_inv c k s" and "s_aborted s = None \<Longrightarrow> k = total c"
  shows "sender_inv c (s_final c s)"
proof (cases "s_aborted s = None \<and> ack_less (s_ackedUpTo s) (int (totalChunks (sc_file c)) - 1)")
  case True
  with assms show ?thesis by (auto simp: s_final_def sender_inv_def loop_inv_def)
next
  case False
  then have "s_final c s = s_finish c s" unfolding s_final_def by (rule if_not_P)
  then show ?thesis using s_finish_inv [OF assms(1)] assms(2) False by auto
qed

lemma s_loop_inv:
  assumes "loop_inv c k s"
  shows "sender_inv c (s_loop c k s)"
proof (cases "k < total c \<and> (ack_atmost (s_ackedUpTo s) (int k - 1 - WINDOW_SIZE) \<or> s_aborted s = None)")
  case True
  with assms show ?thesis by (auto simp: s_loop_def sender_inv_def loop_inv_def)
next
  case False
  then have "s_loop c k s = s_final c s" by (auto simp: s_loop_def)
  moreover have "s_aborted s = None \<Longrightarrow> k = total c" using False assms by (auto simp: loop_inv_def)
  ultimately show ?thesis using s_final_inv [OF assms] by simp
qed

subsection \<open>Every event keeps the invariant\<close>

lemma waiting_loop_inv:
  "sender_inv c s \<Longrightarrow> s_phase s = Wait_window i \<Longrightarrow> loop_inv c i s"
  "sender_inv c s \<Longrightarrow> s_phase s = Reading i \<Longrightarrow> loop_inv c i s"
  "sender_inv c s \<Longrightarrow> s_phase s = Encrypting i pt \<Longrightarrow> loop_inv c i s"
  "sender_inv c s \<Longrightarrow> s_phase s = Wait_final \<Longrightarrow> loop_inv c (total c) s"
  by (simp_all add: sender_inv_def loop_inv_def)

text \<open>Waking up after a listener has set its variable, from a state that differs from an
  invariant one in \<open>ackedUpTo\<close>, \<open>connectionLost\<close>, \<open>aborted\<close> and \<open>open\<close> only.\<close>

definition woken :: "send_ctx \<Rightarrow> sender \<Rightarrow> bool" where
  "woken c s \<longleftrightarrow> (s_connectionLost s \<longrightarrow> \<not> s_open s) \<and> file_key c = Inr (s_fileKey s) \<and>
     (case s_phase s of
        Wait_window i \<Rightarrow> i < total c \<and> legal c i (s_open s) (s_out s)
      | Reading i \<Rightarrow> i < total c \<and> legal c i (s_open s) (s_out s)
      | Encrypting i pt \<Rightarrow> i < total c \<and> legal c i (s_open s) (s_out s) \<and>
          pt = chunk_plaintext (sc_file c) i
      | Wait_final \<Rightarrow> legal c (total c) (s_open s) (s_out s)
      | _ \<Rightarrow> False)"

lemma listening_woken: "sender_inv c s \<Longrightarrow> s_listening s \<Longrightarrow> woken c s"
  by (auto simp: sender_inv_def woken_def s_listening_def split: s_phase.splits)

lemma s_wake_inv:
  assumes "woken c s"
  shows "sender_inv c (s_wake c s)"
proof (cases "s_phase s")
  case (Wait_window i)
  then have "loop_inv c i s" using assms by (simp add: woken_def loop_inv_def)
  then show ?thesis
    using s_loop_inv [of c i s] s_final_inv [of c i s] s_throw_inv [of c i s connection_lost] Wait_window
    by (auto simp: s_wake_def)
next
  case Wait_final
  then have "loop_inv c (total c) s" using assms by (simp add: woken_def loop_inv_def)
  then show ?thesis
    using s_final_inv [of c "total c" s] s_throw_inv [of c "total c" s connection_lost] Wait_final
    by (simp add: s_wake_def)
qed (use assms in \<open>auto simp: woken_def s_wake_def sender_inv_def\<close>)

lemma s_onMessage_inv: "woken c s \<Longrightarrow> sender_inv c s \<Longrightarrow> sender_inv c (s_onMessage c fr s)"
  unfolding s_onMessage_def
  by (auto split: option.splits envelope.splits intro!: s_wake_inv simp: woken_def split: s_phase.splits)

lemma s_onClose_inv:
  assumes "woken c s"
  shows "sender_inv c (s_onClose c (s\<lparr>s_open := False\<rparr>))"
  unfolding s_onClose_def
  using assms by (intro s_wake_inv) (auto simp: woken_def legal_close split: s_phase.splits)

lemma s_onSignalAbort_inv: "woken c s \<Longrightarrow> sender_inv c (s_onSignalAbort c s)"
  unfolding s_onSignalAbort_def by (intro s_wake_inv) (auto simp: woken_def split: s_phase.splits)

lemma told_peer_close: "told_peer c s e tail \<Longrightarrow> told_peer c (s\<lparr>s_open := False\<rparr>) e tail"
  by (auto simp: told_peer_def)

lemma settled_close: "settled_ok c s r \<Longrightarrow> settled_ok c (s\<lparr>s_open := False\<rparr>) r"
  unfolding settled_ok_def
  by (cases r) (auto dest: told_peer_close intro: legal_close)

lemma encrypted_chunk:
  assumes "file_key c = Inr (s_fileKey s)"
    and "encryptChunk (sc_wc c) (s_fileKey s) (sc_fileId c) (int i) (isLast_chunk (sc_file c) i)
           (chunk_plaintext (sc_file c) i) = Inr ct"
  shows "Binary (buildChunkFrame (sc_fileId c) (int i) (isLast_chunk (sc_file c) i) ct) = chunk_frame_of c i"
  using assms by (simp add: chunk_frame_of_def sealed_chunk_def the_key_def encryptChunk_Inr)

lemma encrypted_meta:
  assumes "file_key c = Inr (s_fileKey s)"
    and "encryptChunk (sc_wc c) (s_fileKey s) (sc_fileId c) METADATA_CHUNK_INDEX True
           (metaPlaintext (sc_file c)) = Inr ct"
  shows "env_frame (File_meta (fileIdHex c) (toHex ct)) = meta_frame c"
  using assms by (simp add: meta_frame_def sealed_meta_def the_key_def encryptChunk_Inr)

lemma encryptChunk_error: "encryptChunk wc k f i l pt = Inl e \<Longrightarrow> \<not> is_abort e"
  by (auto simp: encryptChunk_def importAesKey_def assertLength_def is_abort_def split: if_splits)

lemma s_settle_inv:
  assumes inv: "sender_inv c s" and lawful: "webcrypto_lawful (sc_wc c)"
  shows "sender_inv c (s_settle c s)"
proof (cases "s_phase s")
  case Deriving
  then show ?thesis
    using inv by (auto simp: s_settle_def sender_inv_def settled_ok_def file_key_def split: sum.splits)
next
  case Enc_meta
  then have key: "file_key c = Inr (s_fileKey s)" and out: "s_out s = []"
    and lost: "s_connectionLost s \<longrightarrow> \<not> s_open s" using inv by (simp_all add: sender_inv_def)
  have k: "deriveFileKey (sc_wc c) (sc_epochKey c) (sc_fileId c) = Inr (s_fileKey s)"
    using key by (simp only: file_key_def)
  have "length (sc_fileId c) = 16" using k by (simp only: deriveFileKey_Inr)
  moreover have "length (s_fileKey s) = 32" by (rule deriveFileKey_length [OF lawful k])
  ultimately obtain ct where ct: "encryptChunk (sc_wc c) (s_fileKey s) (sc_fileId c) METADATA_CHUNK_INDEX True
      (metaPlaintext (sc_file c)) = Inr ct" using aes.seal_total by blast
  have "loop_inv c 0 (s_send (meta_frame c) s)"
    using key lost legal_send_meta [OF out] by (simp add: loop_inv_def)
  then show ?thesis
    using Enc_meta by (simp add: s_settle_def ct encrypted_meta [OF key ct] s_loop_inv)
next
  case (Reading i)
  then show ?thesis using inv by (simp add: s_settle_def sender_inv_def)
next
  case (Encrypting i pt)
  then have loop: "loop_inv c i s" and i: "i < total c" and pt: "pt = chunk_plaintext (sc_file c) i"
    using inv by (simp_all add: sender_inv_def loop_inv_def)
  show ?thesis
  proof (cases "encryptChunk (sc_wc c) (s_fileKey s) (sc_fileId c) (int i) (isLast_chunk (sc_file c) i) pt")
    case (Inl e)
    then show ?thesis
      using Encrypting s_throw_inv [OF loop encryptChunk_error [OF Inl]] by (simp add: s_settle_def)
  next
    case (Inr ct)
    have key: "file_key c = Inr (s_fileKey s)" using loop by (simp add: loop_inv_def)
    let ?t = "s_send (chunk_frame_of c i) s"
    let ?t' = "?t\<lparr>s_progress := s_progress ?t @ [(chunk_end (sc_file c) i, f_size (sc_file c))]\<rparr>"
    have "loop_inv c (Suc i) ?t'"
      using loop i legal_send_chunk by (simp add: loop_inv_def)
    then show ?thesis
      using Encrypting Inr by (simp add: s_settle_def Let_def encrypted_chunk [OF key Inr [unfolded pt]] s_loop_inv)
  qed
qed (use inv in \<open>simp_all add: s_settle_def\<close>)

lemma s_step_inv:
  assumes inv: "sender_inv c s" and lawful: "webcrypto_lawful (sc_wc c)"
  shows "sender_inv c (s_step c s e)"
proof (cases e)
  case Settle
  then show ?thesis using s_settle_inv [OF inv lawful] by simp
next
  case Read_fail
  have "sender_inv c (s_throw c Read_error s)" if "s_phase s = Reading i" for i
    using waiting_loop_inv(2) [OF inv that] by (intro s_throw_inv) simp_all
  then show ?thesis using Read_fail inv by (simp add: s_readFail_def split: s_phase.splits)
next
  case (Message fr)
  then show ?thesis using inv listening_woken [OF inv] s_onMessage_inv by simp
next
  case Closed
  have "sender_inv c (s\<lparr>s_open := False\<rparr>)" if "\<not> s_listening s"
    using that inv settled_close by (auto simp: s_listening_def sender_inv_def split: s_phase.splits)
  then show ?thesis using Closed listening_woken [OF inv] s_onClose_inv by (simp add: Let_def)
next
  case Signal_abort
  then show ?thesis using inv listening_woken [OF inv] s_onSignalAbort_inv by simp
qed

abbreviation send_ok :: "send_ctx \<Rightarrow> bool" where
  "send_ok c \<equiv> webcrypto_lawful (sc_wc c)"

lemma s_init_inv: "sender_inv c s_init"
  by (simp add: sender_inv_def s_init_def)

interpretation sending: event_machine send_ok "\<lambda>_. s_init" s_step sender_inv
  by unfold_locales (simp_all add: s_init_inv s_step_inv)

subsection \<open>The window\<close>

text \<open>The acknowledgement an event carries, and the highest one of a run; -1 when there is none.\<close>

definition ack_in :: "send_ctx \<Rightarrow> s_event \<Rightarrow> int" where
  "ack_in c e = (case e of
     Message fr \<Rightarrow> (case parseEnvelope fr of
       Some (Chunk_ack f a) \<Rightarrow> if f = fileIdHex c then a else - 1
     | _ \<Rightarrow> - 1)
   | _ \<Rightarrow> - 1)"

definition highest_ack :: "send_ctx \<Rightarrow> s_event list \<Rightarrow> int" where
  "highest_ack c evs = foldl (\<lambda>m e. max m (ack_in c e)) (- 1) evs"

fun is_Binary :: "frame \<Rightarrow> bool" where
  "is_Binary (Binary _) = True"
| "is_Binary (Text _) = False"

definition chunks_in :: "frame list \<Rightarrow> nat" where
  "chunks_in out = length (filter is_Binary out)"

lemma chunks_in_append [simp]: "chunks_in (xs @ ys) = chunks_in xs + chunks_in ys"
  by (simp add: chunks_in_def)

lemma chunks_in_simps [simp]:
  "chunks_in [] = 0" "chunks_in (env_frame e # xs) = chunks_in xs"
  "chunks_in (Binary b # xs) = Suc (chunks_in xs)"
  by (simp_all add: chunks_in_def env_frame_def)

lemma chunks_in_frames_upto [simp]: "chunks_in (frames_upto c k) = k"
  by (simp add: frames_upto_def meta_frame_def chunks_in_def env_frame_def chunk_frame_of_def
      filter_map comp_def)

lemma chunks_in_legal: "legal c k opn out \<Longrightarrow> chunks_in out \<le> k"
  by (auto simp: legal_def split: if_splits)

lemma chunks_in_s_send_env [simp]:
  "chunks_in (s_out (s_send (env_frame e) s)) = chunks_in (s_out s)"
  by (simp add: s_send_out)

text \<open>No acknowledgement of this file without an integer.\<close>

definition integer_acks :: "send_ctx \<Rightarrow> s_event list \<Rightarrow> bool" where
  "integer_acks c evs \<longleftrightarrow>
     (\<forall>fr v. Message fr \<in> set evs \<longrightarrow> parseEnvelope fr \<noteq> Some (Odd_ack (fileIdHex c) v))"

definition acked_upto :: "int \<Rightarrow> ack_number \<Rightarrow> bool" where
  "acked_upto m v \<longleftrightarrow> (\<exists>a \<le> m. v = ack_int a)"

lemma acked_upto_int [simp]: "acked_upto m (ack_int a) \<longleftrightarrow> a \<le> m"
  by (auto simp: acked_upto_def)

lemma acked_upto_mono: "acked_upto m v \<Longrightarrow> m \<le> m' \<Longrightarrow> acked_upto m' v"
  by (auto simp: acked_upto_def)

definition in_window :: "int \<Rightarrow> sender \<Rightarrow> bool" where
  "in_window m s \<longleftrightarrow> acked_upto m (s_ackedUpTo s) \<and> int (chunks_in (s_out s)) - 1 - m \<le> WINDOW_SIZE \<and>
     (case s_phase s of
        Reading i \<Rightarrow> int i - 1 - m < WINDOW_SIZE
      | Encrypting i _ \<Rightarrow> int i - 1 - m < WINDOW_SIZE
      | _ \<Rightarrow> True)"

text \<open>What the loop needs of the window, whatever the phase it came from.\<close>

definition pre_window :: "int \<Rightarrow> sender \<Rightarrow> bool" where
  "pre_window m s \<longleftrightarrow> acked_upto m (s_ackedUpTo s) \<and> int (chunks_in (s_out s)) - 1 - m \<le> WINDOW_SIZE"

lemma s_throw_window: "pre_window m s \<Longrightarrow> in_window m (s_throw c e s)"
  by (simp add: s_throw_def pre_window_def in_window_def Let_def abort_frame_def)

lemma pre_window_abort: "pre_window m s \<Longrightarrow> pre_window m (s_send (abort_frame c) s)"
  by (simp add: pre_window_def abort_frame_def)

lemma s_finish_window: "pre_window m s \<Longrightarrow> in_window m (s_finish c s)"
  by (auto simp: s_finish_def s_throw_window pre_window_abort split: option.splits abort_by.splits)
    (simp add: pre_window_def in_window_def)

lemma s_final_window: "pre_window m s \<Longrightarrow> in_window m (s_final c s)"
  by (simp add: s_final_def s_finish_window) (simp add: pre_window_def in_window_def)

lemma s_loop_window: "pre_window m s \<Longrightarrow> in_window m (s_loop c k s)"
  by (simp add: s_loop_def s_final_window) (auto simp: pre_window_def in_window_def acked_upto_def)

lemma in_window_pre: "in_window m s \<Longrightarrow> pre_window m s"
  by (simp add: in_window_def pre_window_def)

lemmas window_intros = s_throw_window s_final_window s_loop_window in_window_pre

lemma s_wake_window: "in_window m s \<Longrightarrow> in_window m (s_wake c s)"
  by (auto simp: s_wake_def intro: window_intros split: s_phase.splits)

lemma in_window_mono: "in_window m s \<Longrightarrow> m \<le> m' \<Longrightarrow> in_window m' s"
  by (auto simp: in_window_def acked_upto_mono split: s_phase.splits)

lemma s_settle_window:
  assumes inv: "sender_inv c s" and win: "in_window m s"
  shows "in_window m (s_settle c s)"
proof (cases "s_phase s")
  case Enc_meta
  have "pre_window m (s_send (env_frame e) s)" for e
    using win by (simp add: in_window_def pre_window_def)
  then show ?thesis
    using Enc_meta win s_loop_window
    by (auto simp: s_settle_def in_window_def split: sum.splits)
next
  case (Encrypting i pt)
  have "chunks_in (s_out s) \<le> i" using inv Encrypting by (auto simp: sender_inv_def intro: chunks_in_legal)
  then have "pre_window m ((s_send (Binary b) s)\<lparr>s_progress := p\<rparr>)" for b p
    using win Encrypting by (auto simp: in_window_def pre_window_def s_send_out)
  then show ?thesis
    using Encrypting win in_window_pre s_throw_window s_loop_window
    by (auto simp: s_settle_def Let_def split: sum.splits)
qed (use win in \<open>auto simp: s_settle_def in_window_def split: sum.splits\<close>)

lemma s_onMessage_window:
  "in_window m s \<Longrightarrow> \<forall>v. parseEnvelope fr \<noteq> Some (Odd_ack (fileIdHex c) v) \<Longrightarrow>
   in_window (max m (ack_in c (Message fr))) (s_onMessage c fr s)"
  unfolding s_onMessage_def ack_in_def
  by (auto split: option.splits envelope.splits intro!: s_wake_window intro: in_window_mono)
    (auto simp: in_window_def elim: acked_upto_mono split: s_phase.splits)

lemma s_step_window:
  assumes inv: "sender_inv c s" and win: "in_window m s" and ints: "integer_acks c [e]"
  shows "in_window (max m (ack_in c e)) (s_step c s e)"
proof (cases e)
  case Settle
  then show ?thesis using s_settle_window [OF inv win] in_window_mono by (simp add: max.coboundedI1)
next
  case Read_fail
  have "in_window m (s_readFail c s)"
    using win in_window_pre s_throw_window by (auto simp: s_readFail_def split: s_phase.splits)
  then show ?thesis using Read_fail in_window_mono by (simp add: max.coboundedI1)
next
  case (Message fr)
  then show ?thesis
    using ints s_onMessage_window [OF win] in_window_mono [OF win] by (simp add: integer_acks_def)
next
  case Closed
  have "in_window m (s\<lparr>s_open := False\<rparr>)" "in_window m (s\<lparr>s_open := False, s_connectionLost := True\<rparr>)"
    using win by (simp_all add: in_window_def)
  then show ?thesis
    using Closed s_wake_window in_window_mono by (simp add: Let_def s_onClose_def max.coboundedI1)
next
  case Signal_abort
  have "in_window m (s\<lparr>s_aborted := Some By_us\<rparr>)" using win by (simp add: in_window_def)
  then show ?thesis
    using Signal_abort win s_wake_window in_window_mono by (simp add: s_onSignalAbort_def max.coboundedI1)
qed

lemma run_window:
  assumes ok: "send_ok c" and "sender_inv c s" and "in_window m s" and "integer_acks c evs"
  shows "in_window (foldl (\<lambda>m e. max m (ack_in c e)) m evs) (run (s_step c) s evs)"
  using assms(2-4)
proof (induction evs arbitrary: s m)
  case Nil
  then show ?case by simp
next
  case (Cons e evs)
  then have "integer_acks c [e]" "integer_acks c evs" by (simp_all add: integer_acks_def)
  then show ?case using Cons s_step_inv [OF Cons.prems(1) ok] s_step_window by simp
qed

lemma s_run_window: "send_ok c \<Longrightarrow> integer_acks c evs \<Longrightarrow> in_window (highest_ack c evs) (s_run c evs)"
  unfolding highest_ack_def
  by (rule run_window) (simp_all add: s_init_inv, simp add: s_init_def in_window_def WINDOW_SIZE_def)

end
