(* ===== verification/SenderProps.thy ===== *)
theory SenderProps
  imports SenderInv
begin

section \<open>Properties of sendFile\<close>

text \<open>
  What the invariants of theory SenderInv say about every run of \<open>sendFile\<close>, a run in which
  the receiver acknowledges every chunk and the promise therefore resolves, two runs in which a
  listener fires while the function is not parked on its waiters, and the run after an
  acknowledgement that carries no number.
\<close>

subsection \<open>Chunks of a file\<close>

lemma CHUNK_SIZE_pos [simp]: "0 < CHUNK_SIZE"
  by (simp add: CHUNK_SIZE_def)

lemma length_chunk_plaintext: "length (chunk_plaintext f i) \<le> CHUNK_SIZE"
  by (auto simp: chunk_plaintext_def slice_def chunk_end_def)

lemma chunk_plaintext_take: "chunk_plaintext f i = take CHUNK_SIZE (drop (i * CHUNK_SIZE) (f_content f))"
proof (cases "i * CHUNK_SIZE + CHUNK_SIZE \<le> f_size f")
  case True
  then show ?thesis by (simp add: chunk_plaintext_def slice_def chunk_end_def)
next
  case False
  then have "length (drop (i * CHUNK_SIZE) (f_content f)) \<le> CHUNK_SIZE"
    by (simp add: f_size_def)
  with False show ?thesis by (simp add: chunk_plaintext_def slice_def chunk_end_def f_size_def)
qed

lemma concat_chunks: "concat (map (chunk_plaintext f) [0..<k]) = take (k * CHUNK_SIZE) (f_content f)"
proof (induction k)
  case 0
  then show ?case by simp
next
  case (Suc k)
  have "take (Suc k * CHUNK_SIZE) (f_content f) = take (k * CHUNK_SIZE + CHUNK_SIZE) (f_content f)"
    by (simp add: add.commute)
  then show ?case using Suc by (simp only: take_add) (simp add: chunk_plaintext_take)
qed

lemma totalChunks_covers: "f_size f \<le> totalChunks f * CHUNK_SIZE"
proof -
  let ?q = "(f_size f + CHUNK_SIZE - 1) div CHUNK_SIZE"
  have "f_size f + CHUNK_SIZE - 1 < CHUNK_SIZE + CHUNK_SIZE * ?q"
    by (rule dividend_less_times_div) simp
  then have "f_size f \<le> ?q * CHUNK_SIZE" by (simp add: mult.commute)
  also have "\<dots> \<le> totalChunks f * CHUNK_SIZE"
    unfolding totalChunks_def by (intro mult_le_mono1 max.cobounded2)
  finally show ?thesis .
qed

lemma chunks_concat_content: "concat (map (chunk_plaintext f) [0..<totalChunks f]) = f_content f"
  using totalChunks_covers [of f] by (simp add: concat_chunks f_size_def)

text \<open>C32. The plaintexts of the chunks, in order, are the file: nothing is lost, repeated or
  reordered by the slicing, no chunk is larger than \<open>CHUNK_SIZE\<close>, and exactly the last of at
  least one chunk carries the last-chunk flag (an empty file is one empty chunk).\<close>

theorem chunks_partition_file:
  "concat (map (chunk_plaintext f) [0..<totalChunks f]) = f_content f \<and>
   (\<forall>i. length (chunk_plaintext f i) \<le> CHUNK_SIZE) \<and>
   filter (isLast_chunk f) [0..<totalChunks f] = [totalChunks f - 1]"
proof -
  have "0 < totalChunks f" by (simp add: totalChunks_def)
  then have "[0..<totalChunks f] = [0..<totalChunks f - 1] @ [totalChunks f - 1]"
    by (metis Suc_pred' upt_Suc_append le0)
  then have "filter (isLast_chunk f) [0..<totalChunks f] = [totalChunks f - 1]"
    by (simp add: isLast_chunk_def filter_empty_conv)
  then show ?thesis by (simp add: chunks_concat_content length_chunk_plaintext)
qed

subsection \<open>Every run\<close>

definition sent_shape :: "send_ctx \<Rightarrow> frame list \<Rightarrow> bool" where
  "sent_shape c out \<longleftrightarrow> out = [] \<or>
    (\<exists>k tail. k \<le> total c \<and> (tail = [] \<or> tail = [abort_frame c]) \<and>
       (out = tail \<or> out = frames_upto c k @ tail))"

lemma legal_shape_tail:
  assumes "legal c k opn out" "k \<le> total c" "tail = [] \<or> tail = [abort_frame c]"
  shows "sent_shape c (out @ tail)"
proof (cases "out = []")
  case True
  then show ?thesis using assms(3) unfolding sent_shape_def by auto
next
  case False
  then obtain j where "j \<le> k" "out = frames_upto c j" using assms(1) by (auto simp: legal_def split: if_splits)
  then show ?thesis using assms(2,3) unfolding sent_shape_def by (metis order_trans)
qed

lemma legal_shape: "legal c k opn out \<Longrightarrow> k \<le> total c \<Longrightarrow> sent_shape c out"
  using legal_shape_tail [of c k opn out "[]"] by simp

lemma sender_inv_shape:
  assumes "sender_inv c s"
  shows "sent_shape c (s_out s)"
proof (cases "s_phase s")
  case (Settled r)
  then have ok: "settled_ok c s r" using assms by (simp add: sender_inv_def)
  show ?thesis
  proof (cases r)
    case (Inl e)
    then show ?thesis
      using ok unfolding settled_ok_def told_peer_def
      by (auto intro: legal_shape_tail legal_shape) (simp add: sent_shape_def)
  next
    case (Inr u)
    then show ?thesis using ok unfolding settled_ok_def by (auto intro: legal_shape)
  qed
qed (use assms in \<open>auto simp: sender_inv_def intro: legal_shape less_imp_le\<close>,
     simp_all add: sent_shape_def)

text \<open>C8. Whatever happens (messages, acknowledgements and cancellations in any order, a dropped
  connection, a failing read), what \<open>sendFile\<close> has put on the socket is the encrypted metadata
  followed by the chunk frames 0, 1, 2, ... of the file up to some index, each the encryption of
  its slice under its own index and flag, and at most one \<open>file_abort\<close> after them.\<close>

theorem sendFile_frames_in_order:
  assumes "webcrypto_lawful (sc_wc c)"
  shows "s_out (s_run c evs) = [] \<or>
    (\<exists>k tail. k \<le> totalChunks (sc_file c) \<and> (tail = [] \<or> tail = [abort_frame c]) \<and>
       (s_out (s_run c evs) = tail \<or>
        s_out (s_run c evs) = (meta_frame c # map (chunk_frame_of c) [0..<k]) @ tail))"
  using sender_inv_shape [OF sending.reach_inv [OF assms, of evs]] by (simp only: sent_shape_def frames_upto_def)

text \<open>C9. Flow control: as long as every acknowledgement of this file carries an integer (as
  docs/PROTOCOL.md has it), whatever else happens, \<open>sendFile\<close> never has more than \<open>WINDOW_SIZE\<close>
  chunks on the socket beyond the highest acknowledgement it has received. (The code does not
  check what \<open>ackedUpTo\<close> is; theorem \<open>bare_ack_ends_flow_control\<close> shows what an acknowledgement
  without it does.)\<close>

theorem sendFile_window:
  assumes "webcrypto_lawful (sc_wc c)" and "integer_acks c evs"
  shows "int (chunks_in (s_out (s_run c evs))) - (highest_ack c evs + 1) \<le> WINDOW_SIZE"
  using s_run_window [OF assms] by (simp add: in_window_def algebra_simps)

text \<open>When the promise of \<open>sendFile\<close> is fulfilled, no chunk is known to be unacknowledged (with
  integer acknowledgements: every chunk was acknowledged), the transfer was not cancelled, and,
  unless the connection dropped meanwhile, the socket has taken the metadata and every chunk of
  the file, and nothing else.\<close>

theorem sendFile_resolves_complete:
  assumes "webcrypto_lawful (sc_wc c)" and "s_phase (s_run c evs) = Settled (Inr ())"
  shows "\<not> ack_less (s_ackedUpTo (s_run c evs)) (int (totalChunks (sc_file c)) - 1) \<and>
    s_aborted (s_run c evs) = None \<and>
    (s_open (s_run c evs) \<longrightarrow>
     s_out (s_run c evs) = meta_frame c # map (chunk_frame_of c) [0..<totalChunks (sc_file c)])"
  using sending.reach_inv [OF assms(1), of evs] assms(2)
  by (simp add: sender_inv_def settled_ok_def legal_def frames_upto_def)

text \<open>C12. When \<open>sendFile\<close> fails on a connection that is still open, either the file key could not
  be derived and nothing was sent, or the receiver is told exactly once by \<open>file_abort\<close>, unless
  it was the receiver (or the relay) that cancelled the file.\<close>

theorem sendFile_failure_notifies:
  assumes "webcrypto_lawful (sc_wc c)" and "s_phase (s_run c evs) = Settled (Inl e)"
    and "s_open (s_run c evs)"
  shows "(s_out (s_run c evs) = [] \<and> file_key c = Inl e) \<or>
    (\<exists>k \<le> totalChunks (sc_file c). s_out (s_run c evs) = frames_upto c k @
       (if is_abort e \<and> s_aborted (s_run c evs) \<noteq> Some By_us then [] else [abort_frame c]))"
  using sending.reach_inv [OF assms(1), of evs] assms(2,3)
  by (auto simp: sender_inv_def settled_ok_def told_peer_def legal_def)

subsection \<open>A cooperating receiver\<close>

definition good_ctx :: "send_ctx \<Rightarrow> bool" where
  "good_ctx c \<longleftrightarrow> webcrypto_lawful (sc_wc c) \<and> length (sc_epochKey c) = 32 \<and> length (sc_fileId c) = 16"

lemma good_ctx_key: "good_ctx c \<Longrightarrow>
    deriveFileKey (sc_wc c) (sc_epochKey c) (sc_fileId c) = Inr (the_key c) \<and> length (the_key c) = 32"
proof -
  assume good: "good_ctx c"
  let ?k = "wc_hkdf (sc_wc c) (sc_epochKey c) (sc_fileId c) FILE_INFO 256"
  have k: "deriveFileKey (sc_wc c) (sc_epochKey c) (sc_fileId c) = Inr ?k"
    using good by (simp only: deriveFileKey_Inr good_ctx_def simp_thms)
  moreover have "the_key c = ?k" by (simp only: the_key_def file_key_def k sum.case)
  moreover have "length ?k = 32"
    using good by (intro deriveFileKey_length [OF _ k]) (simp only: good_ctx_def)
  ultimately show ?thesis by simp
qed

text \<open>\<open>sendFile\<close> about to read chunk \<open>i\<close>, all earlier chunks acknowledged up to \<open>a\<close>.\<close>

definition at_read :: "send_ctx \<Rightarrow> nat \<Rightarrow> int \<Rightarrow> sender" where
  "at_read c i a = \<lparr>s_phase = Reading i, s_fileKey = the_key c, s_ackedUpTo = ack_int a,
     s_connectionLost = False, s_aborted = None, s_open = True, s_out = frames_upto c i,
     s_progress = map (\<lambda>j. (chunk_end (sc_file c) j, f_size (sc_file c))) [0..<i]\<rparr>"

lemma total_pos_ctx: "0 < total c"
  by simp

lemma start_run:
  assumes "good_ctx c"
  shows "s_run c [Settle, Settle] = at_read c 0 (- 1)"
proof -
  have k: "deriveFileKey (sc_wc c) (sc_epochKey c) (sc_fileId c) = Inr (the_key c)"
    and l: "length (the_key c) = 32" "length (sc_fileId c) = 16"
    using good_ctx_key [OF assms] assms by (simp_all add: good_ctx_def)
  have m: "encryptChunk (sc_wc c) (the_key c) (sc_fileId c) METADATA_CHUNK_INDEX True
      (metaPlaintext (sc_file c)) = Inr (sealed_meta c)"
    using l by (simp add: encryptChunk_Inr sealed_meta_def)
  show ?thesis
    using total_pos_ctx [of c]
    by (simp add: s_init_def s_settle_def k m s_loop_def s_send_def meta_frame_def at_read_def
        frames_upto_def WINDOW_SIZE_def)
qed

lemma chunk_sealed:
  assumes "good_ctx c"
  shows "encryptChunk (sc_wc c) (the_key c) (sc_fileId c) (int i) (isLast_chunk (sc_file c) i)
    (chunk_plaintext (sc_file c) i) = Inr (sealed_chunk c i)"
  using good_ctx_key [OF assms] assms by (simp add: encryptChunk_Inr sealed_chunk_def good_ctx_def)

text \<open>Reading and encrypting chunk \<open>i\<close>: the loop head for the next index, one more frame sent.\<close>

definition after_chunk :: "send_ctx \<Rightarrow> nat \<Rightarrow> int \<Rightarrow> sender" where
  "after_chunk c i a = s_loop c (Suc i) ((at_read c (Suc i) a)\<lparr>s_phase := Encrypting i (chunk_plaintext (sc_file c) i)\<rparr>)"

lemma send_chunk_run:
  assumes "good_ctx c"
  shows "run (s_step c) (at_read c i a) [Settle, Settle] = after_chunk c i a"
  by (simp add: at_read_def s_settle_def chunk_sealed [OF assms] Let_def s_send_def after_chunk_def
      frames_upto_Suc chunk_frame_of_def)

definition ack_frame :: "send_ctx \<Rightarrow> int \<Rightarrow> frame" where
  "ack_frame c a = env_frame (Chunk_ack (fileIdHex c) a)"

lemma parse_ack_frame [simp]: "parseEnvelope (ack_frame c a) = Some (Chunk_ack (fileIdHex c) a)"
  by (simp add: ack_frame_def)

lemma after_chunk_more:
  "Suc i < total c \<Longrightarrow> int i - a < WINDOW_SIZE \<Longrightarrow> after_chunk c i a = at_read c (Suc i) a"
  by (simp add: after_chunk_def s_loop_def at_read_def)

lemma acked_chunk_more:
  assumes "good_ctx c" "Suc i < total c"
  shows "run (s_step c) (at_read c i (int i - 1)) [Settle, Settle, Message (ack_frame c (int i))] =
    at_read c (Suc i) (int i)"
  using run_append [of "s_step c" "at_read c i (int i - 1)" "[Settle, Settle]" "[Message (ack_frame c (int i))]"]
    send_chunk_run [OF assms(1)] after_chunk_more [OF assms(2), of "int i - 1"]
  by (simp add: WINDOW_SIZE_def at_read_def s_listening_def s_onMessage_def s_wake_def)

lemma acked_chunk_final:
  assumes "good_ctx c" "Suc i = total c"
  shows "s_phase (run (s_step c) (at_read c i (int i - 1)) [Settle, Settle, Message (ack_frame c (int i))]) =
    Settled (Inr ())"
  using run_append [of "s_step c" "at_read c i (int i - 1)" "[Settle, Settle]" "[Message (ack_frame c (int i))]"]
    send_chunk_run [OF assms(1)] assms(2)
  by (simp add: after_chunk_def s_loop_def s_final_def at_read_def s_listening_def s_onMessage_def
      s_wake_def s_finish_def)

definition acked_chunk_events :: "send_ctx \<Rightarrow> nat \<Rightarrow> s_event list" where
  "acked_chunk_events c i = [Settle, Settle, Message (ack_frame c (int i))]"

lemma acked_chunks_run:
  assumes "good_ctx c" "k < total c"
  shows "s_run c ([Settle, Settle] @ concat (map (acked_chunk_events c) [0..<k])) =
    at_read c k (int k - 1)"
  using assms(2)
proof (induction k)
  case 0
  then show ?case using start_run [OF assms(1)] by simp
next
  case (Suc k)
  let ?evs = "[Settle, Settle] @ concat (map (acked_chunk_events c) [0..<k])"
  have IH: "s_run c ?evs = at_read c k (int k - 1)" using Suc.IH Suc.prems by (simp only: Suc_lessD)
  have step: "run (s_step c) (at_read c k (int k - 1)) (acked_chunk_events c k) = at_read c (Suc k) (int k)"
    using acked_chunk_more [OF assms(1) Suc.prems] by (simp only: acked_chunk_events_def)
  have "s_run c (?evs @ acked_chunk_events c k) = at_read c (Suc k) (int k)"
    by (simp only: run_append [of _ _ ?evs] IH step)
  then show ?case by simp
qed

lemma cooperative_run:
  assumes "good_ctx c"
  shows "s_phase (s_run c ([Settle, Settle] @ concat (map (acked_chunk_events c) [0..<total c]))) =
    Settled (Inr ())"
proof -
  obtain k where k: "total c = Suc k" using total_pos_ctx [of c] gr0_implies_Suc by blast
  let ?evs = "[Settle, Settle] @ concat (map (acked_chunk_events c) [0..<k])"
  have "s_phase (s_run c (?evs @ acked_chunk_events c k)) = Settled (Inr ())"
    using acked_chunks_run [OF assms, of k] acked_chunk_final [OF assms k [symmetric]] k
    unfolding run_append [of _ _ ?evs] by (simp only: acked_chunk_events_def lessI)
  then show ?thesis by (simp add: k)
qed

text \<open>C11. \<open>sendFile\<close> returns: for a file of any size, when the platform's promises are fulfilled
  and the receiver acknowledges each chunk, the promise is fulfilled after the metadata step
  and three events for each chunk.\<close>

theorem sendFile_terminates:
  assumes "webcrypto_lawful (sc_wc c)" "length (sc_epochKey c) = 32" "length (sc_fileId c) = 16"
  shows "s_phase (s_run c ([Settle, Settle] @
      concat (map (acked_chunk_events c) [0..<totalChunks (sc_file c)]))) = Settled (Inr ())"
  using cooperative_run assms by (simp add: good_ctx_def)

subsection \<open>Nonces\<close>

text \<open>C33. Within one transfer no AES-GCM nonce is used twice: the metadata and the chunks are
  encrypted under pairwise different nonces, for every file of fewer than \<open>2^64 - 1\<close> chunks.\<close>

theorem transfer_nonces_distinct:
  assumes "totalChunks f < 2 ^ 64"
  shows "distinct (map chunkNonce (METADATA_CHUNK_INDEX # map int [0..<totalChunks f]))"
proof -
  have small: "int i < 2 ^ 64 - 1" if "i < totalChunks f" for i
  proof -
    have "Suc i < 2 ^ 64" using that assms by (rule le_less_trans [OF Suc_leI])
    then have "int (Suc i) < int (2 ^ 64)" by (simp only: of_nat_less_iff)
    then show ?thesis by simp
  qed
  have "inj_on (\<lambda>i. chunkNonce (int i)) (set [0..<totalChunks f])"
  proof (rule inj_onI)
    fix i j
    assume "i \<in> set [0..<totalChunks f]" "j \<in> set [0..<totalChunks f]" "chunkNonce (int i) = chunkNonce (int j)"
    then show "i = j" using small [of i] small [of j] by (simp add: chunkNonce_eq)
  qed
  moreover have "chunkNonce METADATA_CHUNK_INDEX \<noteq> chunkNonce (int i)" if "i < totalChunks f" for i
    using small [OF that] by (simp add: chunkNonce_eq METADATA_CHUNK_INDEX_def)
  ultimately show ?thesis
    by (auto simp: distinct_map comp_def image_image inj_on_def) metis
qed

subsection \<open>Events between two waits\<close>

text \<open>
  The listeners only set a variable and call the resolvers that are registered at that moment;
  the waiting loops look at the variables only after a resolver was called.
\<close>

definition no_input :: "s_event list \<Rightarrow> bool" where
  "no_input evs \<longleftrightarrow> (\<forall>e \<in> set evs. e = Settle \<or> e = Read_fail)"

lemma parked_stays:
  assumes "s_phase s = Wait_final \<or> (\<exists>i. s_phase s = Wait_window i)" "no_input evs"
  shows "run (s_step c) s evs = s"
  using assms(2)
proof (induction evs)
  case Nil
  then show ?case by simp
next
  case (Cons e evs)
  have "s_step c s e = s"
    using Cons.prems assms(1) by (auto simp: no_input_def s_settle_def s_readFail_def)
  then show ?case using Cons by (simp add: no_input_def)
qed

lemma close_while_encrypting:
  assumes "good_ctx c" "Suc i = total c"
  shows "run (s_step c) (at_read c i (int i - 1)) [Settle, Closed, Settle] =
    (at_read c i (int i - 1))\<lparr>s_phase := Wait_final, s_connectionLost := True, s_open := False,
       s_progress := map (\<lambda>j. (chunk_end (sc_file c) j, f_size (sc_file c))) [0..<Suc i]\<rparr>"
  by (simp add: at_read_def s_settle_def s_listening_def s_onClose_def s_wake_def Let_def
      chunk_sealed [OF assms(1)] s_send_def s_loop_def s_final_def assms(2) [symmetric])

text \<open>A connection that drops while the last chunk is being read or encrypted leaves
  \<open>sendFile\<close> waiting for an acknowledgement that cannot come: \<open>onClose\<close> finds no waiter to wake,
  and the final loop parks without looking at \<open>connectionLost\<close>. No further fulfilment of a
  platform promise ever settles the transfer.\<close>

theorem sendFile_close_while_busy_hangs:
  assumes "webcrypto_lawful (sc_wc c)" "length (sc_epochKey c) = 32" "length (sc_fileId c) = 16"
    and "no_input evs"
  shows "let s = s_run c ([Settle, Settle] @
        concat (map (acked_chunk_events c) [0..<totalChunks (sc_file c) - 1]) @ [Settle, Closed, Settle] @ evs)
    in s_phase s = Wait_final \<and> s_connectionLost s \<and> \<not> s_open s"
proof -
  have good: "good_ctx c" using assms(1-3) by (simp add: good_ctx_def)
  obtain k where k: "total c = Suc k" using total_pos_ctx [of c] gr0_implies_Suc by blast
  let ?pre = "[Settle, Settle] @ concat (map (acked_chunk_events c) [0..<k])"
  have pre: "s_run c ?pre = at_read c k (int k - 1)" using acked_chunks_run [OF good, of k] k by simp
  have "s_run c (?pre @ [Settle, Closed, Settle] @ evs) =
      run (s_step c) (run (s_step c) (at_read c k (int k - 1)) [Settle, Closed, Settle]) evs"
    by (simp only: run_append [of _ _ ?pre] run_append [of _ _ "[Settle, Closed, Settle]"] pre)
  also have "\<dots> = run (s_step c) (at_read c k (int k - 1)) [Settle, Closed, Settle]"
    by (rule parked_stays) (simp_all only: close_while_encrypting [OF good k [symmetric]] assms(4), simp)
  finally show ?thesis
    unfolding k Let_def using close_while_encrypting [OF good k [symmetric]] by simp
qed

lemma unacked_chunks_run:
  assumes "good_ctx c" "k \<le> 7" "k < total c"
  shows "run (s_step c) (at_read c 0 (- 1)) (replicate (2 * k) Settle) = at_read c k (- 1)"
  using assms(2,3)
proof (induction k)
  case 0
  then show ?case by simp
next
  case (Suc k)
  have e: "replicate (2 * Suc k) Settle = replicate (2 * k) Settle @ [Settle, Settle]"
    by (simp add: replicate_append_same [symmetric])
  have IH: "run (s_step c) (at_read c 0 (- 1)) (replicate (2 * k) Settle) = at_read c k (- 1)"
    using Suc by simp
  have "int k - (- 1) < WINDOW_SIZE" using Suc.prems by (simp add: WINDOW_SIZE_def)
  then show ?case
    by (simp only: e run_append IH send_chunk_run [OF assms(1)] after_chunk_more [OF Suc.prems(2)])
qed

definition peer_abort :: "send_ctx \<Rightarrow> s_event" where
  "peer_abort c = Message (abort_frame c)"

lemma abort_while_filling:
  assumes "good_ctx c" "9 \<le> total c"
  shows "run (s_step c) (at_read c 7 (- 1)) [Settle, peer_abort c, Settle] =
    (at_read c 8 (- 1))\<lparr>s_phase := Wait_window 8, s_aborted := Some (By_peer None)\<rparr>"
proof -
  have "frames_upto c 8 = frames_upto c 7 @ [chunk_frame_of c 7]" using frames_upto_Suc [of c 7] by simp
  moreover have "[0..<8] = [0..<7] @ [7::nat]" by (simp add: upt_rec)
  ultimately show ?thesis
    using assms(2) chunk_sealed [OF assms(1), of 7]
    by (simp add: at_read_def s_settle_def s_listening_def peer_abort_def s_onMessage_def s_wake_def
        abort_frame_def Let_def s_send_def s_loop_def WINDOW_SIZE_def chunk_frame_of_def)
qed

text \<open>A receiver that cancels while the sender is encrypting the chunk that fills the window
  is not noticed: the window loop parks before \<open>aborted\<close> is looked at, and since a receiver
  that has cancelled acknowledges nothing more, \<open>sendFile\<close> stays there.\<close>

theorem sendFile_abort_while_busy_hangs:
  assumes "webcrypto_lawful (sc_wc c)" "length (sc_epochKey c) = 32" "length (sc_fileId c) = 16"
    and "9 \<le> totalChunks (sc_file c)" and "no_input evs"
  shows "let s = s_run c ([Settle, Settle] @ replicate 14 Settle @ [Settle, peer_abort c, Settle] @ evs)
    in s_phase s = Wait_window 8 \<and> s_aborted s = Some (By_peer None)"
proof -
  have good: "good_ctx c" using assms(1-3) by (simp add: good_ctx_def)
  have seven: "run (s_step c) (at_read c 0 (- 1)) (replicate 14 Settle) = at_read c 7 (- 1)"
    using unacked_chunks_run [OF good, of 7] assms(4) by simp
  let ?mid = "[Settle, peer_abort c, Settle]"
  have "s_run c ([Settle, Settle] @ replicate 14 Settle @ ?mid @ evs) =
      run (s_step c) (run (s_step c) (at_read c 7 (- 1)) ?mid) evs"
    by (simp only: run_append [of _ _ "[Settle, Settle]"] run_append [of _ _ "replicate 14 Settle"]
        run_append [of _ _ ?mid] start_run [OF good] seven)
  also have "\<dots> = run (s_step c) (at_read c 7 (- 1)) ?mid"
    by (rule parked_stays) (simp_all only: abort_while_filling [OF good assms(4)] assms(5), simp)
  finally show ?thesis
    unfolding Let_def using abort_while_filling [OF good assms(4)] by simp
qed

text \<open>\<open>sendFile\<close> takes over \<open>payload.ackedUpTo\<close> unchecked. After one acknowledgement without the
  field every comparison with \<open>ackedUpTo\<close> is a comparison with \<open>NaN\<close>: the window is never full and
  the final wait never entered.\<close>

definition bare_ack :: "send_ctx \<Rightarrow> s_event" where
  "bare_ack c = Message (env_frame (Odd_ack (fileIdHex c) None))"

lemma nan_chunk_run:
  assumes "good_ctx c"
  shows "run (s_step c) ((at_read c i a)\<lparr>s_ackedUpTo := None\<rparr>) [Settle, Settle] =
    (if Suc i < total c then (at_read c (Suc i) a)\<lparr>s_ackedUpTo := None\<rparr>
     else (at_read c (Suc i) a)\<lparr>s_ackedUpTo := None, s_phase := Settled (Inr ())\<rparr>)"
  by (simp add: at_read_def s_settle_def chunk_sealed [OF assms] Let_def s_send_def frames_upto_Suc
      chunk_frame_of_def s_loop_def s_final_def s_finish_def)

lemma nan_chunks_run:
  assumes "good_ctx c" "k < total c"
  shows "run (s_step c) ((at_read c 0 a)\<lparr>s_ackedUpTo := None\<rparr>) (replicate (2 * k) Settle) =
    (at_read c k a)\<lparr>s_ackedUpTo := None\<rparr>"
  using assms(2)
proof (induction k)
  case 0
  then show ?case by simp
next
  case (Suc k)
  have e: "replicate (2 * Suc k) Settle = replicate (2 * k) Settle @ [Settle, Settle]"
    by (simp add: replicate_append_same [symmetric])
  show ?case
    using Suc by (simp only: e run_append nan_chunk_run [OF assms(1)] if_True Suc_lessD)
qed

text \<open>So for a file of any size one such acknowledgement makes \<open>sendFile\<close> send all remaining chunks
  without waiting and resolve although no chunk was ever acknowledged.\<close>

theorem bare_ack_ends_flow_control:
  assumes "webcrypto_lawful (sc_wc c)" "length (sc_epochKey c) = 32" "length (sc_fileId c) = 16"
  shows "let s = s_run c ([Settle, Settle] @ [bare_ack c] @ replicate (2 * totalChunks (sc_file c)) Settle)
    in s_phase s = Settled (Inr ()) \<and> chunks_in (s_out s) = totalChunks (sc_file c)"
proof -
  have good: "good_ctx c" using assms by (simp add: good_ctx_def)
  obtain k where k: "total c = Suc k" using total_pos_ctx [of c] gr0_implies_Suc by blast
  have e: "replicate (2 * Suc k) Settle = replicate (2 * k) Settle @ [Settle, Settle]"
    by (simp add: replicate_append_same [symmetric])
  have ack: "run (s_step c) (at_read c 0 (- 1)) [bare_ack c] = (at_read c 0 (- 1))\<lparr>s_ackedUpTo := None\<rparr>"
    by (simp add: bare_ack_def at_read_def s_listening_def s_onMessage_def s_wake_def odd_number_def)
  have "s_run c ([Settle, Settle] @ [bare_ack c] @ replicate (2 * Suc k) Settle) =
      (at_read c (Suc k) (- 1))\<lparr>s_ackedUpTo := None, s_phase := Settled (Inr ())\<rparr>"
    using nan_chunks_run [OF good, of k] k
    by (simp only: e run_append start_run [OF good] ack nan_chunk_run [OF good] lessI less_irrefl if_False)
  then show ?thesis by (simp add: k at_read_def)
qed

text \<open>A cancellation by the user before the metadata was sent is lost: \<open>sendFile\<close> never reads
  \<open>signal.aborted\<close>, and its listener is added only after the first two awaits.\<close>

theorem sendFile_early_cancel_ignored:
  "s_run c (Signal_abort # evs) = s_run c evs \<and>
   s_run c (Settle # Signal_abort # evs) = s_run c (Settle # evs)"
  by (simp add: s_init_def s_settle_def s_listening_def split: sum.split)

subsection \<open>Concrete transfers\<close>

definition demo_send :: "bytes \<Rightarrow> send_ctx" where
  "demo_send content = \<lparr>sc_wc = demo_crypto, sc_epochKey = replicate 32 7,
     sc_file = \<lparr>f_name = ''a.txt'', f_type = [], f_content = content\<rparr>, sc_fileId = replicate 16 1\<rparr>"

lemma demo_send_simps [simp]:
  "webcrypto_lawful (sc_wc (demo_send b))" "length (sc_epochKey (demo_send b)) = 32"
  "length (sc_fileId (demo_send b)) = 16" "f_content (sc_file (demo_send b)) = b"
  "sc_wc (demo_send b) = demo_crypto"
  by (simp_all add: demo_send_def demo_crypto_lawful)

lemma demo_good: "good_ctx (demo_send b)"
  by (simp add: good_ctx_def demo_crypto_lawful)

definition one_chunk :: "send_ctx" where "one_chunk = demo_send [104, 105]"
definition nine_chunks :: "send_ctx" where "nine_chunks = demo_send (replicate (9 * CHUNK_SIZE) 0)"

lemma total_one_chunk: "totalChunks (sc_file one_chunk) = 1"
  by (simp add: totalChunks_def f_size_def one_chunk_def CHUNK_SIZE_def)

lemma total_nine_chunks: "totalChunks (sc_file nine_chunks) = 9"
  by (simp add: totalChunks_def f_size_def nine_chunks_def CHUNK_SIZE_def)

lemma one_chunk_lawful [simp]: "webcrypto_lawful (sc_wc one_chunk)"
  by (simp add: one_chunk_def demo_crypto_lawful)

lemma one_chunk_done:
  "s_phase (s_run one_chunk ([Settle, Settle] @ acked_chunk_events one_chunk 0)) = Settled (Inr ())"
  using cooperative_run [OF demo_good, of "[104, 105]"] total_one_chunk by (simp add: one_chunk_def)

lemma one_chunk_open: "s_open (s_run one_chunk ([Settle, Settle] @ acked_chunk_events one_chunk 0))"
proof -
  have good: "good_ctx one_chunk" unfolding one_chunk_def by (rule demo_good)
  have "run (s_step one_chunk) (at_read one_chunk 0 (- 1)) ([Settle, Settle] @ [Message (ack_frame one_chunk 0)]) =
      s_step one_chunk (after_chunk one_chunk 0 (- 1)) (Message (ack_frame one_chunk 0))"
    unfolding run_append [of _ _ "[Settle, Settle]"] send_chunk_run [OF good] by (simp only: run_Cons run_Nil)
  moreover have "s_open (s_step one_chunk (after_chunk one_chunk 0 (- 1)) (Message (ack_frame one_chunk 0)))"
    by (simp add: after_chunk_def s_loop_def s_final_def at_read_def s_listening_def s_onMessage_def s_wake_def
        s_finish_def total_one_chunk)
  moreover have "acked_chunk_events one_chunk 0 = [Settle, Settle] @ [Message (ack_frame one_chunk 0)]"
    by (simp add: acked_chunk_events_def)
  ultimately show ?thesis by (simp only: run_append [of _ _ "[Settle, Settle]"] start_run [OF good])
qed

lemma one_chunk_read_fails:
  "s_phase (s_run one_chunk [Settle, Settle, Read_fail]) = Settled (Inl Read_error)"
  "s_open (s_run one_chunk [Settle, Settle, Read_fail])"
  using start_run [OF demo_good, of "[104, 105]"] run_append [of "s_step one_chunk" s_init "[Settle, Settle]" "[Read_fail]"]
  by (simp_all add: one_chunk_def at_read_def s_readFail_def s_throw_def s_send_def Let_def)

theorem sendFile_frames_in_order_witness:
  "webcrypto_lawful (sc_wc one_chunk) \<and>
   (s_out (s_run one_chunk [Settle, Settle, Signal_abort]) = [] \<or>
    (\<exists>k tail. k \<le> totalChunks (sc_file one_chunk) \<and> (tail = [] \<or> tail = [abort_frame one_chunk]) \<and>
       (s_out (s_run one_chunk [Settle, Settle, Signal_abort]) = tail \<or>
        s_out (s_run one_chunk [Settle, Settle, Signal_abort]) =
          (meta_frame one_chunk # map (chunk_frame_of one_chunk) [0..<k]) @ tail)))"
  by (intro conjI sendFile_frames_in_order) (simp_all add: one_chunk_def demo_crypto_lawful)

theorem sendFile_window_witness:
  "int (chunks_in (s_out (s_run nine_chunks (replicate 20 Settle)))) -
     (highest_ack nine_chunks (replicate 20 Settle) + 1) \<le> WINDOW_SIZE"
  by (rule sendFile_window) (simp_all add: nine_chunks_def demo_crypto_lawful integer_acks_def)

theorem sendFile_resolves_complete_witness:
  "let s = s_run one_chunk ([Settle, Settle] @ acked_chunk_events one_chunk 0) in
   \<not> ack_less (s_ackedUpTo s) 0 \<and> s_aborted s = None \<and>
   s_out s = [meta_frame one_chunk, chunk_frame_of one_chunk 0]"
  using sendFile_resolves_complete [OF one_chunk_lawful one_chunk_done] one_chunk_open
  unfolding total_one_chunk Let_def by simp

theorem sendFile_failure_notifies_witness:
  "let s = s_run one_chunk [Settle, Settle, Read_fail] in
   (s_out s = [] \<and> file_key one_chunk = Inl Read_error) \<or>
   (\<exists>k \<le> 1. s_out s = frames_upto one_chunk k @ [abort_frame one_chunk])"
  using sendFile_failure_notifies [OF one_chunk_lawful one_chunk_read_fails]
  unfolding total_one_chunk Let_def by simp

theorem sendFile_terminates_witness:
  "s_phase (s_run nine_chunks ([Settle, Settle] @
     concat (map (acked_chunk_events nine_chunks) [0..<totalChunks (sc_file nine_chunks)]))) = Settled (Inr ())"
  by (rule sendFile_terminates) (simp_all add: nine_chunks_def demo_crypto_lawful)

theorem transfer_nonces_distinct_witness:
  "distinct (map chunkNonce (METADATA_CHUNK_INDEX # map int [0..<totalChunks (sc_file nine_chunks)]))"
  by (rule transfer_nonces_distinct) (simp add: total_nine_chunks)

theorem bare_ack_ends_flow_control_witness:
  "let s = s_run nine_chunks ([Settle, Settle] @ [bare_ack nine_chunks] @
        replicate (2 * totalChunks (sc_file nine_chunks)) Settle)
   in s_phase s = Settled (Inr ()) \<and> chunks_in (s_out s) = totalChunks (sc_file nine_chunks)"
  by (rule bare_ack_ends_flow_control) (simp_all add: nine_chunks_def demo_crypto_lawful)

theorem sendFile_close_while_busy_hangs_witness:
  "let s = s_run one_chunk ([Settle, Settle] @
        concat (map (acked_chunk_events one_chunk) [0..<totalChunks (sc_file one_chunk) - 1]) @
        [Settle, Closed, Settle] @ [Settle, Read_fail, Settle])
   in s_phase s = Wait_final \<and> s_connectionLost s \<and> \<not> s_open s"
  by (rule sendFile_close_while_busy_hangs) (simp_all add: one_chunk_def demo_crypto_lawful no_input_def)

theorem sendFile_abort_while_busy_hangs_witness:
  "let s = s_run nine_chunks ([Settle, Settle] @ replicate 14 Settle @
        [Settle, peer_abort nine_chunks, Settle] @ [Settle, Settle])
   in s_phase s = Wait_window 8 \<and> s_aborted s = Some (By_peer None)"
  by (rule sendFile_abort_while_busy_hangs)
    (simp_all only: total_nine_chunks, simp_all add: nine_chunks_def demo_crypto_lawful no_input_def)

end
