(* ===== verification/ReceiverProps.thy ===== *)
theory ReceiverProps
  imports ReceiverInv SenderProps
begin

section \<open>Properties of attachReceiver\<close>

text \<open>
  What the protocol of theory ReceiverInv says about every run of a receiver, which event an
  acknowledgement comes from, how a receiver handles the frames \<open>sendFile\<close> produces, and three
  runs in which a file is abandoned while one of its steps is parked.
\<close>

subsection \<open>Messages of a receiver\<close>

lemma step_sent:
  "view_step v (Some (Sent fr)) w \<Longrightarrow> (\<exists>f i. Sent fr = ack_out f i) \<or> (\<exists>f. Sent fr = cancel_out f)"
  by (erule view_step.cases) auto

lemma views_sent:
  "views L v \<Longrightarrow> Sent fr \<in> set L \<Longrightarrow> (\<exists>f i. Sent fr = ack_out f i) \<or> (\<exists>f. Sent fr = cancel_out f)"
  by (induction rule: views.induct) (auto dest: step_sent)

lemma ack_frame_ack_out:
  "Sent (env_frame (Chunk_ack f a)) = ack_out g i \<longleftrightarrow> f = g \<and> a = int i"
  "Sent (env_frame (Chunk_ack f a)) \<noteq> cancel_out g"
  by (auto simp: ack_out_def cancel_out_def env_frame_inj)

text \<open>C10. A receiver acknowledges chunk \<open>i\<close> of a file only after it has handed the chunks
  \<open>0, 1, ..., i\<close> of that file to \<open>onChunk\<close>, in this order, whatever frames arrive and however
  cancellations, a dropped connection and rejected handlers fall in between.\<close>

theorem receiver_acks_in_order:
  assumes "r_log (r_run c evs) = pre @ Sent (env_frame (Chunk_ack f a)) # post"
  shows "\<exists>i. a = int i \<and> subseq [0..<Suc i] (given f pre)"
proof -
  obtain i where i: "a = int i"
    using views_sent [OF receiver_views [of c evs], of "env_frame (Chunk_ack f a)"] assms
    by (auto simp: ack_frame_ack_out)
  have "acks_ok (r_log (r_run c evs))" by (rule views_acks_ok [OF receiver_views])
  then have "given_upto f (Suc i) pre" using assms i unfolding acks_ok_def ack_out_def by blast
  then show ?thesis using i by (simp add: given_upto_def)
qed

text \<open>\<open>onFileComplete\<close> is called for a file only after every chunk up to one marked as the last
  was handed to \<open>onChunk\<close>, in order.\<close>

theorem receiver_completes_after_last:
  assumes "r_log (r_run c evs) = pre @ Call (OnFileComplete f) # post"
  shows "\<exists>n pt. subseq [0..<Suc n] (given f pre) \<and> Call (OnChunk f n True pt) \<in> set pre"
proof -
  have "acks_ok (r_log (r_run c evs))" by (rule views_acks_ok [OF receiver_views])
  then have "given_last f pre" using assms unfolding acks_ok_def by blast
  then show ?thesis by (simp add: given_last_def given_upto_def)
qed

subsection \<open>Which step acknowledges\<close>

definition log_calls :: "receiver \<Rightarrow> receiver \<Rightarrow> bool" where
  "log_calls r r' \<longleftrightarrow> (\<exists>cs. r_log r' = r_log r @ map Call cs)"

lemma log_calls_refl [simp]: "log_calls r r"
  unfolding log_calls_def by (rule exI [of _ "[]"]) simp

lemma log_calls_trans: "log_calls r s \<Longrightarrow> log_calls s t \<Longrightarrow> log_calls r t"
  unfolding log_calls_def by (metis append_assoc map_append)

lemma log_callsI: "r_log r' = r_log r @ [Call cl] \<Longrightarrow> log_calls r r'"
  unfolding log_calls_def by (rule exI [of _ "[cl]"]) simp

lemma log_calls_same: "r_log r' = r_log r \<Longrightarrow> log_calls r r'"
  unfolding log_calls_def by (rule exI [of _ "[]"]) simp

lemma start_log: "log_calls r (r_start t r)"
  by (cases t) (auto simp: meta_start_def abort_start_def chunk_start_def
      intro: log_callsI log_calls_same split: option.splits)

lemma drain_log: "log_calls r (drain ts r)"
  by (induction ts arbitrary: r) (auto intro: log_calls_trans start_log log_calls_same)

lemma resume_log:
  "(\<forall>fr i. r_phase r \<noteq> Chunk_handling fr i) \<Longrightarrow> log_calls r (r_resume c r)"
  by (auto simp: r_resume_def meta_derived_def meta_decrypted_def chunk_decrypted_def Let_def
      intro: log_callsI log_calls_same split: r_phase.splits sum.splits option.splits)

lemma handled_log:
  "\<exists>cs. r_log (chunk_handled fr i r) =
     r_log r @ (if r_open r then [ack_out (toHex (cf_fileId fr)) i] else []) @ map Call cs"
proof -
  let ?a = "if r_open r then [ack_out (toHex (cf_fileId fr)) i] else []"
  have "r_log (r_send (Chunk_ack (toHex (cf_fileId fr)) (int i)) r) = r_log r @ ?a"
    by (simp add: r_send_def ack_out_def)
  moreover have "\<exists>cs. r_log (chunk_handled fr i r) =
      r_log (r_send (Chunk_ack (toHex (cf_fileId fr)) (int i)) r) @ map Call cs"
    unfolding chunk_handled_def Let_def
    by (auto split: option.split intro: exI [of _ "[]"] exI [of _ "[OnError Type_error]"]
        exI [of _ "[OnFileComplete (toHex (cf_fileId fr))]"])
  ultimately show ?thesis by simp
qed

lemma rejected_log: "log_calls r (r_rejected e r)"
  by (auto simp: r_rejected_def intro: log_callsI split: r_phase.split)

lemma no_ack_in_calls: "log_calls r r' \<Longrightarrow> r_log r' = r_log r @ new \<Longrightarrow> ack_out f i \<notin> set new"
  by (auto simp: log_calls_def)

text \<open>The acknowledgement of a chunk is sent in the step in which the promise of \<open>onChunk\<close> for
  this very chunk is fulfilled, and in no other: not when the chunk arrives or is decrypted, not
  when the handler rejects, not on a cancellation.\<close>

theorem receiver_ack_needs_handler:
  assumes "r_log (r_step c r e) = r_log r @ new"
    and "Sent (env_frame (Chunk_ack f (int i))) \<in> set new"
  shows "e = R_settle \<and> r_open r \<and> (\<exists>fr. r_phase r = Chunk_handling fr i \<and> toHex (cf_fileId fr) = f)"
proof -
  have a: "ack_out f i \<in> set new" using assms(2) by (simp add: ack_out_def)
  have no: "\<not> log_calls r (r_step c r e)" using no_ack_in_calls assms(1) a by blast
  have "e = R_settle"
  proof (cases e)
    case R_close
    have "log_calls r (r_step c r e)"
      using R_close by (auto simp: Let_def r_onClose_def intro: log_callsI log_calls_same split: option.split)
    with no show ?thesis by simp
  next
    case R_abortCurrent
    have "ack_out f i \<notin> set new"
      using assms(1) R_abortCurrent
      by (auto simp: abortCurrent_def r_send_def cancel_out_def [symmetric] split: option.splits if_splits)
    with a show ?thesis by simp
  qed (use no in \<open>auto simp: drain_log split: if_splits intro: drain_log log_calls_same log_calls_trans [OF rejected_log drain_log]\<close>)
  obtain fr j where p: "r_phase r = Chunk_handling fr j"
  proof (cases "\<exists>fr j. r_phase r = Chunk_handling fr j")
    case False
    then have "log_calls r (r_resume c r)" by (intro resume_log) simp
    then have "log_calls r (r_step c r e)"
      unfolding \<open>e = R_settle\<close> r_step.simps by (rule log_calls_trans [OF _ drain_log])
    with no show ?thesis by simp
  qed (use that in blast)
  obtain cs where cs: "r_log (chunk_handled fr j r) =
     r_log r @ (if r_open r then [ack_out (toHex (cf_fileId fr)) j] else []) @ map Call cs"
    using handled_log by blast
  obtain ds where ds: "r_log (drain (r_queue r) (chunk_handled fr j r)) = r_log (chunk_handled fr j r) @ map Call ds"
    using drain_log [of "chunk_handled fr j r"] unfolding log_calls_def by blast
  have "r_step c r e = drain (r_queue r) (chunk_handled fr j r)"
    by (simp add: \<open>e = R_settle\<close> r_resume_def p)
  then have "new = (if r_open r then [ack_out (toHex (cf_fileId fr)) j] else []) @ map Call cs @ map Call ds"
    using assms(1) ds cs by simp
  then show ?thesis using a p \<open>e = R_settle\<close> by (auto split: if_splits)
qed

subsection \<open>The frames of sendFile at a receiver\<close>

definition rctx :: "send_ctx \<Rightarrow> recv_ctx" where
  "rctx c = \<lparr>rc_wc = sc_wc c, rc_epochKey = sc_epochKey c\<rparr>"

definition rfile_of :: "send_ctx \<Rightarrow> nat \<Rightarrow> rfile" where
  "rfile_of c i = \<lparr>rf_fileIdHex = fileIdHex c, rf_fileKey = the_key c, rf_expectedIndex = i\<rparr>"

definition file_start :: "send_ctx \<Rightarrow> r_call" where
  "file_start c = OnFileStart (fileIdHex c) (Some (JStr (f_name (sc_file c))))
     (Some (JInt (int (f_size (sc_file c)))))
     (Some (JStr (if f_type (sc_file c) = [] then ''application/octet-stream'' else f_type (sc_file c))))"

definition chunk_call :: "send_ctx \<Rightarrow> nat \<Rightarrow> r_call" where
  "chunk_call c i = OnChunk (fileIdHex c) i (isLast_chunk (sc_file c) i) (chunk_plaintext (sc_file c) i)"

lemma tasks_of_env [simp]:
  assumes "well_typed e"
  shows "tasks_of (env_frame e) = (case e of
     File_meta f ct \<Rightarrow> [Handle_meta (Some (f, ct))]
   | File_abort f r \<Rightarrow> [Handle_abort (Some (f, r))]
   | _ \<Rightarrow> [])"
proof -
  have "parseEnvelope (Text (stringify (env_json e))) = Some e"
    using parseEnvelope_env_frame [OF assms] by (simp only: env_frame_def)
  then show ?thesis using assms by (cases e) (simp_all add: env_frame_def del: env_json.simps)
qed

definition meta_json :: "js_file \<Rightarrow> json" where
  "meta_json f = JObj [(''name'', JStr (f_name f)), (''size'', JInt (int (f_size f))),
      (''mime'', JStr (if f_type f = [] then ''application/octet-stream'' else f_type f))]"

lemma parse_metaPlaintext: "json_parse (utf8_decode (metaPlaintext f)) = Inr (meta_json f)"
proof -
  have "plain (meta_json f)" by (simp add: meta_json_def)
  then show ?thesis
    by (simp only: metaPlaintext_def meta_json_def [symmetric] utf8_decode_encode json_parse_stringify)
qed

lemma lawful_decrypt:
  "webcrypto_lawful wc \<Longrightarrow> wc_decrypt wc k iv aad (wc_encrypt wc k iv aad pt) = Some pt"
  by (simp add: webcrypto_lawful_def)

lemma meta_opens:
  assumes "good_ctx c"
  shows "decryptChunk (sc_wc c) (the_key c) (sc_fileId c) METADATA_CHUNK_INDEX True (sealed_meta c) =
    Inr (metaPlaintext (sc_file c))"
  using assms good_ctx_key [OF assms]
  by (simp add: decryptChunk_Inr sealed_meta_def good_ctx_def lawful_decrypt)

lemma chunk_opens:
  assumes "good_ctx c"
  shows "decryptChunk (sc_wc c) (the_key c) (sc_fileId c) (int i) (isLast_chunk (sc_file c) i) (sealed_chunk c i) =
    Inr (chunk_plaintext (sc_file c) i)"
  using assms good_ctx_key [OF assms]
  by (simp add: decryptChunk_Inr sealed_chunk_def good_ctx_def lawful_decrypt)

lemma meta_decrypted_sent:
  assumes "good_ctx c"
  shows "meta_decrypted (rctx c) (fileIdHex c) (the_key c) (toHex (sealed_meta c)) r =
    (r_call (file_start c) (r\<lparr>r_current := Some (rfile_of c 0)\<rparr>))\<lparr>r_phase := Meta_starting\<rparr>"
  by (simp add: meta_decrypted_def rctx_def fileIdHex_def meta_opens [OF assms] parse_metaPlaintext
      Let_def rfile_of_def file_start_def) (simp add: meta_json_def)

lemma meta_derived_sent:
  assumes "good_ctx c"
  shows "meta_derived (rctx c) (fileIdHex c) ct r = r\<lparr>r_phase := Meta_decrypting (fileIdHex c) (the_key c) ct\<rparr>"
  using good_ctx_key [OF assms] by (simp add: meta_derived_def rctx_def fileIdHex_def)

lemma tasks_of_meta: "tasks_of (meta_frame c) = [Handle_meta (Some (fileIdHex c, toHex (sealed_meta c)))]"
  by (simp add: meta_frame_def)

text \<open>A receiver that waits for chunk \<open>i\<close> of the file.\<close>

definition awaiting :: "send_ctx \<Rightarrow> nat \<Rightarrow> r_out list \<Rightarrow> receiver" where
  "awaiting c i L = r_init\<lparr>r_current := Some (rfile_of c i), r_log := L\<rparr>"

lemma recv_meta_run:
  assumes "good_ctx c"
  shows "r_run (rctx c) [R_frame (meta_frame c), R_settle, R_settle, R_settle] =
    awaiting c 0 [Call (file_start c)]"
  by (simp add: r_init_def tasks_of_meta meta_start_def r_resume_def meta_derived_sent [OF assms]
      meta_decrypted_sent [OF assms] r_call_def r_done_def awaiting_def)

definition chunk_record :: "send_ctx \<Rightarrow> nat \<Rightarrow> chunk_frame" where
  "chunk_record c i = \<lparr>cf_fileId = sc_fileId c, cf_index = int i, cf_isLast = isLast_chunk (sc_file c) i,
     cf_ciphertext = sealed_chunk c i\<rparr>"

lemma parse_chunk_frame_of:
  assumes "good_ctx c" "i < 2 ^ 64"
  shows "parseChunkFrame (buildChunkFrame (sc_fileId c) (int i) (isLast_chunk (sc_file c) i) (sealed_chunk c i)) =
    Some (chunk_record c i)"
proof -
  have "int i < int (2 ^ 64)" using assms(2) by (simp only: of_nat_less_iff)
  then have "int i mod 2 ^ 64 = int i" by (simp add: mod_pos_pos_trivial)
  then show ?thesis using assms(1) by (simp add: parse_build good_ctx_def chunk_record_def)
qed

lemma chunk_record_simps [simp]:
  "cf_fileId (chunk_record c i) = sc_fileId c" "cf_index (chunk_record c i) = int i"
  "cf_isLast (chunk_record c i) = isLast_chunk (sc_file c) i"
  "cf_ciphertext (chunk_record c i) = sealed_chunk c i"
  by (simp_all add: chunk_record_def)

lemma chunk_start_sent:
  assumes "good_ctx c" "i < 2 ^ 64"
  shows "r_start (Handle_chunk (buildChunkFrame (sc_fileId c) (int i) (isLast_chunk (sc_file c) i) (sealed_chunk c i))) r =
    (case r_current r of
       None \<Rightarrow> r_done r
     | Some cur \<Rightarrow>
         if fileIdHex c \<noteq> rf_fileIdHex cur \<or> i \<noteq> rf_expectedIndex cur then r_fail out_of_order r
         else r\<lparr>r_phase := Chunk_decrypting (chunk_record c i) (rf_fileKey cur)\<rparr>)"
  by (simp add: chunk_start_def parse_chunk_frame_of [OF assms] fileIdHex_def split: option.split)

lemma chunk_decrypted_sent:
  assumes "good_ctx c"
  shows "chunk_decrypted (rctx c) (chunk_record c i) (the_key c) r =
    (case r_current r of
       None \<Rightarrow> r_fail Type_error r
     | Some cur \<Rightarrow>
         (r_call (OnChunk (fileIdHex c) (rf_expectedIndex cur) (isLast_chunk (sc_file c) i)
            (chunk_plaintext (sc_file c) i)) r)\<lparr>r_phase := Chunk_handling (chunk_record c i) (rf_expectedIndex cur)\<rparr>)"
  by (simp add: chunk_decrypted_def rctx_def chunk_opens [OF assms] fileIdHex_def Let_def split: option.split)

definition chunk_outs :: "send_ctx \<Rightarrow> nat \<Rightarrow> r_out list" where
  "chunk_outs c i = [Call (chunk_call c i), ack_out (fileIdHex c) i]"

lemma recv_chunk_run:
  assumes "good_ctx c" "i < 2 ^ 64"
  shows "run (r_step (rctx c)) (awaiting c i L) [R_frame (chunk_frame_of c i), R_settle, R_settle] =
    (if isLast_chunk (sc_file c) i
     then r_init\<lparr>r_log := L @ chunk_outs c i @ [Call (OnFileComplete (fileIdHex c))]\<rparr>
     else awaiting c (Suc i) (L @ chunk_outs c i))"
proof -
  let ?dec = "(awaiting c i L)\<lparr>r_phase := Chunk_decrypting (chunk_record c i) (the_key c)\<rparr>"
  let ?han = "(r_call (chunk_call c i) (awaiting c i L))\<lparr>r_phase := Chunk_handling (chunk_record c i) i\<rparr>"
  have "r_step (rctx c) (awaiting c i L) (R_frame (chunk_frame_of c i)) = ?dec"
    by (simp add: awaiting_def r_init_def chunk_frame_of_def chunk_start_sent [OF assms] del: r_start.simps)
      (simp add: rfile_of_def)
  moreover have "r_step (rctx c) ?dec R_settle = ?han"
    by (simp add: r_resume_def chunk_decrypted_sent [OF assms(1)])
      (simp add: awaiting_def r_init_def rfile_of_def r_call_def chunk_call_def)
  moreover have "r_step (rctx c) ?han R_settle = (if isLast_chunk (sc_file c) i
     then r_init\<lparr>r_log := L @ chunk_outs c i @ [Call (OnFileComplete (fileIdHex c))]\<rparr>
     else awaiting c (Suc i) (L @ chunk_outs c i))"
    by (simp add: r_resume_def chunk_handled_def Let_def fileIdHex_def [symmetric] awaiting_def r_init_def
        r_call_def r_done_def r_send_def chunk_outs_def ack_out_def rfile_of_def)
  ultimately show ?thesis by simp
qed

definition recv_chunk_events :: "send_ctx \<Rightarrow> nat \<Rightarrow> r_event list" where
  "recv_chunk_events c i = [R_frame (chunk_frame_of c i), R_settle, R_settle]"

definition recv_meta_events :: "send_ctx \<Rightarrow> r_event list" where
  "recv_meta_events c = [R_frame (meta_frame c), R_settle, R_settle, R_settle]"

lemma not_last_yet: "Suc k \<le> total c - 1 \<Longrightarrow> \<not> isLast_chunk (sc_file c) k"
  by (simp add: isLast_chunk_def)

lemma recv_chunks_run:
  assumes "good_ctx c" "total c \<le> 2 ^ 64" "k \<le> total c - 1"
  shows "r_run (rctx c) (recv_meta_events c @ concat (map (recv_chunk_events c) [0..<k])) =
    awaiting c k (Call (file_start c) # concat (map (chunk_outs c) [0..<k]))"
  using assms(3)
proof (induction k)
  case 0
  then show ?case using recv_meta_run [OF assms(1)] by (simp only: recv_meta_events_def) simp
next
  case (Suc k)
  let ?evs = "recv_meta_events c @ concat (map (recv_chunk_events c) [0..<k])"
  let ?L = "Call (file_start c) # concat (map (chunk_outs c) [0..<k])"
  have IH: "r_run (rctx c) ?evs = awaiting c k ?L" using Suc by simp
  have k: "k < 2 ^ 64" using Suc.prems assms(2) total_pos [of c] by linarith
  have step: "run (r_step (rctx c)) (awaiting c k ?L) (recv_chunk_events c k) = awaiting c (Suc k) (?L @ chunk_outs c k)"
    unfolding recv_chunk_events_def
    using recv_chunk_run [OF assms(1) k, of ?L] not_last_yet [OF Suc.prems] by simp
  have "r_run (rctx c) (?evs @ recv_chunk_events c k) = awaiting c (Suc k) (?L @ chunk_outs c k)"
    by (simp only: run_append [of _ _ ?evs] IH step)
  then show ?case by simp
qed

lemma recv_whole_run:
  assumes "good_ctx c" "total c \<le> 2 ^ 64"
  shows "r_run (rctx c) (recv_meta_events c @ concat (map (recv_chunk_events c) [0..<total c])) =
    r_init\<lparr>r_log := Call (file_start c) # concat (map (chunk_outs c) [0..<total c]) @
       [Call (OnFileComplete (fileIdHex c))]\<rparr>"
proof -
  obtain k where k: "total c = Suc k" using total_pos_ctx [of c] gr0_implies_Suc by blast
  let ?evs = "recv_meta_events c @ concat (map (recv_chunk_events c) [0..<k])"
  let ?L = "Call (file_start c) # concat (map (chunk_outs c) [0..<k])"
  have pre: "r_run (rctx c) ?evs = awaiting c k ?L" using recv_chunks_run [OF assms, of k] k by simp
  have "k < 2 ^ 64" using k assms(2) by simp
  moreover have "isLast_chunk (sc_file c) k" using k by (simp add: isLast_chunk_def)
  ultimately have step: "run (r_step (rctx c)) (awaiting c k ?L) (recv_chunk_events c k) =
      r_init\<lparr>r_log := ?L @ chunk_outs c k @ [Call (OnFileComplete (fileIdHex c))]\<rparr>"
    unfolding recv_chunk_events_def using recv_chunk_run [OF assms(1), of k ?L] by simp
  have "r_run (rctx c) (?evs @ recv_chunk_events c k) =
      r_init\<lparr>r_log := ?L @ chunk_outs c k @ [Call (OnFileComplete (fileIdHex c))]\<rparr>"
    by (simp only: run_append [of _ _ ?evs] pre step)
  then show ?thesis by (simp add: k)
qed

text \<open>A receiver with the sender's epoch key that gets the frames of a file in order, and whose
  handlers succeed, calls \<open>onFileStart\<close> with the name, size and type of the file, \<open>onChunk\<close> with
  each chunk of its contents, acknowledging each before it takes the next, and \<open>onFileComplete\<close>;
  it then waits for the next file.\<close>

theorem receiver_accepts_file:
  assumes "webcrypto_lawful (sc_wc c)" "length (sc_epochKey c) = 32" "length (sc_fileId c) = 16"
    and "totalChunks (sc_file c) \<le> 2 ^ 64"
  shows "let r = r_run (rctx c) (recv_meta_events c @
        concat (map (recv_chunk_events c) [0..<totalChunks (sc_file c)]))
    in r_current r = None \<and> r_phase r = Idle \<and>
       r_log r = Call (file_start c) # concat (map (chunk_outs c) [0..<totalChunks (sc_file c)]) @
         [Call (OnFileComplete (fileIdHex c))]"
proof -
  have good: "good_ctx c" using assms(1-3) by (simp add: good_ctx_def)
  show ?thesis unfolding recv_whole_run [OF good assms(4)] Let_def by (simp add: r_init_def)
qed

subsection \<open>Abandoning a file while a step is parked\<close>

text \<open>A cancellation on the receiving side while \<open>onChunk\<close> is still working is followed, when the
  handler returns, by an acknowledgement for the cancelled file and by an error: the code after
  the \<open>await\<close> increments \<open>current.expectedIndex\<close> although \<open>current\<close> has become null.\<close>

theorem receiver_cancel_reports_error:
  assumes "webcrypto_lawful (sc_wc c)" "length (sc_epochKey c) = 32" "length (sc_fileId c) = 16"
  shows "r_log (r_run (rctx c) (recv_meta_events c @
      [R_frame (chunk_frame_of c 0), R_settle, R_abortCurrent, R_settle])) =
    [Call (file_start c), Call (chunk_call c 0), cancel_out (fileIdHex c),
     Call (OnAborted (fileIdHex c) None), ack_out (fileIdHex c) 0, Call (OnError Type_error)]"
proof -
  have good: "good_ctx c" using assms by (simp add: good_ctx_def)
  have start: "r_run (rctx c) (recv_meta_events c) = awaiting c 0 [Call (file_start c)]"
    unfolding recv_meta_events_def by (rule recv_meta_run [OF good])
  let ?dec = "(awaiting c 0 [Call (file_start c)])\<lparr>r_phase := Chunk_decrypting (chunk_record c 0) (the_key c)\<rparr>"
  have "r_step (rctx c) (awaiting c 0 [Call (file_start c)]) (R_frame (chunk_frame_of c 0)) = ?dec"
    using chunk_start_sent [OF good, of 0]
    by (simp add: awaiting_def r_init_def chunk_frame_of_def del: r_start.simps) (simp add: rfile_of_def)
  moreover have "run (r_step (rctx c)) ?dec [R_settle, R_abortCurrent, R_settle] =
      r_init\<lparr>r_log := [Call (file_start c), Call (chunk_call c 0), cancel_out (fileIdHex c),
        Call (OnAborted (fileIdHex c) None), ack_out (fileIdHex c) 0, Call (OnError Type_error)]\<rparr>"
    using chunk_decrypted_sent [OF good, of 0 ?dec]
    by (simp add: r_resume_def awaiting_def r_init_def rfile_of_def r_call_def chunk_call_def
        abortCurrent_def r_send_def chunk_handled_def r_fail_def r_done_def cancel_out_def ack_out_def
        fileIdHex_def [symmetric])
  ultimately show ?thesis by (simp only: run_append start) simp
qed

text \<open>A connection that drops while the metadata of a file is being decrypted goes unnoticed:
  \<open>onClose\<close> sees no current file, the step then announces the file with \<open>onFileStart\<close> all the
  same, and no error follows, however often promises are fulfilled afterwards.\<close>

theorem receiver_close_during_meta_unreported:
  assumes "webcrypto_lawful (sc_wc c)" "length (sc_epochKey c) = 32" "length (sc_fileId c) = 16"
  shows "let r = r_run (rctx c) ([R_frame (meta_frame c), R_settle, R_close, R_settle, R_settle] @
        replicate n R_settle)
    in r_log r = [Call (file_start c)] \<and> r_current r = Some (rfile_of c 0) \<and> \<not> r_open r"
proof -
  have good: "good_ctx c" using assms by (simp add: good_ctx_def)
  let ?evs = "[R_frame (meta_frame c), R_settle, R_close, R_settle, R_settle]"
  let ?r = "(awaiting c 0 [Call (file_start c)])\<lparr>r_open := False\<rparr>"
  have "r_run (rctx c) ?evs = ?r"
    by (simp add: r_init_def tasks_of_meta meta_start_def r_resume_def meta_derived_sent [OF good]
        meta_decrypted_sent [OF good] r_onClose_def r_call_def r_done_def awaiting_def)
  moreover have "run (r_step (rctx c)) ?r (replicate n R_settle) = ?r"
    by (induction n) (simp_all add: awaiting_def r_init_def r_resume_def)
  ultimately have "r_run (rctx c) (?evs @ replicate n R_settle) = ?r"
    by (simp only: run_append [of _ _ ?evs])
  then show ?thesis by (simp only: Let_def) (simp add: awaiting_def r_init_def)
qed

subsection \<open>Concrete receptions\<close>

abbreviation one_chunk_events :: "r_event list" where
  "one_chunk_events \<equiv> recv_meta_events one_chunk @ concat (map (recv_chunk_events one_chunk) [0..<1])"

lemma one_chunk_log:
  "r_log (r_run (rctx one_chunk) one_chunk_events) =
   [Call (file_start one_chunk), Call (chunk_call one_chunk 0)] @
     Sent (env_frame (Chunk_ack (fileIdHex one_chunk) 0)) # [Call (OnFileComplete (fileIdHex one_chunk))]"
proof -
  have "totalChunks (sc_file one_chunk) \<le> 2 ^ 64" by (simp add: total_one_chunk)
  from recv_whole_run [OF demo_good [of "[104, 105]", folded one_chunk_def] this, unfolded total_one_chunk]
  show ?thesis by (simp add: r_init_def chunk_outs_def ack_out_def)
qed

theorem receiver_acks_in_order_witness:
  "\<exists>i. (0 :: int) = int i \<and>
     subseq [0..<Suc i] (given (fileIdHex one_chunk) [Call (file_start one_chunk), Call (chunk_call one_chunk 0)])"
  by (rule receiver_acks_in_order [OF one_chunk_log])

theorem receiver_completes_after_last_witness:
  "\<exists>n pt. subseq [0..<Suc n] (given (fileIdHex one_chunk) [Call (file_start one_chunk),
        Call (chunk_call one_chunk 0), Sent (env_frame (Chunk_ack (fileIdHex one_chunk) 0))]) \<and>
     Call (OnChunk (fileIdHex one_chunk) n True pt) \<in> set [Call (file_start one_chunk),
        Call (chunk_call one_chunk 0), Sent (env_frame (Chunk_ack (fileIdHex one_chunk) 0))]"
  by (rule receiver_completes_after_last [of "rctx one_chunk" one_chunk_events _ _ "[]"])
    (simp only: one_chunk_log append.simps)

definition demo_handling :: receiver where
  "demo_handling = (awaiting one_chunk 0 [])\<lparr>r_phase := Chunk_handling (chunk_record one_chunk 0) 0\<rparr>"

theorem receiver_ack_needs_handler_witness:
  "R_settle = R_settle \<and> r_open demo_handling \<and>
   (\<exists>fr. r_phase demo_handling = Chunk_handling fr 0 \<and> toHex (cf_fileId fr) = fileIdHex one_chunk)"
proof (rule receiver_ack_needs_handler)
  show "r_log (r_step (rctx one_chunk) demo_handling R_settle) = r_log demo_handling @
      [ack_out (fileIdHex one_chunk) 0, Call (OnFileComplete (fileIdHex one_chunk))]"
    by (simp add: demo_handling_def awaiting_def r_init_def r_resume_def chunk_handled_def Let_def r_send_def
        isLast_chunk_def total_one_chunk ack_out_def fileIdHex_def)
  show "Sent (env_frame (Chunk_ack (fileIdHex one_chunk) (int 0))) \<in>
      set [ack_out (fileIdHex one_chunk) 0, Call (OnFileComplete (fileIdHex one_chunk))]"
    by (simp add: ack_out_def)
qed

theorem receiver_accepts_file_witness:
  "let r = r_run (rctx nine_chunks) (recv_meta_events nine_chunks @
        concat (map (recv_chunk_events nine_chunks) [0..<totalChunks (sc_file nine_chunks)]))
   in r_current r = None \<and> r_phase r = Idle \<and>
      r_log r = Call (file_start nine_chunks) #
        concat (map (chunk_outs nine_chunks) [0..<totalChunks (sc_file nine_chunks)]) @
        [Call (OnFileComplete (fileIdHex nine_chunks))]"
  by (rule receiver_accepts_file) (simp_all only: total_nine_chunks, simp_all add: nine_chunks_def demo_crypto_lawful)

theorem receiver_cancel_reports_error_witness:
  "r_log (r_run (rctx one_chunk) (recv_meta_events one_chunk @
      [R_frame (chunk_frame_of one_chunk 0), R_settle, R_abortCurrent, R_settle])) =
    [Call (file_start one_chunk), Call (chunk_call one_chunk 0), cancel_out (fileIdHex one_chunk),
     Call (OnAborted (fileIdHex one_chunk) None), ack_out (fileIdHex one_chunk) 0, Call (OnError Type_error)]"
  by (rule receiver_cancel_reports_error) (simp_all add: one_chunk_def demo_crypto_lawful)

theorem receiver_close_during_meta_unreported_witness:
  "let r = r_run (rctx one_chunk) ([R_frame (meta_frame one_chunk), R_settle, R_close, R_settle, R_settle] @
        replicate 3 R_settle)
   in r_log r = [Call (file_start one_chunk)] \<and> r_current r = Some (rfile_of one_chunk 0) \<and> \<not> r_open r"
  by (rule receiver_close_during_meta_unreported) (simp_all add: one_chunk_def demo_crypto_lawful)

end
