(* ===== verification/EndToEnd.thy ===== *)
theory EndToEnd
  imports ReceiverProps
begin

section \<open>A transfer from end to end\<close>

text \<open>
  A sender and a receiver with the same epoch key, connected by the relay: each direction is a
  list of frames under way, delivered in order, and the relay itself may cancel the file on both
  sides. Connections may drop at any moment; what a dropped side sends is discarded by its
  socket. The relay is taken to forward frames unchanged: the model of the cryptography says
  nothing about forged ciphertexts. \<open>net_inv\<close> relates the position of the sender's loop, the
  frames under way and queued, and the calls the receiver's handlers have seen.
\<close>

subsection \<open>The system\<close>

record net =
  n_snd :: sender
  n_rcv :: receiver
  n_fwd :: "frame list"
  n_back :: "frame list"

fun sent_frame :: "r_out \<Rightarrow> frame list" where
  "sent_frame (Sent fr) = [fr]"
| "sent_frame (Call _) = []"

definition sent_frames :: "r_out list \<Rightarrow> frame list" where
  "sent_frames L = concat (map sent_frame L)"

definition sender_does :: "send_ctx \<Rightarrow> s_event \<Rightarrow> net \<Rightarrow> net" where
  "sender_does c e n =
     (let s' = s_step c (n_snd n) e
      in n\<lparr>n_snd := s', n_fwd := n_fwd n @ drop (length (s_out (n_snd n))) (s_out s')\<rparr>)"

definition receiver_does :: "send_ctx \<Rightarrow> r_event \<Rightarrow> net \<Rightarrow> net" where
  "receiver_does c e n =
     (let r' = r_step (rctx c) (n_rcv n) e
      in n\<lparr>n_rcv := r',
            n_back := n_back n @ sent_frames (drop (length (r_log (n_rcv n))) (r_log r'))\<rparr>)"

definition relay_abort :: "send_ctx \<Rightarrow> frame" where
  "relay_abort c = env_frame (File_abort (fileIdHex c) (Some ''size_limit_exceeded''))"

inductive net_step :: "send_ctx \<Rightarrow> net \<Rightarrow> net \<Rightarrow> bool" for c where
  sender_alone: "(\<forall>fr. e \<noteq> Message fr) \<Longrightarrow> net_step c n (sender_does c e n)"
| receiver_alone: "(\<forall>fr. e \<noteq> R_frame fr) \<Longrightarrow> e \<noteq> R_detach \<Longrightarrow> net_step c n (receiver_does c e n)"
| to_receiver: "n_fwd n = fr # rest \<Longrightarrow> net_step c n (receiver_does c (R_frame fr) (n\<lparr>n_fwd := rest\<rparr>))"
| to_sender: "n_back n = fr # rest \<Longrightarrow> net_step c n (sender_does c (Message fr) (n\<lparr>n_back := rest\<rparr>))"
| relay_cancels: "net_step c n (n\<lparr>n_fwd := n_fwd n @ [relay_abort c], n_back := n_back n @ [relay_abort c]\<rparr>)"

definition net_init :: net where
  "net_init = \<lparr>n_snd = s_init, n_rcv = r_init, n_fwd = [], n_back = []\<rparr>"

inductive net_reach :: "send_ctx \<Rightarrow> net \<Rightarrow> bool" for c where
  at_start: "net_reach c net_init"
| after: "net_reach c n \<Longrightarrow> net_step c n n' \<Longrightarrow> net_reach c n'"

inductive_cases net_stepE: "net_step c n n'"

subsection \<open>What the sender has put under way\<close>

definition no_abort :: "r_task \<Rightarrow> bool" where
  "no_abort t \<longleftrightarrow> (\<forall>p. t \<noteq> Handle_abort p)"

definition file_tasks :: "frame list \<Rightarrow> r_task list" where
  "file_tasks frs = filter no_abort (concat (map tasks_of frs))"

lemma file_tasks_append [simp]: "file_tasks (xs @ ys) = file_tasks xs @ file_tasks ys"
  by (simp add: file_tasks_def)

lemma file_tasks_Nil [simp]: "file_tasks [] = []"
  by (simp add: file_tasks_def)

definition chunk_task :: "send_ctx \<Rightarrow> nat \<Rightarrow> r_task" where
  "chunk_task c i = Handle_chunk (buildChunkFrame (sc_fileId c) (int i) (isLast_chunk (sc_file c) i) (sealed_chunk c i))"

definition all_tasks :: "send_ctx \<Rightarrow> nat \<Rightarrow> r_task list" where
  "all_tasks c k = Handle_meta (Some (fileIdHex c, toHex (sealed_meta c))) # map (chunk_task c) [0..<k]"

lemma file_tasks_abort [simp]: "file_tasks [abort_frame c] = []" "file_tasks [relay_abort c] = []"
  by (simp_all add: file_tasks_def no_abort_def abort_frame_def relay_abort_def)

lemma file_tasks_frames: "file_tasks (frames_upto c k) = all_tasks c k"
proof -
  have "filter no_abort (concat (map (tasks_of \<circ> chunk_frame_of c) is)) = map (chunk_task c) is" for "is"
    by (induction "is") (simp_all add: chunk_frame_of_def chunk_task_def no_abort_def)
  then show ?thesis
    by (simp add: file_tasks_def frames_upto_def all_tasks_def tasks_of_meta no_abort_def)
qed

lemma sent_tasks:
  assumes "sender_inv c s"
  shows "file_tasks (s_out s) = [] \<or> (\<exists>k \<le> total c. file_tasks (s_out s) = all_tasks c k)"
  using sender_inv_shape [OF assms] by (auto simp: sent_shape_def file_tasks_frames)

text \<open>A step only appends to what the sender has sent.\<close>

definition out_grows :: "sender \<Rightarrow> sender \<Rightarrow> bool" where
  "out_grows s s' \<longleftrightarrow> (\<exists>new. s_out s' = s_out s @ new)"

lemma out_growsI: "s_out s' = s_out s \<Longrightarrow> out_grows s s'"
  by (simp add: out_grows_def)

lemma out_grows_trans: "out_grows s t \<Longrightarrow> out_grows t u \<Longrightarrow> out_grows s u"
  by (auto simp: out_grows_def)

lemma out_grows_send: "out_grows s (s_send fr s)"
  by (simp add: out_grows_def s_send_out)

lemma out_grows_throw: "out_grows s (s_throw c e s)"
  by (simp add: s_throw_def Let_def out_grows_def s_send_out)

lemma out_grows_finish: "out_grows s (s_finish c s)"
  by (auto simp: s_finish_def intro: out_growsI out_grows_throw out_grows_trans [OF out_grows_send]
      split: option.split abort_by.split)

lemma out_grows_final: "out_grows s (s_final c s)"
  by (simp add: s_final_def out_grows_finish) (simp add: out_growsI)

lemma out_grows_loop: "out_grows s (s_loop c k s)"
  by (simp add: s_loop_def out_grows_final) (simp add: out_growsI)

lemma out_grows_wake: "out_grows s (s_wake c s)"
  by (auto simp: s_wake_def intro: out_growsI out_grows_throw out_grows_final out_grows_loop split: s_phase.split)

lemma out_grows_same: "out_grows s t \<Longrightarrow> s_out s = s_out s0 \<Longrightarrow> out_grows s0 t"
  by (simp add: out_grows_def)

lemma out_grows_settle: "out_grows s (s_settle c s)"
proof -
  have "out_grows s (s_loop c k (s_send fr s))" for k fr
    by (rule out_grows_trans [OF out_grows_send out_grows_loop])
  moreover have "out_grows s (s_loop c k ((s_send fr s)\<lparr>s_progress := p\<rparr>))" for k fr p
    by (rule out_grows_trans [OF out_grows_trans [OF out_grows_send out_growsI] out_grows_loop]) simp
  ultimately show ?thesis
    by (auto simp: s_settle_def Let_def intro: out_growsI out_grows_throw split: s_phase.split sum.split)
qed

lemma s_step_grows: "out_grows s (s_step c s e)"
proof (cases e)
  case (Message fr)
  have "out_grows s (s_onMessage c fr s)"
    by (auto simp: s_onMessage_def intro!: out_growsI [of s s] out_grows_same [OF out_grows_wake]
        split: option.split envelope.split)
  then show ?thesis using Message by (simp add: out_growsI)
qed (auto simp: Let_def s_readFail_def s_onClose_def s_onSignalAbort_def
      intro: out_growsI out_grows_settle out_grows_throw out_grows_same [OF out_grows_wake] split: s_phase.split)

lemma acked_settle: "s_ackedUpTo (s_settle c s) = s_ackedUpTo s"
  by (auto simp: s_settle_def s_loop_def s_final_def s_finish_def s_throw_def Let_def
      split: s_phase.split sum.split option.split abort_by.split)

lemma acked_wake: "s_ackedUpTo (s_wake c s) = s_ackedUpTo s"
  by (auto simp: s_wake_def s_loop_def s_final_def s_finish_def s_throw_def Let_def
      split: s_phase.split option.split abort_by.split)

lemma acked_alone: "(\<forall>fr. e \<noteq> Message fr) \<Longrightarrow> s_ackedUpTo (s_step c s e) = s_ackedUpTo s"
  by (cases e) (auto simp: acked_settle s_readFail_def s_throw_def Let_def s_onClose_def s_onSignalAbort_def
      acked_wake split: s_phase.split)

subsection \<open>Where the receiver is\<close>

text \<open>The handler calls that hand over the file, and the story they tell when \<open>m\<close> of them were made.\<close>

fun handed_out :: "r_out \<Rightarrow> r_call list" where
  "handed_out (Call (OnFileStart f n s m)) = [OnFileStart f n s m]"
| "handed_out (Call (OnChunk f i l pt)) = [OnChunk f i l pt]"
| "handed_out _ = []"

definition handed :: "r_out list \<Rightarrow> r_call list" where
  "handed L = concat (map handed_out L)"

lemma handed_simps [simp]: "handed [] = []" "handed (L @ M) = handed L @ handed M"
  "handed [x] = handed_out x" "handed (x # L) = handed_out x @ handed L"
  by (simp_all add: handed_def)

definition story :: "send_ctx \<Rightarrow> nat \<Rightarrow> r_call list" where
  "story c m = (if m = 0 then [] else file_start c # map (chunk_call c) [0..<m - 1])"

lemma story_simps [simp]: "story c 0 = []" "story c (Suc 0) = [file_start c]"
  by (simp_all add: story_def)

lemma story_Suc: "0 < m \<Longrightarrow> story c (Suc m) = story c m @ [chunk_call c (m - 1)]"
  by (cases m) (simp_all add: story_def)

text \<open>
  \<open>q\<close> of the sender's messages were taken from the chain, \<open>m\<close> handler calls were made. A file that
  is current expects a chunk the receiver has got to, and a parked step is about the next one.
\<close>

definition rcv_at :: "send_ctx \<Rightarrow> nat \<Rightarrow> nat \<Rightarrow> receiver \<Rightarrow> bool" where
  "rcv_at c q m r \<longleftrightarrow> m \<le> q \<and> handed (r_log r) = story c m \<and>
     (\<forall>cur. r_current r = Some cur \<longrightarrow> (\<exists>e. cur = rfile_of c e \<and> Suc e \<le> m)) \<and>
     (case r_phase r of
        Idle \<Rightarrow> True
      | Meta_deriving f ct \<Rightarrow> m = 0 \<and> 1 \<le> q \<and> f = fileIdHex c \<and> ct = toHex (sealed_meta c)
      | Meta_decrypting f key ct \<Rightarrow> m = 0 \<and> 1 \<le> q \<and> f = fileIdHex c \<and> ct = toHex (sealed_meta c) \<and> key = the_key c
      | Meta_starting \<Rightarrow> True
      | Chunk_decrypting fr key \<Rightarrow> 1 \<le> m \<and> Suc m \<le> q \<and> fr = chunk_record c (m - 1) \<and> key = the_key c
      | Chunk_handling fr i \<Rightarrow> Suc (Suc i) \<le> m \<and> fr = chunk_record c i)"

lemma rcv_at_mono: "rcv_at c q m r \<Longrightarrow> q \<le> q' \<Longrightarrow> rcv_at c q' m r"
  by (auto simp: rcv_at_def split: r_phase.splits)

lemma rcv_at_queue [simp]: "rcv_at c q m (r\<lparr>r_queue := ts\<rparr>) = rcv_at c q m r"
  "rcv_at c q m (r\<lparr>r_attached := b\<rparr>) = rcv_at c q m r" "rcv_at c q m (r\<lparr>r_open := b\<rparr>) = rcv_at c q m r"
  by (cases "r_phase r"; simp add: rcv_at_def)+

lemma rcv_at_idle:
  "rcv_at c q m r \<Longrightarrow> r_phase r' = Idle \<Longrightarrow> handed (r_log r') = handed (r_log r) \<Longrightarrow>
   r_current r' = r_current r \<or> r_current r' = None \<Longrightarrow> rcv_at c q m r'"
  by (auto simp: rcv_at_def)

lemma abort_start_at: "rcv_at c q m r \<Longrightarrow> rcv_at c q m (abort_start p r)"
  by (auto simp: abort_start_def intro!: rcv_at_idle [of c q m r] split: option.split)

lemma start_abort_at: "rcv_at c q m r \<Longrightarrow> \<not> no_abort t \<Longrightarrow> rcv_at c q m (r_start t r)"
  by (cases t) (simp_all add: no_abort_def abort_start_at)

lemma all_tasks_nth_0: "all_tasks c k ! 0 = Handle_meta (Some (fileIdHex c, toHex (sealed_meta c)))"
  by (simp add: all_tasks_def)

lemma all_tasks_nth_Suc: "i < k \<Longrightarrow> all_tasks c k ! Suc i = chunk_task c i"
  by (simp add: all_tasks_def)

lemma length_all_tasks [simp]: "length (all_tasks c k) = Suc k"
  by (simp add: all_tasks_def)

lemma start_meta_at:
  assumes "rcv_at c 0 m r"
  shows "rcv_at c 1 m (r_start (all_tasks c k ! 0) r)"
  using assms by (auto simp: all_tasks_nth_0 meta_start_def rcv_at_def)

lemma start_chunk_at:
  assumes good: "good_ctx c" and at: "rcv_at c (Suc i) m r" and idle: "r_phase r = Idle" and i: "i < 2 ^ 64"
  shows "rcv_at c (Suc (Suc i)) m (r_start (chunk_task c i) r)"
proof (cases "r_current r")
  case None
  then show ?thesis
    using at by (auto simp: chunk_task_def chunk_start_sent [OF good i] simp del: r_start.simps
        intro!: rcv_at_mono [OF rcv_at_idle [OF at]])
next
  case (Some cur)
  then obtain e where cur: "cur = rfile_of c e" "Suc e \<le> m" using at by (auto simp: rcv_at_def)
  have m: "m \<le> Suc i" using at by (simp add: rcv_at_def)
  show ?thesis
  proof (cases "i = e")
    case True
    with cur m have "m = Suc i" by simp
    moreover have "r_start (chunk_task c i) r = r\<lparr>r_phase := Chunk_decrypting (chunk_record c i) (the_key c)\<rparr>"
      using Some cur True chunk_start_sent [OF good i, of r] by (simp add: chunk_task_def rfile_of_def)
    ultimately show ?thesis using at by (simp add: rcv_at_def)
  next
    case False
    then show ?thesis
      using Some cur by (auto simp: chunk_task_def chunk_start_sent [OF good i] rfile_of_def simp del: r_start.simps
        intro!: rcv_at_mono [OF rcv_at_idle [OF at]])
  qed
qed

text \<open>Draining the chain: the messages still waiting are the rest of the sender's.\<close>

definition waiting :: "r_task list \<Rightarrow> r_task list" where
  "waiting ts = filter no_abort ts"

lemma start_next_at:
  assumes good: "good_ctx c" and at: "rcv_at c q m r" and idle: "r_phase r = Idle"
    and T: "T = [] \<or> (\<exists>k \<le> total c. T = all_tasks c k)" and q: "q < length T" and t: "total c \<le> 2 ^ 64"
  shows "rcv_at c (Suc q) m (r_start (T ! q) r)"
proof -
  obtain k where k: "k \<le> total c" "T = all_tasks c k" using T q by auto
  show ?thesis
  proof (cases q)
    case 0
    then show ?thesis using start_meta_at at k by simp
  next
    case (Suc i)
    then have "i < k" using q k by simp
    moreover have "i < 2 ^ 64" using \<open>i < k\<close> k t by linarith
    ultimately show ?thesis using start_chunk_at [OF good _ idle, of i m] at Suc k by (simp add: all_tasks_nth_Suc)
  qed
qed

lemma drain_at:
  assumes "good_ctx c" "T = [] \<or> (\<exists>k \<le> total c. T = all_tasks c k)" "total c \<le> 2 ^ 64"
    and "rcv_at c q m r" "waiting ts @ rest = drop q T" "q \<le> length T"
  shows "\<exists>q'. rcv_at c q' m (drain ts r) \<and> waiting (r_queue (drain ts r)) @ rest = drop q' T \<and> q' \<le> length T"
  using assms(4-6)
proof (induction ts arbitrary: r q)
  case Nil
  then show ?case by (auto simp: waiting_def intro!: exI [of _ q])
next
  case (Cons t ts)
  show ?case
  proof (cases "r_phase r = Idle")
    case False
    then show ?thesis using Cons.prems by (auto intro!: exI [of _ q])
  next
    case True
    show ?thesis
    proof (cases "no_abort t")
      case False
      then show ?thesis
        using Cons.IH [of q "r_start t r"] Cons.prems True start_abort_at by (simp add: waiting_def)
    next
      case no: True
      then have d: "drop q T = t # waiting ts @ rest" using Cons.prems(2) by (simp add: waiting_def)
      then have q: "q < length T" by (metis drop_all leI list.distinct(1))
      then have "T ! q = t" "drop (Suc q) T = waiting ts @ rest" using d
        by (metis hd_drop_conv_nth list.sel(1), metis d drop_Suc list.sel(3) tl_drop)
      then show ?thesis
        using Cons.IH [of "Suc q" "r_start t r"] start_next_at [OF assms(1) Cons.prems(1) True assms(2) q assms(3)] q True
        by simp
    qed
  qed
qed

lemma handed_calls [simp]:
  "handed_out (Call (file_start c)) = [file_start c]" "handed_out (Call (chunk_call c i)) = [chunk_call c i]"
  "handed_out (ack_out f i) = []" "handed_out (cancel_out f) = []" "handed_out (Sent fr) = []"
  by (simp_all add: file_start_def chunk_call_def ack_out_def cancel_out_def)

lemma resume_at:
  assumes good: "good_ctx c" and inv: "receiver_inv r" and at: "rcv_at c q m r"
  shows "\<exists>m'. rcv_at c q m' (r_resume (rctx c) r) \<and> m \<le> m'"
proof (cases "r_phase r")
  case (Meta_deriving f ct)
  then have "rcv_at c q m (r_resume (rctx c) r)"
    using at by (auto simp: r_resume_def meta_derived_sent [OF good] rcv_at_def)
  then show ?thesis by blast
next
  case (Meta_decrypting f key ct)
  then have "rcv_at c q 1 (r_resume (rctx c) r) \<and> m \<le> 1"
    using at by (auto simp: r_resume_def meta_decrypted_sent [OF good] rcv_at_def)
  then show ?thesis by blast
next
  case (Chunk_decrypting fr key)
  then have m: "1 \<le> m" "Suc m \<le> q" "fr = chunk_record c (m - 1)" "key = the_key c"
    using at by (simp_all add: rcv_at_def)
  note dec = chunk_decrypted_sent [OF good, of "m - 1" r]
  show ?thesis
  proof (cases "r_current r")
    case None
    then have "rcv_at c q m (r_resume (rctx c) r)"
      using m at Chunk_decrypting dec by (auto simp: r_resume_def intro!: rcv_at_idle [OF at])
    then show ?thesis by blast
  next
    case (Some cur)
    have "int (rf_expectedIndex cur) = cf_index fr"
      using inv Chunk_decrypting Some by (simp add: receiver_inv_def r_ok_def parked_ok_def)
    then have e: "rf_expectedIndex cur = m - 1" using m by simp
    have "rcv_at c q (Suc m) (r_resume (rctx c) r)"
      using m at Chunk_decrypting dec Some e
      by (auto simp: r_resume_def rcv_at_def chunk_call_def [symmetric] story_Suc le_SucI)
    then show ?thesis by (intro exI [of _ "Suc m"]) simp
  qed
next
  case (Chunk_handling fr i)
  then have m: "Suc (Suc i) \<le> m" using at by (simp add: rcv_at_def)
  have "rf_expectedIndex cur = i" if "r_current r = Some cur" for cur
    using inv Chunk_handling that by (simp add: receiver_inv_def r_ok_def parked_ok_def)
  then have "rcv_at c q m (r_resume (rctx c) r)"
    using m at Chunk_handling
    by (auto simp: r_resume_def chunk_handled_def Let_def rcv_at_def r_send_def rfile_of_def
        split: option.split)
  then show ?thesis by blast
next
  case Meta_starting
  then have "rcv_at c q m (r_resume (rctx c) r)"
    by (simp add: r_resume_def) (rule rcv_at_idle [OF at], simp_all)
  then show ?thesis by blast
qed (use at in \<open>auto simp: r_resume_def\<close>)

lemma rejected_at: "rcv_at c q m r \<Longrightarrow> rcv_at c q m (r_rejected e r)"
  by (auto simp: r_rejected_def intro!: rcv_at_idle [of c q m r] split: r_phase.split)

text \<open>Abandoning the file leaves the parked step as it is.\<close>

lemma rcv_at_abandon:
  "rcv_at c q m r \<Longrightarrow> r_phase r' = r_phase r \<Longrightarrow> handed (r_log r') = handed (r_log r) \<Longrightarrow>
   r_current r' = None \<Longrightarrow> rcv_at c q m r'"
  by (auto simp: rcv_at_def)

lemma onClose_at: "rcv_at c q m r \<Longrightarrow> rcv_at c q m (r_onClose (r\<lparr>r_open := False\<rparr>))"
  by (auto simp: r_onClose_def intro!: rcv_at_abandon [of c q m r] split: option.split)

lemma abortCurrent_at: "rcv_at c q m r \<Longrightarrow> rcv_at c q m (abortCurrent r)"
  by (auto simp: abortCurrent_def r_send_def intro!: rcv_at_abandon [of c q m r] split: option.split)

subsection \<open>What goes back\<close>

definition back_ok :: "send_ctx \<Rightarrow> nat \<Rightarrow> frame \<Rightarrow> bool" where
  "back_ok c m fr \<longleftrightarrow> fr = relay_abort c \<or> fr = abort_frame c \<or>
     (\<exists>i. Suc (Suc i) \<le> m \<and> fr = env_frame (Chunk_ack (fileIdHex c) (int i)))"

lemma back_ok_mono:
  assumes "back_ok c m fr" "m \<le> m'"
  shows "back_ok c m' fr"
proof -
  have "Suc (Suc i) \<le> m'" if "Suc (Suc i) \<le> m" for i using that assms(2) by simp
  then show ?thesis using assms(1) unfolding back_ok_def by blast
qed

definition log_new :: "send_ctx \<Rightarrow> nat \<Rightarrow> receiver \<Rightarrow> receiver \<Rightarrow> bool" where
  "log_new c m r r' \<longleftrightarrow> (\<exists>new. r_log r' = r_log r @ new \<and> (\<forall>fr \<in> set (sent_frames new). back_ok c m fr))"

lemma sent_frames_append [simp]: "sent_frames (xs @ ys) = sent_frames xs @ sent_frames ys"
  by (simp add: sent_frames_def)

lemma sent_frames_Cons [simp]: "sent_frames (x # xs) = sent_frame x @ sent_frames xs" "sent_frames [] = []"
  by (simp_all add: sent_frames_def)

lemma sent_frames_calls [simp]: "sent_frames (map Call cs) = []"
  by (induction cs) (simp_all add: sent_frames_def)

lemma log_new_calls: "log_calls r r' \<Longrightarrow> log_new c m r r'"
  by (auto simp: log_calls_def log_new_def)

lemma log_new_trans:
  assumes "log_new c m r s" "log_new c m s t"
  shows "log_new c m r t"
proof -
  obtain x y where "r_log s = r_log r @ x" "r_log t = r_log s @ y"
    "\<forall>fr \<in> set (sent_frames x). back_ok c m fr" "\<forall>fr \<in> set (sent_frames y). back_ok c m fr"
    using assms by (auto simp: log_new_def)
  then show ?thesis unfolding log_new_def by (intro exI [of _ "x @ y"]) auto
qed

lemma resume_new:
  assumes at: "rcv_at c q m r"
  shows "log_new c m r (r_resume (rctx c) r)"
proof (cases "\<exists>fr i. r_phase r = Chunk_handling fr i")
  case True
  then obtain fr i where p: "r_phase r = Chunk_handling fr i" by blast
  then have i: "Suc (Suc i) \<le> m" "fr = chunk_record c i" using at by (simp_all add: rcv_at_def)
  obtain cs where "r_log (chunk_handled fr i r) =
     r_log r @ (if r_open r then [ack_out (toHex (cf_fileId fr)) i] else []) @ map Call cs"
    using handled_log by blast
  then show ?thesis
    using i p unfolding log_new_def
    by (auto simp: r_resume_def ack_out_def back_ok_def fileIdHex_def)
qed (use resume_log in \<open>auto intro: log_new_calls\<close>)

lemma abortCurrent_new:
  assumes at: "rcv_at c q m r"
  shows "log_new c m r (abortCurrent r)"
proof (cases "r_current r")
  case None
  then show ?thesis by (simp add: abortCurrent_def log_new_calls)
next
  case (Some cur)
  then have "rf_fileIdHex cur = fileIdHex c" using at by (auto simp: rcv_at_def rfile_of_def)
  then show ?thesis
    using Some unfolding log_new_def
    by (auto simp: abortCurrent_def r_send_def back_ok_def abort_frame_def)
qed

subsection \<open>The invariant of the system\<close>

definition placed :: "send_ctx \<Rightarrow> r_task list \<Rightarrow> frame list \<Rightarrow> nat \<Rightarrow> nat \<Rightarrow> receiver \<Rightarrow> bool" where
  "placed c T fwd q m r \<longleftrightarrow> rcv_at c q m r \<and> q \<le> length T \<and> waiting (r_queue r) @ file_tasks fwd = drop q T"

definition net_inv :: "send_ctx \<Rightarrow> net \<Rightarrow> bool" where
  "net_inv c n \<longleftrightarrow> sender_inv c (n_snd n) \<and> receiver_inv (n_rcv n) \<and> r_attached (n_rcv n) \<and>
     (\<exists>q m. placed c (file_tasks (s_out (n_snd n))) (n_fwd n) q m (n_rcv n) \<and>
        (\<forall>fr \<in> set (n_back n). back_ok c m fr) \<and> acked_upto (max 1 (int m) - 2) (s_ackedUpTo (n_snd n)))"

lemma waiting_append [simp]: "waiting (xs @ ys) = waiting xs @ waiting ys"
  by (simp add: waiting_def)

lemma waiting_tasks_of: "waiting (tasks_of fr) = file_tasks [fr]"
  by (simp add: waiting_def file_tasks_def)

lemma placed_queue_same: "placed c T fwd q m r \<Longrightarrow> rcv_at c q m r' \<Longrightarrow> r_queue r' = r_queue r \<Longrightarrow> placed c T fwd q m r'"
  by (simp add: placed_def)

definition sys_ok :: "send_ctx \<Rightarrow> bool" where
  "sys_ok c \<longleftrightarrow> good_ctx c \<and> total c \<le> 2 ^ 64"

lemma placed_drain:
  assumes ok: "sys_ok c" and inv: "sender_inv c s" and T: "T = file_tasks (s_out s)"
    and at: "rcv_at c q m r" and le: "q \<le> length T" and w: "waiting ts @ file_tasks fwd = drop q T"
  shows "\<exists>q'. placed c T fwd q' m (drain ts r)"
  using drain_at [of c T q m r ts "file_tasks fwd"] assms sent_tasks [OF inv]
  by (auto simp: placed_def sys_ok_def)

text \<open>A step of the receiver.\<close>

lemma resume_queue: "r_queue (r_resume c r) = r_queue r"
  by (auto simp: r_resume_def meta_derived_def meta_decrypted_def chunk_decrypted_def chunk_handled_def Let_def
      split: r_phase.split sum.split option.split)

lemma rejected_queue: "r_queue (r_rejected e r) = r_queue r"
  by (auto simp: r_rejected_def split: r_phase.split)

lemma receiver_step_placed:
  assumes ok: "sys_ok c" and inv: "sender_inv c s" and T: "T = file_tasks (s_out s)"
    and rinv: "receiver_inv r" and pl: "placed c T (take_fr e @ fwd) q m r"
    and tk: "take_fr = (\<lambda>e. case e of R_frame fr \<Rightarrow> [fr] | _ \<Rightarrow> [])" and att: "r_attached r"
    and nd: "e \<noteq> R_detach"
  shows "\<exists>q' m'. placed c T fwd q' m' (r_step (rctx c) r e) \<and> m \<le> m' \<and> log_new c m' r (r_step (rctx c) r e)"
proof -
  have good: "good_ctx c" using ok by (simp add: sys_ok_def)
  have at: "rcv_at c q m r" and le: "q \<le> length T"
    and w: "waiting (r_queue r) @ file_tasks (take_fr e) @ file_tasks fwd = drop q T"
    using pl by (simp_all add: placed_def)
  show ?thesis
  proof (cases e)
    case (R_frame fr)
    have "\<exists>q'. placed c T fwd q' m (drain (r_queue r @ tasks_of fr) r)"
      using w R_frame tk by (intro placed_drain [OF ok inv T at le]) (simp add: waiting_tasks_of)
    then show ?thesis using R_frame att drain_log by (auto intro!: log_new_calls)
  next
    case R_settle
    obtain m' where m': "rcv_at c q m' (r_resume (rctx c) r)" "m \<le> m'" using resume_at [OF good rinv at] by blast
    have "\<exists>q'. placed c T fwd q' m' (drain (r_queue r) (r_resume (rctx c) r))"
      using w R_settle tk by (intro placed_drain [OF ok inv T m'(1) le]) simp
    moreover have "log_new c m' r (drain (r_queue r) (r_resume (rctx c) r))"
      using resume_new [OF at, of] m'(2) unfolding log_new_def
      by (metis log_new_def log_new_trans log_new_calls drain_log back_ok_mono)
    ultimately show ?thesis using R_settle m'(2) by auto
  next
    case (R_reject err)
    have "\<exists>q'. placed c T fwd q' m (drain (r_queue r) (r_rejected err r))"
      using w R_reject tk by (intro placed_drain [OF ok inv T rejected_at [OF at] le]) simp
    then show ?thesis
      using R_reject by (auto intro!: log_new_calls log_calls_trans [OF rejected_log drain_log])
  next
    case R_close
    have "rcv_at c q m (r_onClose (r\<lparr>r_open := False\<rparr>))" by (rule onClose_at [OF at])
    then have "placed c T fwd q m (r_step (rctx c) r e)" using R_close att w le tk by (simp add: Let_def placed_def)
    moreover have "log_calls r (r_step (rctx c) r e)"
      using R_close by (auto simp: Let_def r_onClose_def intro: log_callsI log_calls_same split: option.split)
    ultimately show ?thesis by (auto intro: log_new_calls)
  next
    case R_abortCurrent
    then have "placed c T fwd q m (r_step (rctx c) r e)"
      using abortCurrent_at [OF at] w le tk by (simp add: placed_def)
    then show ?thesis using R_abortCurrent abortCurrent_new [OF at] by auto
  qed (use nd in simp)
qed

text \<open>A step of the sender.\<close>

lemma acked_message:
  assumes "back_ok c m fr" "acked_upto (max 1 (int m) - 2) (s_ackedUpTo s)"
  shows "acked_upto (max 1 (int m) - 2) (s_ackedUpTo (s_step c s (Message fr)))"
proof -
  have "s_ackedUpTo (s_onMessage c fr s) = s_ackedUpTo s \<or>
      (\<exists>i. Suc (Suc i) \<le> m \<and> s_ackedUpTo (s_onMessage c fr s) = ack_int (int i))"
    using assms(1)
    by (auto simp: back_ok_def s_onMessage_def relay_abort_def abort_frame_def acked_wake)
  then show ?thesis using assms(2) by auto
qed

lemma sender_step_placed:
  assumes "placed c (file_tasks (s_out s)) fwd q m r"
  shows "placed c (file_tasks (s_out (s_step c s e))) (fwd @ drop (length (s_out s)) (s_out (s_step c s e))) q m r"
proof -
  obtain new where "s_out (s_step c s e) = s_out s @ new"
    using s_step_grows [of s c e] by (auto simp: out_grows_def)
  then show ?thesis using assms by (auto simp: placed_def)
qed

lemma sender_does_inv:
  assumes ok: "sys_ok c" and inv: "net_inv c n"
    and a: "\<And>m. (\<forall>fr \<in> set (n_back n). back_ok c m fr) \<Longrightarrow> acked_upto (max 1 (int m) - 2) (s_ackedUpTo (n_snd n)) \<Longrightarrow>
      acked_upto (max 1 (int m) - 2) (s_ackedUpTo (s_step c (n_snd n) e))"
  shows "net_inv c ((sender_does c e n)\<lparr>n_back := drop k (n_back n)\<rparr>)"
proof -
  obtain q m where pl: "placed c (file_tasks (s_out (n_snd n))) (n_fwd n) q m (n_rcv n)"
    and b: "\<forall>fr \<in> set (n_back n). back_ok c m fr" and ack: "acked_upto (max 1 (int m) - 2) (s_ackedUpTo (n_snd n))"
    using inv by (auto simp: net_inv_def)
  have "sender_inv c (s_step c (n_snd n) e)"
    using inv ok by (intro s_step_inv) (simp_all add: net_inv_def sys_ok_def good_ctx_def)
  moreover have "\<forall>fr \<in> set (drop k (n_back n)). back_ok c m fr" using b in_set_dropD by fast
  ultimately show ?thesis
    using inv sender_step_placed [OF pl, of e] a [OF b ack]
    unfolding net_inv_def sender_does_def Let_def by auto
qed

lemma r_step_attached: "e \<noteq> R_detach \<Longrightarrow> r_attached (r_step c r e) = r_attached r"
proof -
  have start: "r_attached (r_start t r) = r_attached r" for t r
    by (cases t) (auto simp: meta_start_def abort_start_def chunk_start_def split: option.split)
  have drain: "r_attached (drain ts r) = r_attached r" for ts r
    by (induction ts arbitrary: r) (simp_all add: start)
  have "r_attached (r_resume c r) = r_attached r" "r_attached (r_rejected err r) = r_attached r" for err
    by (auto simp: r_resume_def meta_derived_def meta_decrypted_def chunk_decrypted_def chunk_handled_def Let_def
        r_rejected_def split: r_phase.split sum.split option.split)
  then show "e \<noteq> R_detach \<Longrightarrow> r_attached (r_step c r e) = r_attached r"
    by (cases e) (simp_all add: drain Let_def r_onClose_def abortCurrent_def split: option.split)
qed

lemma receiver_does_inv:
  assumes ok: "sys_ok c" and inv: "net_inv c n" and nd: "e \<noteq> R_detach"
    and fwd: "n_fwd n = (case e of R_frame fr \<Rightarrow> [fr] | _ \<Rightarrow> []) @ rest"
  shows "net_inv c (receiver_does c e (n\<lparr>n_fwd := rest\<rparr>))"
proof -
  let ?s = "n_snd n"
  let ?r' = "r_step (rctx c) (n_rcv n) e"
  obtain q m where pl: "placed c (file_tasks (s_out ?s)) (n_fwd n) q m (n_rcv n)"
    and b: "\<forall>fr \<in> set (n_back n). back_ok c m fr" and ack: "acked_upto (max 1 (int m) - 2) (s_ackedUpTo ?s)"
    using inv by (auto simp: net_inv_def)
  have sinv: "sender_inv c ?s" and rinv: "receiver_inv (n_rcv n)" and att: "r_attached (n_rcv n)"
    using inv by (simp_all add: net_inv_def)
  obtain q' m' where st: "placed c (file_tasks (s_out ?s)) rest q' m' ?r'" "m \<le> m'" "log_new c m' (n_rcv n) ?r'"
    using receiver_step_placed [OF ok sinv refl rinv pl [unfolded fwd] refl att nd] by blast
  obtain new where new: "r_log ?r' = r_log (n_rcv n) @ new" "\<forall>fr \<in> set (sent_frames new). back_ok c m' fr"
    using st(3) by (auto simp: log_new_def)
  have "\<forall>fr \<in> set (n_back n @ sent_frames new). back_ok c m' fr"
    using b new(2) back_ok_mono [OF _ st(2)] by auto
  moreover have "acked_upto (max 1 (int m') - 2) (s_ackedUpTo ?s)" using ack st(2) by (elim acked_upto_mono) simp
  ultimately show ?thesis
    using sinv att r_step_inv [OF rinv, of "rctx c" e] st(1) new(1) r_step_attached [OF nd, of "rctx c" "n_rcv n"]
    unfolding net_inv_def receiver_does_def Let_def by auto
qed

lemma relay_cancel_inv:
  assumes "net_inv c n"
  shows "net_inv c (n\<lparr>n_fwd := n_fwd n @ [relay_abort c], n_back := n_back n @ [relay_abort c]\<rparr>)"
  using assms by (auto simp: net_inv_def placed_def back_ok_def)

lemma sender_does_back: "sender_does c e (n\<lparr>n_back := b\<rparr>) = (sender_does c e n)\<lparr>n_back := b\<rparr>"
  by (cases n) (simp add: sender_does_def Let_def)

lemma net_step_inv:
  assumes ok: "sys_ok c" and inv: "net_inv c n" and st: "net_step c n n'"
  shows "net_inv c n'"
  using st
proof (cases rule: net_step.cases)
  case (sender_alone e)
  then show ?thesis using sender_does_inv [OF ok inv, of e 0] acked_alone
    by (simp add: sender_does_def Let_def)
next
  case (receiver_alone e)
  have "n_fwd n = (case e of R_frame fr \<Rightarrow> [fr] | _ \<Rightarrow> []) @ n_fwd n"
    using receiver_alone by (auto split: r_event.split)
  then show ?thesis using receiver_does_inv [OF ok inv receiver_alone(3)] receiver_alone(1) by fastforce
next
  case (to_receiver fr rest)
  then show ?thesis using receiver_does_inv [OF ok inv, of "R_frame fr" rest] by simp
next
  case (to_sender fr rest)
  have "net_inv c ((sender_does c (Message fr) n)\<lparr>n_back := drop 1 (n_back n)\<rparr>)"
    using to_sender acked_message by (intro sender_does_inv [OF ok inv]) simp
  then show ?thesis using to_sender by (simp only: sender_does_back) simp
next
  case relay_cancels
  then show ?thesis using relay_cancel_inv [OF inv] by simp
qed

lemma net_init_inv: "net_inv c net_init"
proof -
  have "placed c [] [] 0 0 r_init"
    by (simp add: placed_def rcv_at_def r_init_def waiting_def)
  then show ?thesis
    unfolding net_inv_def net_init_def using s_init_inv [of c] r_init_inv
    by (auto simp: s_init_def r_init_def intro!: exI [of _ 0])
qed

lemma net_reach_inv: "net_reach c n \<Longrightarrow> sys_ok c \<Longrightarrow> net_inv c n"
  by (induction rule: net_reach.induct) (auto intro: net_init_inv net_step_inv)

subsection \<open>What the receiver's application gets\<close>

lemma handed_story:
  assumes "net_reach c n" "sys_ok c"
  shows "\<exists>m. m \<le> Suc (total c) \<and> handed (r_log (n_rcv n)) = story c m \<and> acked_upto (max 1 (int m) - 2) (s_ackedUpTo (n_snd n))"
proof -
  have inv: "net_inv c n" by (rule net_reach_inv [OF assms])
  then obtain q m where pl: "placed c (file_tasks (s_out (n_snd n))) (n_fwd n) q m (n_rcv n)"
    and a: "acked_upto (max 1 (int m) - 2) (s_ackedUpTo (n_snd n))" by (auto simp: net_inv_def)
  have "length (file_tasks (s_out (n_snd n))) \<le> Suc (total c)"
    using sent_tasks [of c "n_snd n"] inv by (auto simp: net_inv_def)
  then have "m \<le> Suc (total c)" "handed (r_log (n_rcv n)) = story c m"
    using pl by (simp_all add: placed_def rcv_at_def)
  then show ?thesis using a by blast
qed

text \<open>C3. At every moment of a transfer, whatever drops, fails or is cancelled on either side or by the
  relay, what the receiver's handlers have been called with is \<open>onFileStart\<close> with the metadata of
  the sent file followed by \<open>onChunk\<close> with its chunks 0, 1, ..., k - 1, or nothing: no chunk is
  altered, skipped, repeated or out of order.\<close>

theorem transfer_delivers_prefix:
  assumes "net_reach c n" and "webcrypto_lawful (sc_wc c)" "length (sc_epochKey c) = 32"
    "length (sc_fileId c) = 16" "totalChunks (sc_file c) \<le> 2 ^ 64"
  shows "handed (r_log (n_rcv n)) = [] \<or>
    (\<exists>k \<le> totalChunks (sc_file c). handed (r_log (n_rcv n)) = file_start c # map (chunk_call c) [0..<k])"
proof -
  have "sys_ok c" using assms by (simp add: sys_ok_def good_ctx_def)
  then obtain m where "m \<le> Suc (total c)" "handed (r_log (n_rcv n)) = story c m"
    using handed_story [OF assms(1)] by blast
  then show ?thesis by (cases m) (auto simp: story_def)
qed

text \<open>C2. When \<open>sendFile\<close> resolves, the receiver's handlers have been called with every chunk of the
  file, and the plaintexts they were given are, put together, the contents of the sent file.\<close>

theorem transfer_resolved_delivered:
  assumes "net_reach c n" and "webcrypto_lawful (sc_wc c)" "length (sc_epochKey c) = 32"
    "length (sc_fileId c) = 16" "totalChunks (sc_file c) \<le> 2 ^ 64"
    and "s_phase (n_snd n) = Settled (Inr ())"
  shows "handed (r_log (n_rcv n)) = file_start c # map (chunk_call c) [0..<totalChunks (sc_file c)] \<and>
    concat [pt. OnChunk f i l pt \<leftarrow> handed (r_log (n_rcv n))] = f_content (sc_file c)"
proof -
  have ok: "sys_ok c" using assms by (simp add: sys_ok_def good_ctx_def)
  then obtain m where m: "m \<le> Suc (total c)" "handed (r_log (n_rcv n)) = story c m"
    "acked_upto (max 1 (int m) - 2) (s_ackedUpTo (n_snd n))"
    using handed_story [OF assms(1)] by blast
  have "sender_inv c (n_snd n)" using net_reach_inv [OF assms(1) ok] by (simp add: net_inv_def)
  then have "\<not> ack_less (s_ackedUpTo (n_snd n)) (int (total c) - 1)"
    using assms(6) by (simp add: sender_inv_def settled_ok_def)
  moreover obtain a where a: "s_ackedUpTo (n_snd n) = ack_int a" "a + 2 \<le> max 1 (int m)"
    using m(3) by (auto simp: acked_upto_def)
  ultimately have "int (total c) - 1 \<le> a" by simp
  moreover have "1 \<le> int (total c)" using total_pos [of c] by linarith
  moreover from calculation have "max 1 (int m) = int m" using a(2) by (cases "1 \<le> m") simp_all
  ultimately have "m = Suc (total c)" using m(1) a(2) by linarith
  then have h: "handed (r_log (n_rcv n)) = file_start c # map (chunk_call c) [0..<total c]"
    using m by (simp add: story_def)
  have "concat [pt. OnChunk f i l pt \<leftarrow> map (chunk_call c) is] = concat (map (chunk_plaintext (sc_file c)) is)" for "is"
    by (induction "is") (simp_all add: chunk_call_def)
  then have "concat [pt. OnChunk f i l pt \<leftarrow> handed (r_log (n_rcv n))] = f_content (sc_file c)"
    by (simp add: h file_start_def chunks_concat_content)
  with h show ?thesis by simp
qed

subsection \<open>A transfer that completes\<close>

definition log_grows :: "receiver \<Rightarrow> receiver \<Rightarrow> bool" where
  "log_grows r r' \<longleftrightarrow> (\<exists>new. r_log r' = r_log r @ new)"

lemma log_calls_grows: "log_calls r r' \<Longrightarrow> log_grows r r'"
  by (auto simp: log_calls_def log_grows_def)

lemma log_grows_trans: "log_grows r s \<Longrightarrow> log_grows s t \<Longrightarrow> log_grows r t"
  by (auto simp: log_grows_def)

lemma resume_grows: "log_grows r (r_resume c r)"
proof (cases "\<exists>fr i. r_phase r = Chunk_handling fr i")
  case True
  then obtain fr i where p: "r_phase r = Chunk_handling fr i" by blast
  then show ?thesis using handled_log [of fr i r] by (auto simp: r_resume_def log_grows_def)
qed (use resume_log in \<open>auto intro: log_calls_grows\<close>)

lemma r_step_grows: "log_grows r (r_step c r e)"
proof (cases e)
  case (R_frame fr)
  then show ?thesis using drain_log log_calls_grows by (auto simp: log_grows_def)
next
  case R_settle
  then show ?thesis using log_grows_trans [OF resume_grows log_calls_grows [OF drain_log]] by simp
next
  case (R_reject err)
  then show ?thesis using log_calls_grows [OF log_calls_trans [OF rejected_log drain_log]] by simp
qed (auto simp: log_grows_def Let_def r_onClose_def abortCurrent_def r_send_def split: option.split)

lemma run_grows: "\<exists>new. s_out (run (s_step c) s es) = s_out s @ new"
proof (induction es arbitrary: s)
  case Nil
  then show ?case by simp
next
  case (Cons e es)
  obtain new where "s_out (s_step c s e) = s_out s @ new"
    using s_step_grows [of s c e] by (auto simp: out_grows_def)
  moreover obtain new' where "s_out (run (s_step c) (s_step c s e) es) = s_out (s_step c s e) @ new'"
    using Cons.IH by blast
  ultimately show ?case by simp
qed

lemma run_log_grows: "\<exists>new. r_log (run (r_step c) r es) = r_log r @ new"
proof (induction es arbitrary: r)
  case Nil
  then show ?case by simp
next
  case (Cons e es)
  obtain new where "r_log (r_step c r e) = r_log r @ new"
    using r_step_grows [of r c e] by (auto simp: log_grows_def)
  moreover obtain new' where "r_log (run (r_step c) (r_step c r e) es) = r_log (r_step c r e) @ new'"
    using Cons.IH by blast
  ultimately show ?case by simp
qed

definition sender_ran :: "send_ctx \<Rightarrow> s_event list \<Rightarrow> net \<Rightarrow> net" where
  "sender_ran c es n = n\<lparr>n_snd := run (s_step c) (n_snd n) es,
     n_fwd := n_fwd n @ drop (length (s_out (n_snd n))) (s_out (run (s_step c) (n_snd n) es))\<rparr>"

definition receiver_ran :: "send_ctx \<Rightarrow> r_event list \<Rightarrow> net \<Rightarrow> net" where
  "receiver_ran c es n = n\<lparr>n_rcv := run (r_step (rctx c)) (n_rcv n) es,
     n_back := n_back n @ sent_frames (drop (length (r_log (n_rcv n))) (r_log (run (r_step (rctx c)) (n_rcv n) es)))\<rparr>"

lemma sender_ran_Cons: "sender_ran c (e # es) n = sender_ran c es (sender_does c e n)"
proof -
  obtain new where "s_out (s_step c (n_snd n) e) = s_out (n_snd n) @ new"
    using s_step_grows [of "n_snd n" c e] by (auto simp: out_grows_def)
  moreover obtain new' where "s_out (run (s_step c) (s_step c (n_snd n) e) es) = s_out (s_step c (n_snd n) e) @ new'"
    using run_grows by blast
  ultimately show ?thesis by (simp add: sender_ran_def sender_does_def Let_def)
qed

lemma receiver_ran_Cons: "receiver_ran c (e # es) n = receiver_ran c es (receiver_does c e n)"
proof -
  obtain new where "r_log (r_step (rctx c) (n_rcv n) e) = r_log (n_rcv n) @ new"
    using r_step_grows [of "n_rcv n" "rctx c" e] by (auto simp: log_grows_def)
  moreover obtain new' where "r_log (run (r_step (rctx c)) (r_step (rctx c) (n_rcv n) e) es) =
      r_log (r_step (rctx c) (n_rcv n) e) @ new'"
    using run_log_grows by blast
  ultimately show ?thesis by (simp add: receiver_ran_def receiver_does_def Let_def)
qed

lemma reach_sender_ran:
  "net_reach c n \<Longrightarrow> list_all (\<lambda>e. \<forall>fr. e \<noteq> Message fr) es \<Longrightarrow> net_reach c (sender_ran c es n)"
proof (induction es arbitrary: n)
  case Nil
  then show ?case by (simp add: sender_ran_def)
next
  case (Cons e es)
  have "net_reach c (sender_does c e n)" using Cons.prems by (auto intro: net_reach.after sender_alone)
  then show ?case using Cons by (simp add: sender_ran_Cons)
qed

lemma reach_receiver_ran:
  "net_reach c n \<Longrightarrow> list_all (\<lambda>e. e = R_settle) es \<Longrightarrow> net_reach c (receiver_ran c es n)"
proof (induction es arbitrary: n)
  case Nil
  then show ?case by (simp add: receiver_ran_def)
next
  case (Cons e es)
  have "net_reach c (receiver_does c e n)" using Cons.prems by (auto intro: net_reach.after receiver_alone)
  then show ?case using Cons by (simp add: receiver_ran_Cons)
qed

lemma reach_delivered:
  assumes "net_reach c n" "n_fwd n = fr # rest" "list_all (\<lambda>e. e = R_settle) es"
  shows "net_reach c (receiver_ran c (R_frame fr # es) (n\<lparr>n_fwd := rest\<rparr>))"
  unfolding receiver_ran_Cons
  using assms by (intro reach_receiver_ran) (auto intro: net_reach.after to_receiver)

lemma reach_acked:
  assumes "net_reach c n" "n_back n = fr # rest"
  shows "net_reach c (sender_does c (Message fr) (n\<lparr>n_back := rest\<rparr>))"
  using assms by (auto intro: net_reach.after to_sender)

text \<open>All is quiet, \<open>k\<close> chunks were sent, written and acknowledged.\<close>

definition so_far :: "send_ctx \<Rightarrow> nat \<Rightarrow> r_out list" where
  "so_far c k = Call (file_start c) # concat (map (chunk_outs c) [0..<k])"

definition net_at :: "send_ctx \<Rightarrow> nat \<Rightarrow> net" where
  "net_at c k = \<lparr>n_snd = at_read c k (int k - 1), n_rcv = awaiting c k (so_far c k), n_fwd = [], n_back = []\<rparr>"

lemma frames_of_at_read [simp]: "s_out (at_read c k a) = frames_upto c k" "r_log (awaiting c k L) = L"
  by (simp_all add: at_read_def awaiting_def)

lemma reach_net_at_0:
  assumes "good_ctx c"
  shows "net_reach c (net_at c 0)"
proof -
  let ?n = "sender_ran c [Settle, Settle] net_init"
  have n: "?n = \<lparr>n_snd = at_read c 0 (- 1), n_rcv = r_init, n_fwd = [meta_frame c], n_back = []\<rparr>"
    unfolding sender_ran_def net_init_def net.simps net.update_convs start_run [OF assms]
    by (simp add: s_init_def frames_upto_def)
  have "net_reach c ?n" by (rule reach_sender_ran [OF at_start]) simp
  then have "net_reach c (receiver_ran c (R_frame (meta_frame c) # [R_settle, R_settle, R_settle]) (?n\<lparr>n_fwd := []\<rparr>))"
    by (rule reach_delivered) (simp_all add: n)
  moreover have "receiver_ran c (R_frame (meta_frame c) # [R_settle, R_settle, R_settle]) (?n\<lparr>n_fwd := []\<rparr>) = net_at c 0"
    unfolding receiver_ran_def n net.simps net.update_convs recv_meta_run [OF assms]
    by (simp add: net_at_def so_far_def) (simp add: r_init_def)
  ultimately show ?thesis by simp
qed

lemma sender_ran_eq:
  "run (s_step c) (n_snd n) es = s' \<Longrightarrow> s_out s' = s_out (n_snd n) @ new \<Longrightarrow>
   sender_ran c es n = n\<lparr>n_snd := s', n_fwd := n_fwd n @ new\<rparr>"
  by (simp add: sender_ran_def)

lemma receiver_ran_eq:
  "run (r_step (rctx c)) (n_rcv n) es = r' \<Longrightarrow> r_log r' = r_log (n_rcv n) @ new \<Longrightarrow>
   receiver_ran c es n = n\<lparr>n_rcv := r', n_back := n_back n @ sent_frames new\<rparr>"
  by (simp add: receiver_ran_def)

text \<open>Chunk \<open>k\<close> is on its way, has been handled and its acknowledgement is on the way back.\<close>

lemma chunk_there:
  assumes ok: "sys_ok c" and reach: "net_reach c (net_at c k)" and k: "k < total c"
    and a: "run (s_step c) (at_read c k (int k - 1)) [Settle, Settle] = s'" "s_out s' = frames_upto c (Suc k)"
    and r: "run (r_step (rctx c)) (awaiting c k (so_far c k)) [R_frame (chunk_frame_of c k), R_settle, R_settle] = r'"
      "r_log r' = so_far c k @ chunk_outs c k @ map Call cs"
  shows "net_reach c \<lparr>n_snd = s', n_rcv = r', n_fwd = [], n_back = [ack_frame c (int k)]\<rparr>"
proof -
  let ?n1 = "\<lparr>n_snd = s', n_rcv = awaiting c k (so_far c k), n_fwd = [chunk_frame_of c k], n_back = []\<rparr>"
  have "sender_ran c [Settle, Settle] (net_at c k) = (net_at c k)\<lparr>n_snd := s', n_fwd := n_fwd (net_at c k) @ [chunk_frame_of c k]\<rparr>"
    by (rule sender_ran_eq) (simp_all only: net_at_def net.simps a frames_of_at_read frames_upto_Suc)
  moreover have "net_reach c (sender_ran c [Settle, Settle] (net_at c k))" by (rule reach_sender_ran [OF reach]) simp
  ultimately have n1: "net_reach c ?n1" by (simp add: net_at_def)
  have "sent_frames (chunk_outs c k @ map Call cs) = [ack_frame c (int k)]"
    by (simp add: chunk_outs_def ack_out_def ack_frame_def)
  moreover have "receiver_ran c [R_frame (chunk_frame_of c k), R_settle, R_settle] (?n1\<lparr>n_fwd := []\<rparr>) =
      (?n1\<lparr>n_fwd := []\<rparr>)\<lparr>n_rcv := r', n_back := n_back (?n1\<lparr>n_fwd := []\<rparr>) @ sent_frames (chunk_outs c k @ map Call cs)\<rparr>"
    by (rule receiver_ran_eq) (simp_all only: net.simps net.update_convs r frames_of_at_read)
  moreover have "net_reach c (receiver_ran c (R_frame (chunk_frame_of c k) # [R_settle, R_settle]) (?n1\<lparr>n_fwd := []\<rparr>))"
    by (rule reach_delivered [OF n1]) simp_all
  ultimately show ?thesis by simp
qed

lemma chunk_round:
  assumes ok: "sys_ok c" and reach: "net_reach c (net_at c k)" and k: "Suc k < total c"
  shows "net_reach c (net_at c (Suc k))"
proof -
  have good: "good_ctx c" and small: "k < 2 ^ 64" using ok k by (simp_all add: sys_ok_def)
  have nl: "\<not> isLast_chunk (sc_file c) k" using k by (simp add: isLast_chunk_def)
  let ?a = "at_read c (Suc k) (int k - 1)"
  let ?n = "\<lparr>n_snd = ?a, n_rcv = awaiting c (Suc k) (so_far c (Suc k)), n_fwd = [], n_back = [ack_frame c (int k)]\<rparr>"
  have "net_reach c ?n"
  proof (rule chunk_there [OF ok reach, where cs = "[]"])
    show "run (s_step c) (at_read c k (int k - 1)) [Settle, Settle] = ?a"
      unfolding send_chunk_run [OF good] by (rule after_chunk_more [OF k]) (simp add: WINDOW_SIZE_def)
    show "run (r_step (rctx c)) (awaiting c k (so_far c k)) [R_frame (chunk_frame_of c k), R_settle, R_settle] =
        awaiting c (Suc k) (so_far c (Suc k))"
      using nl by (simp only: recv_chunk_run [OF good small] if_False) (simp add: so_far_def)
  qed (use k in \<open>simp_all add: so_far_def\<close>)
  then have "net_reach c (sender_does c (Message (ack_frame c (int k))) (?n\<lparr>n_back := []\<rparr>))"
    by (rule reach_acked) simp
  moreover have "s_step c ?a (Message (ack_frame c (int k))) = at_read c (Suc k) (int k)"
    by (simp add: at_read_def s_listening_def s_onMessage_def s_wake_def)
  then have "sender_does c (Message (ack_frame c (int k))) (?n\<lparr>n_back := []\<rparr>) = net_at c (Suc k)"
    unfolding sender_does_def net.simps net.update_convs Let_def by (simp only:) (simp add: net_at_def)
  ultimately show ?thesis by simp
qed

lemma reach_net_at:
  assumes "sys_ok c" "k < total c"
  shows "net_reach c (net_at c k)"
  using assms(2)
proof (induction k)
  case 0
  then show ?case using reach_net_at_0 assms(1) by (simp add: sys_ok_def)
next
  case (Suc k)
  then show ?case using chunk_round [OF assms(1)] by simp
qed

lemma last_round:
  assumes ok: "sys_ok c" and reach: "net_reach c (net_at c k)" and k: "Suc k = total c"
  shows "\<exists>n. net_reach c n \<and> s_phase (n_snd n) = Settled (Inr ()) \<and>
    r_log (n_rcv n) = so_far c (Suc k) @ [Call (OnFileComplete (fileIdHex c))]"
proof -
  have good: "good_ctx c" and small: "k < 2 ^ 64" using ok k by (simp_all add: sys_ok_def)
  have l: "isLast_chunk (sc_file c) k" using k by (simp add: isLast_chunk_def)
  let ?a = "after_chunk c k (int k - 1)"
  let ?m = "Message (ack_frame c (int k))"
  have "run (s_step c) (at_read c k (int k - 1)) ([Settle, Settle] @ [?m]) = s_step c ?a ?m"
    unfolding run_append [of _ _ "[Settle, Settle]"] send_chunk_run [OF good] by (simp only: run_Cons run_Nil)
  then have fin: "s_phase (s_step c ?a ?m) = Settled (Inr ())"
    using acked_chunk_final [OF good k] by (simp only: append.simps)
  let ?L = "so_far c k @ chunk_outs c k @ [Call (OnFileComplete (fileIdHex c))]"
  let ?n = "\<lparr>n_snd = ?a, n_rcv = r_init\<lparr>r_log := ?L\<rparr>, n_fwd = [], n_back = [ack_frame c (int k)]\<rparr>"
  have "net_reach c ?n"
  proof (rule chunk_there [OF ok reach, where cs = "[OnFileComplete (fileIdHex c)]"])
    show "run (s_step c) (at_read c k (int k - 1)) [Settle, Settle] = ?a" by (rule send_chunk_run [OF good])
    show "s_out ?a = frames_upto c (Suc k)"
      using k by (simp add: after_chunk_def s_loop_def s_final_def at_read_def)
    show "run (r_step (rctx c)) (awaiting c k (so_far c k)) [R_frame (chunk_frame_of c k), R_settle, R_settle] =
        r_init\<lparr>r_log := ?L\<rparr>"
      using l by (simp only: recv_chunk_run [OF good small] if_True)
  qed (use k in simp_all)
  then have "net_reach c (sender_does c ?m (?n\<lparr>n_back := []\<rparr>))" (is "net_reach c ?n3")
    by (rule reach_acked) simp
  moreover have "s_phase (n_snd ?n3) = Settled (Inr ())" "r_log (n_rcv ?n3) = ?L"
    unfolding sender_does_def Let_def net.simps net.update_convs fin by simp_all
  ultimately show ?thesis by (auto simp: so_far_def)
qed

text \<open>C4. Sender and receiver together can always finish: for every file there is a run of the system
  in which \<open>sendFile\<close> resolves and the receiver has called \<open>onFileStart\<close>, \<open>onChunk\<close> for each
  chunk with its acknowledgement, and \<open>onFileComplete\<close>, in this order.\<close>

theorem transfer_completes:
  assumes "webcrypto_lawful (sc_wc c)" "length (sc_epochKey c) = 32" "length (sc_fileId c) = 16"
    and "totalChunks (sc_file c) \<le> 2 ^ 64"
  shows "\<exists>n. net_reach c n \<and> s_phase (n_snd n) = Settled (Inr ()) \<and>
    r_log (n_rcv n) = Call (file_start c) # concat (map (chunk_outs c) [0..<totalChunks (sc_file c)]) @
      [Call (OnFileComplete (fileIdHex c))]"
proof -
  have ok: "sys_ok c" using assms by (simp add: sys_ok_def good_ctx_def)
  obtain k where k: "total c = Suc k" using total_pos_ctx [of c] gr0_implies_Suc by blast
  then have "net_reach c (net_at c k)" by (intro reach_net_at [OF ok]) simp
  from last_round [OF ok this k [symmetric]] show ?thesis by (simp add: k so_far_def)
qed

subsection \<open>Concrete transfers\<close>

theorem transfer_completes_witness:
  "\<exists>n. net_reach nine_chunks n \<and> s_phase (n_snd n) = Settled (Inr ()) \<and>
    r_log (n_rcv n) = Call (file_start nine_chunks) #
      concat (map (chunk_outs nine_chunks) [0..<totalChunks (sc_file nine_chunks)]) @
      [Call (OnFileComplete (fileIdHex nine_chunks))]"
  by (rule transfer_completes) (simp_all only: total_nine_chunks, simp_all add: nine_chunks_def demo_crypto_lawful)

lemma one_chunk_ctx:
  "webcrypto_lawful (sc_wc one_chunk)" "length (sc_epochKey one_chunk) = 32" "length (sc_fileId one_chunk) = 16"
  "totalChunks (sc_file one_chunk) \<le> 2 ^ 64"
  by (simp_all add: total_one_chunk) (simp_all add: one_chunk_def demo_crypto_lawful)

lemma one_chunk_sys: "sys_ok one_chunk"
  using one_chunk_ctx by (simp add: sys_ok_def good_ctx_def)

theorem transfer_delivers_prefix_witness:
  "handed (r_log (n_rcv (net_at one_chunk 0))) = [] \<or>
    (\<exists>k \<le> totalChunks (sc_file one_chunk). handed (r_log (n_rcv (net_at one_chunk 0))) =
       file_start one_chunk # map (chunk_call one_chunk) [0..<k])"
  by (rule transfer_delivers_prefix [OF reach_net_at_0 one_chunk_ctx])
    (simp add: good_ctx_def one_chunk_ctx)

theorem transfer_resolved_delivered_witness:
  "\<exists>n. net_reach one_chunk n \<and> s_phase (n_snd n) = Settled (Inr ()) \<and>
     handed (r_log (n_rcv n)) = file_start one_chunk # map (chunk_call one_chunk) [0..<totalChunks (sc_file one_chunk)] \<and>
     concat [pt. OnChunk f i l pt \<leftarrow> handed (r_log (n_rcv n))] = f_content (sc_file one_chunk)"
proof -
  have "net_reach one_chunk (net_at one_chunk 0)" by (rule reach_net_at [OF one_chunk_sys]) simp
  then obtain n where "net_reach one_chunk n" "s_phase (n_snd n) = Settled (Inr ())"
    using last_round [OF one_chunk_sys, of 0] by (auto simp: total_one_chunk)
  then show ?thesis using transfer_resolved_delivered [OF _ one_chunk_ctx] by blast
qed

end
