(* ===== verification/PairingLink.thy ===== *)
theory PairingLink
  imports Hex Base64url Json
begin

section \<open>Pairing links and codes (web/pairing.js)\<close>

text \<open>
  The link a receiver shows as a QR code, \<open>buildPairingURL\<close> and \<open>parsePairingText\<close>, over the parts
  of the platform they use: the fragment setter of \<open>URL\<close>, \<open>String.trim\<close> and \<open>URLSearchParams\<close> with
  its percent-decoding. The page's own address without query and fragment is the parameter
  \<open>base\<close>. The second part is the six-digit code: how it is shown, and how the input field and the
  button of the sender read what was typed.
\<close>

subsection \<open>URL syntax\<close>

text \<open>The fragment percent-encode set over code units up to 255; tabs and newlines are dropped.\<close>

definition hex_digit_upper :: "nat \<Rightarrow> char" where
  "hex_digit_upper d = (if d < 10 then char_of (48 + d) else char_of (55 + d))"

definition percent_byte :: "byte \<Rightarrow> string" where
  "percent_byte b = [CHR ''%'', hex_digit_upper (unat b div 16), hex_digit_upper (unat b mod 16)]"

definition in_fragment_set :: "char \<Rightarrow> bool" where
  "in_fragment_set c = (let n = of_char c :: nat in n < 32 \<or> 126 < n \<or> n \<in> {32, 34, 60, 62, 96})"

definition fragment_encode :: "string \<Rightarrow> string" where
  "fragment_encode s = concat (map (\<lambda>c. if in_fragment_set c then concat (map percent_byte (utf8_unit c)) else [c])
     (filter (\<lambda>c. (of_char c :: nat) \<notin> {9, 10, 13}) s))"

definition trim :: "string \<Rightarrow> string" where
  "trim s = rev (dropWhile is_js_space (rev (dropWhile is_js_space s)))"

fun split_on :: "char \<Rightarrow> string \<Rightarrow> string list" where
  "split_on d [] = [[]]"
| "split_on d (c # s) =
     (if c = d then [] # split_on d s
      else case split_on d s of [] \<Rightarrow> [[c]] | p # ps \<Rightarrow> (c # p) # ps)"

text \<open>Percent-decoding of bytes: a \<open>%\<close> that no two hex digits follow stays.\<close>

fun percent_decode :: "bytes \<Rightarrow> bytes" where
  "percent_decode (p # a # b # r) =
     (case (if p = 37 then hex_value (char_of (unat a)) else None,
            if p = 37 then hex_value (char_of (unat b)) else None) of
        (Some x, Some y) \<Rightarrow> of_nat (x * 16 + y) # percent_decode r
      | _ \<Rightarrow> p # percent_decode (a # b # r))"
| "percent_decode bs = bs"

text \<open>A name or value of \<open>application/x-www-form-urlencoded\<close>.\<close>

definition form_decode :: "string \<Rightarrow> string" where
  "form_decode s = utf8_text (percent_decode (utf8_encode (replace_all (CHR ''+'') (CHR '' '') s)))"

definition form_pair :: "string \<Rightarrow> string \<times> string" where
  "form_pair s = (form_decode (takeWhile (\<lambda>c. c \<noteq> CHR ''='') s),
                  form_decode (drop 1 (dropWhile (\<lambda>c. c \<noteq> CHR ''='') s)))"

text \<open>\<open>new URLSearchParams(s)\<close> and its \<open>get\<close>.\<close>

definition search_params :: "string \<Rightarrow> (string \<times> string) list" where
  "search_params s = (let q = (if s \<noteq> [] \<and> hd s = CHR ''?'' then tl s else s) in
     map form_pair (filter (\<lambda>p. p \<noteq> []) (split_on (CHR ''&'') q)))"

definition params_get :: "(string \<times> string) list \<Rightarrow> string \<Rightarrow> string option" where
  "params_get ps k = map_of ps k"

subsection \<open>buildPairingURL and parsePairingText\<close>

definition SESSION_KEY_BYTES :: nat where "SESSION_KEY_BYTES = 32"

definition buildPairingURL :: "string \<Rightarrow> string \<Rightarrow> bytes \<Rightarrow> string" where
  "buildPairingURL base sessionId sessionKey =
     base @ ''#'' @ fragment_encode (''s='' @ sessionId @ ''&k='' @ encode sessionKey)"

definition parsePairingText :: "string \<Rightarrow> (string \<times> bytes) option" where
  "parsePairingText text' =
     (let hash0 = trim text';
          hash = (if CHR ''#'' \<in> set hash0 then drop 1 (dropWhile (\<lambda>c. c \<noteq> CHR ''#'') hash0) else hash0);
          params = search_params hash
      in case (params_get params ''s'', params_get params ''k'') of
           (Some sessionId, Some keyStr) \<Rightarrow>
             if sessionId = [] \<or> keyStr = [] then None
             else (case decode keyStr of
                     Inl _ \<Rightarrow> None
                   | Inr sessionKey \<Rightarrow>
                       if length sessionKey \<noteq> SESSION_KEY_BYTES then None
                       else Some (sessionId, sessionKey))
         | _ \<Rightarrow> None)"

subsection \<open>Codes\<close>

text \<open>\<open>value.replace(/\D/g, "")\<close>, the formatting of the code field and of the code shown.\<close>

definition digits_only :: "string \<Rightarrow> string" where
  "digits_only s = filter is_digit s"

definition code_input :: "string \<Rightarrow> string" where
  "code_input value' = (let digits = take 6 (digits_only value') in
     if length digits > 3 then take 3 digits @ ''-'' @ drop 3 digits else digits)"

definition shown_code :: "string \<Rightarrow> string" where
  "shown_code code = take 3 code @ ''-'' @ drop 3 code"

text \<open>What the button does with the field: the code to join with, or none.\<close>

definition code_submitted :: "string \<Rightarrow> string option" where
  "code_submitted value' = (let digits = digits_only value' in if length digits \<noteq> 6 then None else Some digits)"

subsection \<open>Reading a link back\<close>

definition plain_char :: "char \<Rightarrow> bool" where
  "plain_char c \<longleftrightarrow> c \<in> set url_chars"

definition url_char_ok :: "char \<Rightarrow> bool" where
  "url_char_ok c \<longleftrightarrow> \<not> in_fragment_set c \<and> \<not> is_js_space c \<and> (of_char c :: nat) < 128 \<and>
     c \<notin> {CHR ''#'', CHR ''&'', CHR ''='', CHR ''+'', CHR ''%'', CHR ''?''} \<and> (of_char c :: nat) \<notin> {9, 10, 13}"

lemma url_chars_ok: "list_all url_char_ok url_chars"
  by code_simp

lemma plain_char_ok: "plain_char c \<Longrightarrow> url_char_ok c"
  using url_chars_ok by (simp add: plain_char_def list_all_iff)

definition plain_text :: "string \<Rightarrow> bool" where
  "plain_text s \<longleftrightarrow> (\<forall>c \<in> set s. plain_char c)"

lemma plain_text_char: "plain_text s \<Longrightarrow> c \<in> set s \<Longrightarrow> url_char_ok c"
  by (simp add: plain_text_def plain_char_ok)

lemma plain_encode: "plain_text (encode k)"
  using set_encode by (auto simp: plain_text_def plain_char_def)

lemma fragment_encode_ok:
  "(\<forall>c \<in> set s. \<not> in_fragment_set c \<and> (of_char c :: nat) \<notin> {9, 10, 13}) \<Longrightarrow> fragment_encode s = s"
  by (induction s) (simp_all add: fragment_encode_def)

lemma percent_decode_step: "p \<noteq> 37 \<Longrightarrow> percent_decode (p # bs) = p # percent_decode bs"
  by (cases "(p # bs)" rule: percent_decode.cases) simp_all

lemma percent_decode_plain: "37 \<notin> set bs \<Longrightarrow> percent_decode bs = bs"
  by (induction bs) (simp_all add: percent_decode_step del: percent_decode.simps(1))

lemma utf8_unit_ascii: "(of_char c :: nat) < 128 \<Longrightarrow> utf8_unit c = [of_nat (of_char c)]"
  by (simp add: utf8_unit_def)

lemma no_percent_byte:
  assumes "(of_char c :: nat) < 128" "c \<noteq> CHR ''%''"
  shows "37 \<notin> set (utf8_unit c)"
proof
  assume "37 \<in> set (utf8_unit c)"
  then have "(of_nat (of_char c) :: byte) = 37" using assms by (simp add: utf8_unit_ascii)
  then have "unat (of_nat (of_char c) :: byte) = unat (37 :: byte)" by simp
  then have "of_char c = (37 :: nat)" using assms(1) by (simp add: unat_small)
  then have "c = CHR ''%''" by (simp add: char_eq_nat)
  with assms(2) show False by simp
qed

lemma form_decode_plain:
  assumes "\<forall>c \<in> set s. (of_char c :: nat) < 128 \<and> c \<noteq> CHR ''%'' \<and> c \<noteq> CHR ''+''"
  shows "form_decode s = s"
proof -
  have "c \<noteq> CHR ''+''" if "c \<in> set s" for c using assms that by blast
  then have "replace_all (CHR ''+'') (CHR '' '') s = s"
    unfolding replace_all_def by (intro map_idI) (simp only: if_False)
  moreover have "37 \<notin> set (utf8_unit c)" if "c \<in> set s" for c
    using assms that by (intro no_percent_byte) blast+
  then have "37 \<notin> set (utf8_encode s)" unfolding utf8_encode_def set_concat set_map by blast
  ultimately show ?thesis by (simp add: form_decode_def percent_decode_plain)
qed

lemma split_on_plain: "d \<notin> set s \<Longrightarrow> split_on d s = [s]"
  by (induction s) auto

lemma split_on_append: "d \<notin> set s \<Longrightarrow> split_on d (s @ d # r) = s # split_on d r"
  by (induction s) auto

lemma dropWhile_to: "c \<notin> set s \<Longrightarrow> dropWhile (\<lambda>x. x \<noteq> c) (s @ c # r) = c # r"
  by (induction s) auto

lemma takeWhile_to: "c \<notin> set s \<Longrightarrow> takeWhile (\<lambda>x. x \<noteq> c) (s @ c # r) = s"
  by (induction s) auto

lemma form_pair_plain:
  assumes "plain_text k" "plain_text v"
  shows "form_pair (k @ CHR ''='' # v) = (k, v)"
proof -
  have "CHR ''='' \<notin> set k" using assms(1) plain_text_char by (fastforce simp: url_char_ok_def)
  moreover have "form_decode k = k" "form_decode v = v"
    using assms plain_text_char by (fastforce intro!: form_decode_plain simp: url_char_ok_def)+
  ultimately show ?thesis by (simp add: form_pair_def takeWhile_to dropWhile_to)
qed

lemma plain_names: "plain_text ''s''" "plain_text ''k''"
  by (simp_all add: plain_text_def plain_char_def url_chars_def)

lemma plain_no:
  assumes "plain_text s"
  shows "CHR ''#'' \<notin> set s" "CHR ''&'' \<notin> set s" "CHR ''='' \<notin> set s"
  using plain_text_char [OF assms] unfolding url_char_ok_def by blast+

definition link_fragment :: "string \<Rightarrow> string \<Rightarrow> string" where
  "link_fragment sid k = (''s='' @ sid) @ CHR ''&'' # ''k='' @ k"

lemma search_params_fragment:
  assumes "plain_text sid" "plain_text k"
  shows "search_params (link_fragment sid k) = [(''s'', sid), (''k'', k)]"
proof -
  have "CHR ''&'' \<notin> set (''s='' @ sid)" "CHR ''&'' \<notin> set (''k='' @ k)" using assms plain_no by simp_all
  then have "split_on (CHR ''&'') (link_fragment sid k) = [''s='' @ sid, ''k='' @ k]"
    unfolding link_fragment_def by (subst split_on_append) (simp_all add: split_on_plain del: append.simps split_on.simps)
  moreover have "form_pair (''s='' @ sid) = (''s'', sid)" "form_pair (''k='' @ k) = (''k'', k)"
    using form_pair_plain [OF plain_names(1) assms(1)] form_pair_plain [OF plain_names(2) assms(2)] by simp_all
  moreover have "hd (link_fragment sid k) \<noteq> CHR ''?''" by (simp add: link_fragment_def)
  ultimately show ?thesis by (simp add: search_params_def Let_def)
qed

lemma fragment_plain:
  assumes "plain_text sid" "plain_text k"
  shows "fragment_encode (link_fragment sid k) = link_fragment sid k"
proof (rule fragment_encode_ok, rule ballI)
  fix c
  assume "c \<in> set (link_fragment sid k)"
  then have "c \<in> set sid \<union> set k \<union> {CHR ''s'', CHR ''='', CHR ''&'', CHR ''k''}"
    by (auto simp: link_fragment_def)
  moreover have "\<not> in_fragment_set c \<and> (of_char c :: nat) \<notin> {9, 10, 13}" if "c \<in> set sid \<union> set k"
    using that assms plain_text_char unfolding url_char_ok_def by blast
  moreover have "\<not> in_fragment_set c \<and> (of_char c :: nat) \<notin> {9, 10, 13}"
    if "c \<in> {CHR ''s'', CHR ''='', CHR ''&'', CHR ''k''}" using that by (auto simp: in_fragment_set_def)
  ultimately show "\<not> in_fragment_set c \<and> (of_char c :: nat) \<notin> {9, 10, 13}" by blast
qed

lemma trim_end:
  assumes "s \<noteq> []" "\<not> is_js_space (last s)" "CHR ''#'' \<notin> set p"
  shows "\<exists>p'. trim (p @ CHR ''#'' # s) = p' @ CHR ''#'' # s \<and> CHR ''#'' \<notin> set p'"
proof -
  let ?p = "dropWhile is_js_space p"
  have "dropWhile is_js_space (p @ CHR ''#'' # s) = ?p @ CHR ''#'' # s"
  proof (cases "\<forall>c \<in> set p. is_js_space c")
    case True
    then have "?p = []" by (simp add: dropWhile_eq_Nil_conv)
    moreover have "dropWhile is_js_space (p @ CHR ''#'' # s) = dropWhile is_js_space (CHR ''#'' # s)"
      using True by (intro dropWhile_append2) blast
    moreover have "\<not> is_js_space (CHR ''#'')" by (simp add: is_js_space_def)
    ultimately show ?thesis by simp
  next
    case False
    then show ?thesis by (auto intro: dropWhile_append1)
  qed
  moreover obtain t l where "s = t @ [l]" using assms(1) by (cases s rule: rev_cases) auto
  ultimately have "trim (p @ CHR ''#'' # s) = ?p @ CHR ''#'' # s"
    using assms(2) by (simp add: trim_def)
  then show ?thesis using assms(3) set_dropWhileD by fastforce
qed

lemma link_read:
  assumes "sessionId \<noteq> []" "set sessionId \<subseteq> set url_chars" "length sessionKey = 32"
    and "CHR ''#'' \<notin> set base"
  shows "parsePairingText (buildPairingURL base sessionId sessionKey) = Some (sessionId, sessionKey)"
proof -
  have sid: "plain_text sessionId" using assms(2) by (auto simp: plain_text_def plain_char_def)
  have k: "plain_text (encode sessionKey)" by (rule plain_encode)
  let ?f = "link_fragment sessionId (encode sessionKey)"
  have url: "buildPairingURL base sessionId sessionKey = base @ CHR ''#'' # ?f"
    using fragment_plain [OF sid k] by (simp add: buildPairingURL_def link_fragment_def)
  have ne: "encode sessionKey \<noteq> []" using assms(3) length_encode [of sessionKey] by auto
  then have "last ?f \<in> set (encode sessionKey)" by (simp add: link_fragment_def)
  then have "\<not> is_js_space (last ?f)" using plain_text_char [OF k] unfolding url_char_ok_def by blast
  moreover have "?f \<noteq> []" by (simp add: link_fragment_def)
  ultimately obtain p where p: "trim (base @ CHR ''#'' # ?f) = p @ CHR ''#'' # ?f" "CHR ''#'' \<notin> set p"
    using trim_end assms(4) by blast
  then have "drop 1 (dropWhile (\<lambda>c. c \<noteq> CHR ''#'') (trim (base @ CHR ''#'' # ?f))) = ?f"
    by (simp add: dropWhile_to)
  moreover have "CHR ''#'' \<in> set (trim (base @ CHR ''#'' # ?f))" using p by simp
  ultimately show ?thesis
    using assms(1,3) ne
    by (simp add: url parsePairingText_def search_params_fragment [OF sid k] params_get_def decode_encode
        SESSION_KEY_BYTES_def)
qed

text \<open>C21. The sender reads from the receiver's link exactly the session id and the session key the
  receiver put there, whether the link is pasted with white space around it, scanned, or only its
  fragment is given: for every id over the base64url alphabet and every key of 32 bytes.\<close>

theorem pairing_link_roundtrip:
  assumes "sessionId \<noteq> []" "set sessionId \<subseteq> set url_chars" "length sessionKey = 32"
    and "CHR ''#'' \<notin> set base"
  shows "parsePairingText (buildPairingURL base sessionId sessionKey) = Some (sessionId, sessionKey)"
  using assms by (rule link_read)

text \<open>Whatever text is pasted or scanned, \<open>parsePairingText\<close> accepts it only with a session id that
  is not empty and a key of exactly 32 bytes.\<close>

theorem parsed_link_well_formed:
  assumes "parsePairingText txt' = Some (sessionId, sessionKey)"
  shows "sessionId \<noteq> [] \<and> length sessionKey = 32"
proof -
  obtain params where "parsePairingText txt' =
      (case (params_get params ''s'', params_get params ''k'') of
         (Some sid, Some keyStr) \<Rightarrow>
           if sid = [] \<or> keyStr = [] then None
           else (case decode keyStr of Inl _ \<Rightarrow> None
                 | Inr key \<Rightarrow> if length key \<noteq> SESSION_KEY_BYTES then None else Some (sid, key))
       | _ \<Rightarrow> None)"
    unfolding parsePairingText_def Let_def by blast
  then show ?thesis
    using assms by (simp add: SESSION_KEY_BYTES_def split: option.splits if_splits sum.splits)
qed

lemma digits_only_idem: "digits_only (digits_only s) = digits_only s"
  by (simp add: digits_only_def)

lemma digits_only_id: "list_all is_digit c \<Longrightarrow> digits_only c = c"
  by (induction c) (simp_all add: digits_only_def)

lemma list_all_take: "list_all P c \<Longrightarrow> list_all P (take n c)"
  by (metis append_take_drop_id list_all_append)

lemma list_all_drop: "list_all P c \<Longrightarrow> list_all P (drop n c)"
  by (metis append_take_drop_id list_all_append)

lemma digits_of_shown:
  assumes "list_all is_digit c"
  shows "digits_only (take 3 c @ ''-'' @ drop 3 c) = c"
proof -
  have "\<not> is_digit (CHR ''-'')" by (simp add: is_digit_def)
  then have "digits_only (a @ ''-'' @ b) = digits_only a @ digits_only b" for a b by (simp add: digits_only_def)
  then have "digits_only (take 3 c @ ''-'' @ drop 3 c) = take 3 c @ drop 3 c"
    using digits_only_id list_all_take [OF assms] list_all_drop [OF assms] by (simp only:)
  then show ?thesis by (simp only: append_take_drop_id)
qed

lemma digits_only_all: "list_all is_digit (digits_only v)"
  by (simp add: digits_only_def list_all_iff)

lemma digits_code_input: "digits_only (code_input v) = take 6 (digits_only v)"
proof -
  have all: "list_all is_digit (take 6 (digits_only v))" by (rule list_all_take [OF digits_only_all])
  show ?thesis
    unfolding code_input_def Let_def using digits_of_shown [OF all] digits_only_id [OF all] by (simp only: split: if_split)
      simp
qed

text \<open>C22. The code field: formatting keeps the digits typed (the first six), formatting twice changes
  nothing, and typing the code as the receiver's screen shows it submits that code; nothing but six
  digits is ever submitted.\<close>

theorem code_entry:
  assumes "length code = 6" "list_all is_digit code"
  shows "code_submitted (code_input (shown_code code)) = Some code \<and>
    code_input (code_input v) = code_input v \<and>
    digits_only (code_input v) = take 6 (digits_only v) \<and>
    (case code_submitted v of None \<Rightarrow> True | Some d \<Rightarrow> length d = 6 \<and> list_all is_digit d)"
proof -
  have "digits_only (shown_code code) = code" unfolding shown_code_def by (rule digits_of_shown [OF assms(2)])
  then have "digits_only (code_input (shown_code code)) = code" using assms(1) by (simp add: digits_code_input)
  then have "code_submitted (code_input (shown_code code)) = Some code"
    using assms(1) by (simp add: code_submitted_def Let_def)
  moreover have "code_input (code_input v) = code_input v"
    unfolding code_input_def [of "code_input v"] digits_code_input by (simp add: code_input_def Let_def)
  moreover have "list_all is_digit (digits_only v)" by (rule digits_only_all)
  ultimately show ?thesis by (auto simp: digits_code_input code_submitted_def Let_def)
qed

theorem pairing_link_roundtrip_witness:
  "parsePairingText (buildPairingURL ''https://q.example/'' ''Ab-_9'' (replicate 32 200)) =
     Some (''Ab-_9'', replicate 32 200)"
  by (rule pairing_link_roundtrip) (simp_all add: url_chars_def)

theorem parsed_link_well_formed_witness:
  "''Ab-_9'' \<noteq> [] \<and> length (replicate 32 (200 :: byte)) = 32"
  by (rule parsed_link_well_formed [OF link_read [where base = "''https://q.example/''"]]) (simp_all add: url_chars_def)

theorem code_entry_witness:
  "code_submitted (code_input (shown_code ''012345'')) = Some ''012345'' \<and>
   code_input (code_input ''1a2b3c4'') = code_input ''1a2b3c4'' \<and>
   digits_only (code_input ''1a2b3c4'') = take 6 (digits_only ''1a2b3c4'') \<and>
   (case code_submitted ''1a2b3c4'' of None \<Rightarrow> True | Some d \<Rightarrow> length d = 6 \<and> list_all is_digit d)"
  by (rule code_entry) (simp_all add: is_digit_def)

end
