(* ===== verification/Pake.thy ===== *)
theory Pake
  imports Wire Crypto
begin

section \<open>Pairing by code: the PAKE wrapper and the exchange (web/pake.js, web/pairing.js)\<close>

text \<open>
  The WebAssembly module that computes the password-authenticated key exchange is not part of
  the client's sources: \<open>pake_engine\<close> holds the three calls pake.js makes of it, with the state
  the module keeps for a handle passed along as the handle. What is modelled is the client's
  part: loading the module once and waiting for it, the conversion of its results, the
  confirmation tags and their comparison, and \<open>runPakeExchange\<close> of pairing.js, an async function
  with one state for each \<open>await\<close>.
\<close>

record pake_engine =
  pk_init :: "string \<Rightarrow> nat \<Rightarrow> string + string \<times> string"
  pk_update :: "string \<Rightarrow> string \<Rightarrow> string + string \<times> string"
  pk_sessionKey :: "string \<Rightarrow> string + string"

subsection \<open>Loading the module\<close>

text \<open>
  \<open>waitFor\<close> polls a predicate every 10 ms until it holds or the time is up; \<open>now k\<close> is the clock
  at the \<open>k\<close>-th poll. Nothing bounds the number of polls but the clock, so the loop is a partial
  function and that it returns is a theorem.
\<close>

definition load_timeout :: js_error where
  "load_timeout = Error_msg ''timed out waiting for WASM PAKE module''"

partial_function (option) poll ::
  "(nat \<Rightarrow> bool) \<Rightarrow> (nat \<Rightarrow> nat) \<Rightarrow> nat \<Rightarrow> nat \<Rightarrow> nat \<Rightarrow> unit res option" where
  "poll predicate now start timeoutMs k =
     (if predicate k then Some (Inr ())
      else if now k - start > timeoutMs then Some (Inl load_timeout)
      else poll predicate now start timeoutMs (Suc k))"

definition waitFor :: "(nat \<Rightarrow> bool) \<Rightarrow> (nat \<Rightarrow> nat) \<Rightarrow> nat \<Rightarrow> unit res option" where
  "waitFor predicate now timeoutMs = poll predicate now (now 0) timeoutMs 0"

text \<open>
  \<open>goInstanceStarted\<close> and \<open>readyPromise\<close>, the latter with its outcome once it has one. The
  arguments of \<open>ensureLoaded\<close> are what importing, fetching and instantiating the module and
  the wait for its global object would give if they were tried now.
\<close>

record loader =
  ld_goInstanceStarted :: bool
  ld_readyPromise :: "unit res option"

definition loader_init :: loader where
  "loader_init = \<lparr>ld_goInstanceStarted = False, ld_readyPromise = None\<rparr>"

definition ensureLoaded :: "unit res \<Rightarrow> unit res \<Rightarrow> loader \<Rightarrow> loader \<times> unit res" where
  "ensureLoaded instantiate wait l = (case ld_readyPromise l of
     Some outcome \<Rightarrow> (l, outcome)
   | None \<Rightarrow>
       let started = (if ld_goInstanceStarted l then Inr () else instantiate);
           outcome = res_bind started (\<lambda>_. wait)
       in (\<lparr>ld_goInstanceStarted = (ld_goInstanceStarted l \<or> started = Inr ()),
            ld_readyPromise = Some outcome\<rparr>, outcome))"

subsection \<open>The calls\<close>

definition engine_res :: "string + 'a \<Rightarrow> 'a res" where
  "engine_res r = (case r of Inl msg \<Rightarrow> Inl (Error_msg msg) | Inr x \<Rightarrow> Inr x)"

definition pake_init :: "pake_engine \<Rightarrow> string \<Rightarrow> nat \<Rightarrow> (string \<times> string) res" where
  "pake_init en password role = engine_res (pk_init en password role)"

definition pake_update :: "pake_engine \<Rightarrow> string \<Rightarrow> string \<Rightarrow> (string \<times> string) res" where
  "pake_update en handle message = engine_res (pk_update en handle message)"

definition pake_sessionKey :: "pake_engine \<Rightarrow> string \<Rightarrow> bytes res" where
  "pake_sessionKey en handle =
     res_bind (engine_res (pk_sessionKey en handle)) (\<lambda>hex.
       Inr (map (\<lambda>i. to_uint8 (parseInt16 (substr hex (i * 2) 2))) [0..<length hex div 2]))"

definition CONFIRM_INFO :: bytes where
  "CONFIRM_INFO = utf8_encode ''quicksend-pake-confirm''"

text \<open>\<open>importKey\<close> rejects an empty HMAC key.\<close>

definition computeConfirmTag :: "webcrypto \<Rightarrow> bytes \<Rightarrow> bytes res" where
  "computeConfirmTag wc sessionKeyBytes =
     (if sessionKeyBytes = [] then Inl Operation_error else Inr (wc_hmac wc sessionKeyBytes CONFIRM_INFO))"

definition bytesEqual :: "bytes \<Rightarrow> bytes \<Rightarrow> bool" where
  "bytesEqual a b =
     (if length a \<noteq> length b then False
      else foldl (\<lambda>diff (x, y). diff OR (x XOR y)) 0 (zip a b) = 0)"

definition verifyConfirmTag :: "webcrypto \<Rightarrow> bytes \<Rightarrow> bytes \<Rightarrow> bool res" where
  "verifyConfirmTag wc sessionKeyBytes receivedTag =
     res_bind (computeConfirmTag wc sessionKeyBytes) (\<lambda>expected. Inr (bytesEqual expected receivedTag))"

subsection \<open>runPakeExchange\<close>

text \<open>
  \<open>X_settle\<close> is the fulfilment of the promise of a pake.js call, \<open>X_frame\<close> a message on the
  socket. \<open>waitForType\<close> adds its listener when it is called, so a message that arrives in any
  other phase is seen by no listener of the exchange.
\<close>

datatype x_phase =
    X_init
  | X_wait_msg string
  | X_update string string
  | X_key string
  | X_tag bytes
  | X_wait_confirm bytes
  | X_verify bytes bytes
  | X_free bytes bool
  | X_failed js_error
  | X_done "bytes res"

record exchange =
  x_code :: string
  x_role :: nat
  x_phase :: x_phase
  x_sent :: "envelope list"

datatype x_event = X_settle | X_frame frame

definition code_mismatch :: js_error where
  "code_mismatch = Error_msg ''code_mismatch''"

definition x_send :: "envelope \<Rightarrow> exchange \<Rightarrow> exchange" where
  "x_send env x = x\<lparr>x_sent := x_sent x @ [env]\<rparr>"

definition x_go :: "'a res \<Rightarrow> ('a \<Rightarrow> exchange) \<Rightarrow> exchange \<Rightarrow> exchange" where
  "x_go r k x = (case r of Inl e \<Rightarrow> x\<lparr>x_phase := X_done (Inl e)\<rparr> | Inr v \<Rightarrow> k v)"

definition x_resume :: "webcrypto \<Rightarrow> pake_engine \<Rightarrow> exchange \<Rightarrow> exchange" where
  "x_resume wc en x = (case x_phase x of
     X_init \<Rightarrow>
       x_go (pake_init en (x_code x) (x_role x)) (\<lambda>(handle, message).
         (if x_role x = 0 then x_send (Pake_msg message) x else x)\<lparr>x_phase := X_wait_msg handle\<rparr>) x
   | X_update handle peer \<Rightarrow>
       x_go (pake_update en handle peer) (\<lambda>(handle', message).
         (if x_role x = 1 then x_send (Pake_msg message) x else x)\<lparr>x_phase := X_key handle'\<rparr>) x
   | X_key handle \<Rightarrow>
       x_go (pake_sessionKey en handle) (\<lambda>keyBytes. x\<lparr>x_phase := X_tag keyBytes\<rparr>) x
   | X_tag keyBytes \<Rightarrow>
       x_go (computeConfirmTag wc keyBytes) (\<lambda>myTag.
         (x_send (Pake_confirm (toHex myTag)) x)\<lparr>x_phase := X_wait_confirm keyBytes\<rparr>) x
   | X_verify keyBytes peerTag \<Rightarrow>
       x_go (verifyConfirmTag wc keyBytes peerTag) (\<lambda>ok. x\<lparr>x_phase := X_free keyBytes ok\<rparr>) x
   | X_free keyBytes ok \<Rightarrow>
       x\<lparr>x_phase := X_done (if ok then Inr keyBytes else Inl code_mismatch)\<rparr>
   | X_failed e \<Rightarrow> x\<lparr>x_phase := X_done (Inl e)\<rparr>
   | _ \<Rightarrow> x)"

definition x_onMessage :: "frame \<Rightarrow> exchange \<Rightarrow> exchange" where
  "x_onMessage fr x = (case x_phase x of
     X_wait_msg handle \<Rightarrow>
       (case parseEnvelope fr of
          Some (Pake_msg m) \<Rightarrow> x\<lparr>x_phase := X_update handle m\<rparr>
        | Some (Malformed ty) \<Rightarrow> if ty = ''pake_msg'' then x\<lparr>x_phase := X_failed Type_error\<rparr> else x
        | _ \<Rightarrow> x)
   | X_wait_confirm keyBytes \<Rightarrow>
       (case parseEnvelope fr of
          Some (Pake_confirm tagHex) \<Rightarrow> x\<lparr>x_phase := X_verify keyBytes (fromHex tagHex)\<rparr>
        | Some (Malformed ty) \<Rightarrow> if ty = ''pake_confirm'' then x\<lparr>x_phase := X_failed Type_error\<rparr> else x
        | _ \<Rightarrow> x)
   | _ \<Rightarrow> x)"

fun x_step :: "webcrypto \<Rightarrow> pake_engine \<Rightarrow> exchange \<Rightarrow> x_event \<Rightarrow> exchange" where
  "x_step wc en x X_settle = x_resume wc en x"
| "x_step wc en x (X_frame fr) = x_onMessage fr x"

definition x_start :: "string \<Rightarrow> nat \<Rightarrow> exchange" where
  "x_start code role = \<lparr>x_code = code, x_role = role, x_phase = X_init, x_sent = []\<rparr>"

subsection \<open>Comparing tags\<close>

lemma xor_zero_iff: "(x XOR y = 0) \<longleftrightarrow> x = (y :: byte)"
  by (auto simp: bit_eq_iff bit_simps)

lemma diff_zero:
  "foldl (\<lambda>diff (x, y). diff OR (x XOR y)) d zs = 0 \<longleftrightarrow> d = 0 \<and> (\<forall>(x, y) \<in> set zs. x = (y :: byte))"
  by (induction zs arbitrary: d) (auto simp: or_eq_0_iff xor_zero_iff)

lemma zip_eq_all: "length a = length b \<Longrightarrow> (\<forall>(x, y) \<in> set (zip a b). x = y) \<longleftrightarrow> a = b"
  by (induction a b rule: list_induct2) auto

text \<open>C23. \<open>bytesEqual\<close>, which looks at every byte of both arrays whatever they hold, is equality.\<close>

theorem bytesEqual_is_equality: "bytesEqual a b \<longleftrightarrow> a = b"
  by (auto simp: bytesEqual_def diff_zero zip_eq_all)

subsection \<open>Loading\<close>

lemma poll_found:
  assumes "predicate n" "\<And>j. k \<le> j \<Longrightarrow> j < n \<Longrightarrow> \<not> predicate j \<and> now j - start \<le> timeoutMs" "k \<le> n"
  shows "poll predicate now start timeoutMs k = Some (Inr ())"
  using assms(3,2)
proof (induction "n - k" arbitrary: k)
  case 0
  then show ?case using assms(1) by (subst poll.simps) simp
next
  case (Suc d)
  then have "k < n" by simp
  then have "\<not> predicate k" "now k - start \<le> timeoutMs" using Suc.prems(2) [of k] by simp_all
  moreover have "poll predicate now start timeoutMs (Suc k) = Some (Inr ())"
    using Suc by (intro Suc.hyps(1)) auto
  ultimately show ?case by (subst poll.simps) simp
qed

lemma poll_late:
  assumes "\<not> predicate n" "now n - start > timeoutMs"
    "\<And>j. k \<le> j \<Longrightarrow> j < n \<Longrightarrow> \<not> predicate j \<and> now j - start \<le> timeoutMs" "k \<le> n"
  shows "poll predicate now start timeoutMs k = Some (Inl load_timeout)"
  using assms(4,3)
proof (induction "n - k" arbitrary: k)
  case 0
  then show ?case using assms(1,2) by (subst poll.simps) simp
next
  case (Suc d)
  then have "k < n" by simp
  then have "\<not> predicate k" "now k - start \<le> timeoutMs" using Suc.prems(2) [of k] by simp_all
  moreover have "poll predicate now start timeoutMs (Suc k) = Some (Inl load_timeout)"
    using Suc by (intro Suc.hyps(1)) auto
  ultimately show ?case by (subst poll.simps) simp
qed

text \<open>C31. \<open>waitFor\<close> returns whenever the clock passes the timeout at some poll: it resolves if the
  predicate holds at the first poll at which it holds or the time is up, and rejects otherwise.\<close>

theorem waitFor_returns:
  assumes "now n - now 0 > timeoutMs"
  shows "let stop = (LEAST k. predicate k \<or> now k - now 0 > timeoutMs) in
    waitFor predicate now timeoutMs = Some (if predicate stop then Inr () else Inl load_timeout) \<and> stop \<le> n"
proof -
  let ?P = "\<lambda>k. predicate k \<or> now k - now 0 > timeoutMs"
  define stop where "stop = (LEAST k. ?P k)"
  have P: "?P stop" "stop \<le> n" unfolding stop_def using assms by (rule_tac LeastI [of ?P n], simp, rule_tac Least_le, simp)
  have before: "\<not> predicate j \<and> now j - now 0 \<le> timeoutMs" if "j < stop" for j
    using not_less_Least [of j ?P] that unfolding stop_def by auto
  have "waitFor predicate now timeoutMs = Some (if predicate stop then Inr () else Inl load_timeout)"
  proof (cases "predicate stop")
    case True
    then show ?thesis using poll_found [of predicate stop 0] before by (simp add: waitFor_def)
  next
    case False
    then show ?thesis using poll_late [of predicate stop] P before by (simp add: waitFor_def)
  qed
  then show ?thesis using P(2) by (simp add: stop_def)
qed

text \<open>A failed load is final: once \<open>ensureLoaded\<close> has rejected, for whatever reason, every later
  call rejects with the same error without trying again.\<close>

theorem failed_load_is_final:
  assumes "ensureLoaded i w l = (l', Inl e)"
  shows "ensureLoaded i' w' l' = (l', Inl e)"
  using assms by (auto simp: ensureLoaded_def Let_def split: option.splits)

subsection \<open>The exchange\<close>

definition confirm_tag :: "webcrypto \<Rightarrow> bytes \<Rightarrow> bytes" where
  "confirm_tag wc k = wc_hmac wc k CONFIRM_INFO"

text \<open>An exchange that has a key has compared the tag it received with its own.\<close>

definition tag_seen :: "webcrypto \<Rightarrow> bytes \<Rightarrow> x_event list \<Rightarrow> bool" where
  "tag_seen wc k evs \<longleftrightarrow> (\<exists>fr t. X_frame fr \<in> set evs \<and> parseEnvelope fr = Some (Pake_confirm t) \<and>
     fromHex t = confirm_tag wc k)"

definition x_inv :: "webcrypto \<Rightarrow> x_event list \<Rightarrow> exchange \<Rightarrow> bool" where
  "x_inv wc evs x \<longleftrightarrow> (case x_phase x of
     X_verify k tag \<Rightarrow> (\<exists>fr t. X_frame fr \<in> set evs \<and> parseEnvelope fr = Some (Pake_confirm t) \<and> fromHex t = tag)
   | X_free k ok \<Rightarrow> (if ok then tag_seen wc k evs else True)
   | X_done (Inr k) \<Rightarrow> tag_seen wc k evs
   | _ \<Rightarrow> True)"

lemma tag_seen_more: "tag_seen wc k evs \<Longrightarrow> tag_seen wc k (evs @ [e])"
  by (auto simp: tag_seen_def)

lemma x_inv_more: "x_inv wc evs x \<Longrightarrow> x_inv wc (evs @ [e]) x"
  by (auto simp: x_inv_def tag_seen_more split: x_phase.splits sum.splits)

lemma x_go_inv: "(\<And>v. r = Inr v \<Longrightarrow> x_inv wc evs (k v)) \<Longrightarrow> x_inv wc evs (x_go r k x)"
  by (cases r) (simp_all add: x_go_def x_inv_def)

lemma verify_true: "verifyConfirmTag wc k tag = Inr True \<Longrightarrow> tag = confirm_tag wc k"
  by (auto simp: verifyConfirmTag_def res_bind_eq_Inr computeConfirmTag_def confirm_tag_def bytesEqual_def
      diff_zero zip_eq_all split: if_splits)

lemma x_resume_inv:
  assumes "x_inv wc evs x"
  shows "x_inv wc evs (x_resume wc en x)"
proof (cases "x_phase x")
  case (X_verify k tag)
  have "x_inv wc evs (x\<lparr>x_phase := X_free k ok\<rparr>)" if "verifyConfirmTag wc k tag = Inr ok" for ok
    using assms X_verify that by (auto simp: x_inv_def tag_seen_def dest!: verify_true)
  then show ?thesis using X_verify by (auto simp: x_resume_def intro: x_go_inv)
next
  case (X_free k ok)
  then show ?thesis using assms by (simp add: x_resume_def x_inv_def)
qed (use assms in \<open>auto simp: x_resume_def intro!: x_go_inv\<close>, auto simp: x_inv_def x_send_def)

lemma x_step_inv: "x_inv wc evs x \<Longrightarrow> x_inv wc (evs @ [e]) (x_step wc en x e)"
proof (cases e)
  case X_settle
  assume "x_inv wc evs x"
  then show ?thesis using X_settle x_resume_inv [OF x_inv_more] by simp
next
  case (X_frame fr)
  assume inv: "x_inv wc evs x"
  then have "x_inv wc (evs @ [e]) x" by (rule x_inv_more)
  then show ?thesis
    using X_frame by (auto simp: x_onMessage_def x_inv_def split: x_phase.split option.split envelope.split)
qed

lemma x_run_inv: "x_inv wc evs (run (x_step wc en) (x_start code role) evs)"
proof (induction evs rule: rev_induct)
  case Nil
  then show ?case by (simp add: x_inv_def x_start_def)
next
  case (snoc e evs)
  then show ?case by (simp add: run_snoc x_step_inv)
qed

text \<open>C15. \<open>runPakeExchange\<close> never returns a key that was not confirmed: when it resolves with \<open>k\<close>, a
  \<open>pake_confirm\<close> message had arrived whose tag is the confirmation tag of \<open>k\<close> itself.\<close>

theorem exchange_key_confirmed:
  assumes "x_phase (run (x_step wc en) (x_start code role) evs) = X_done (Inr k)"
  shows "\<exists>fr t. X_frame fr \<in> set evs \<and> parseEnvelope fr = Some (Pake_confirm t) \<and>
    fromHex t = wc_hmac wc k CONFIRM_INFO"
  using x_run_inv [of wc evs en code role] assms by (simp add: x_inv_def tag_seen_def confirm_tag_def)

lemma pake_sessionKey_hex: "pk_sessionKey en h = Inr (toHex k) \<Longrightarrow> pake_sessionKey en h = Inr k"
  using fromHex_toHex [of k] by (simp add: pake_sessionKey_def engine_res_def fromHex_def)

definition exchange_events :: "string \<Rightarrow> bytes \<Rightarrow> x_event list" where
  "exchange_events peer_message peer_tag =
     [X_settle, X_frame (env_frame (Pake_msg peer_message)), X_settle, X_settle, X_settle,
      X_frame (env_frame (Pake_confirm (toHex peer_tag))), X_settle, X_settle]"

lemma exchange_run:
  assumes "pk_init en code role = Inr (h, m)" "pk_update en h peer = Inr (h', m')"
    "pk_sessionKey en h' = Inr (toHex k)" "k \<noteq> []" and role: "role = 0 \<or> role = 1"
  shows "run (x_step wc en) (x_start code role) (exchange_events peer tag) =
    \<lparr>x_code = code, x_role = role,
     x_phase = X_done (if confirm_tag wc k = tag then Inr k else Inl code_mismatch),
     x_sent = [Pake_msg (if role = 0 then m else m'), Pake_confirm (toHex (confirm_tag wc k))]\<rparr>"
proof -
  have i: "pake_init en code role = Inr (h, m)" and u: "pake_update en h peer = Inr (h', m')"
    using assms by (simp_all add: pake_init_def pake_update_def engine_res_def)
  have c: "computeConfirmTag wc k = Inr (confirm_tag wc k)"
    using assms(4) by (simp add: computeConfirmTag_def confirm_tag_def)
  have v: "verifyConfirmTag wc k t = Inr (confirm_tag wc k = t)" for t
    by (auto simp: verifyConfirmTag_def c bytesEqual_def diff_zero zip_eq_all)
  show ?thesis
    using role by (auto simp: exchange_events_def x_start_def x_resume_def x_go_def i u c v x_send_def
        x_onMessage_def pake_sessionKey_hex [OF assms(3)])
qed

text \<open>Host and guest, each fed the other's messages in turn, either both end with their key, or both
  with \<open>code_mismatch\<close>: they agree exactly when the tags of the keys they derived are equal; what each
  sends is its protocol message and its tag, nothing else.\<close>

theorem exchange_agrees:
  assumes "pk_init en code 0 = Inr (h, m)" "pk_init en code' 1 = Inr (g, n)"
    and "pk_update en g m = Inr (g', m')" "pk_update en h m' = Inr (h', n')"
    and "pk_sessionKey en h' = Inr (toHex kh)" "pk_sessionKey en g' = Inr (toHex kg)"
    and "kh \<noteq> []" "kg \<noteq> []"
  shows "let host = run (x_step wc en) (x_start code 0) (exchange_events m' (confirm_tag wc kg));
             guest = run (x_step wc en) (x_start code' 1) (exchange_events m (confirm_tag wc kh))
    in x_phase host = X_done (if confirm_tag wc kh = confirm_tag wc kg then Inr kh else Inl code_mismatch) \<and>
       x_phase guest = X_done (if confirm_tag wc kh = confirm_tag wc kg then Inr kg else Inl code_mismatch) \<and>
       x_sent host = [Pake_msg m, Pake_confirm (toHex (confirm_tag wc kh))] \<and>
       x_sent guest = [Pake_msg m', Pake_confirm (toHex (confirm_tag wc kg))]"
  unfolding exchange_run [OF assms(1,4,5,7) disjI1 [OF refl]] exchange_run [OF assms(2,3,6,8) disjI2 [OF refl]] Let_def
  by auto

text \<open>No further protocol message arrives.\<close>

definition no_pake :: "x_event list \<Rightarrow> bool" where
  "no_pake evs \<longleftrightarrow> list_all (\<lambda>e. case e of X_settle \<Rightarrow> True | X_frame fr \<Rightarrow>
     (case parseEnvelope fr of Some (Pake_msg _) \<Rightarrow> False | Some (Pake_confirm _) \<Rightarrow> False
      | Some (Malformed _) \<Rightarrow> False | _ \<Rightarrow> True)) evs"

lemma waiting_msg_stays:
  "no_pake evs \<Longrightarrow> x_phase x = X_wait_msg h \<Longrightarrow> run (x_step wc en) x evs = x"
  by (induction evs)
    (auto simp: no_pake_def x_resume_def x_onMessage_def split: x_event.splits option.splits envelope.splits)

text \<open>The host's message is lost when it arrives while the guest still loads the module:
  \<open>runPakeExchange\<close> listens for \<open>pake_msg\<close> only after \<open>pake.init\<close> has returned, and since the host
  sends its message once, the guest waits for it for ever.\<close>

theorem early_pake_msg_lost:
  assumes "pk_init en code 1 = Inr (h, m)" and "no_pake evs"
  shows "x_phase (run (x_step wc en) (x_start code 1)
      ([X_frame (env_frame (Pake_msg peer)), X_settle] @ evs)) = X_wait_msg h"
proof -
  let ?x = "x_start code 1"
  have "run (x_step wc en) ?x [X_frame (env_frame (Pake_msg peer)), X_settle] = ?x\<lparr>x_phase := X_wait_msg h\<rparr>"
    using assms(1) by (simp add: x_onMessage_def x_start_def x_resume_def x_go_def pake_init_def engine_res_def)
  then show ?thesis by (simp only: run_append waiting_msg_stays [OF assms(2)]) (simp add: waiting_msg_stays [OF assms(2)])
qed

subsection \<open>A concrete module for closed examples\<close>

text \<open>The key is the code itself: not a PAKE, but a function of the parameter's type.\<close>

definition demo_engine :: pake_engine where
  "demo_engine = \<lparr>pk_init = (\<lambda>code role. Inr (code, ''m'')),
     pk_update = (\<lambda>handle message. Inr (handle, ''r'')),
     pk_sessionKey = (\<lambda>handle. Inr (toHex (utf8_encode handle)))\<rparr>"

lemma utf8_123: "utf8_encode ''123'' = [49, 50, 51]"
  by (simp add: utf8_encode_def utf8_unit_def)

theorem waitFor_returns_witness:
  "let stop = (LEAST k. (k = 2) \<or> (10 * k) - (10 * 0) > (5000 :: nat)) in
     waitFor (\<lambda>k. k = 2) (\<lambda>k. 10 * k) 5000 = Some (if stop = 2 then Inr () else Inl load_timeout) \<and> stop \<le> 501"
  by (rule waitFor_returns) simp

theorem failed_load_is_final_witness:
  "ensureLoaded (Inr ()) (Inr ()) (fst (ensureLoaded (Inl Read_error) (Inr ()) loader_init)) =
     (fst (ensureLoaded (Inl Read_error) (Inr ()) loader_init), Inl Read_error)"
  by (rule failed_load_is_final [of "Inl Read_error" "Inr ()" loader_init])
    (simp add: ensureLoaded_def loader_init_def Let_def)

theorem exchange_agrees_witness:
  "let host = run (x_step demo_crypto demo_engine) (x_start ''123'' 0) (exchange_events ''r'' (confirm_tag demo_crypto [49, 50, 51]));
       guest = run (x_step demo_crypto demo_engine) (x_start ''123'' 1) (exchange_events ''m'' (confirm_tag demo_crypto [49, 50, 51]))
   in x_phase host = X_done (if confirm_tag demo_crypto [49, 50, 51] = confirm_tag demo_crypto [49, 50, 51]
        then Inr [49, 50, 51] else Inl code_mismatch) \<and>
      x_phase guest = X_done (if confirm_tag demo_crypto [49, 50, 51] = confirm_tag demo_crypto [49, 50, 51]
        then Inr [49, 50, 51] else Inl code_mismatch) \<and>
      x_sent host = [Pake_msg ''m'', Pake_confirm (toHex (confirm_tag demo_crypto [49, 50, 51]))] \<and>
      x_sent guest = [Pake_msg ''r'', Pake_confirm (toHex (confirm_tag demo_crypto [49, 50, 51]))]"
  by (rule exchange_agrees [of demo_engine "''123''" "''123''" "''m''" "''123''" "''123''" "''m''" "''123''" "''r''" "''123''" "''r''"])
    (simp_all add: demo_engine_def utf8_123)

theorem exchange_key_confirmed_witness:
  "\<exists>fr t. X_frame fr \<in> set (exchange_events ''r'' (confirm_tag demo_crypto [49, 50, 51])) \<and>
     parseEnvelope fr = Some (Pake_confirm t) \<and> fromHex t = wc_hmac demo_crypto [49, 50, 51] CONFIRM_INFO"
proof (rule exchange_key_confirmed)
  show "x_phase (run (x_step demo_crypto demo_engine) (x_start ''123'' 0)
      (exchange_events ''r'' (confirm_tag demo_crypto [49, 50, 51]))) = X_done (Inr [49, 50, 51])"
    by (subst exchange_run [where m = "''m''" and h' = "''123''" and m' = "''r''" and h = "''123''" and k = "[49, 50, 51]"]) (simp_all add: demo_engine_def utf8_123)
qed

theorem early_pake_msg_lost_witness:
  "x_phase (run (x_step demo_crypto demo_engine) (x_start ''123'' 1)
     ([X_frame (env_frame (Pake_msg ''m'')), X_settle] @ [X_settle, X_settle])) = X_wait_msg ''123''"
  by (rule early_pake_msg_lost) (simp_all add: demo_engine_def no_pake_def)

end
