(* ===== verification/Pairing.thy ===== *)
theory Pairing
  imports PairingLink Pake
begin

section \<open>Pairing, reconnection and role swap (web/pairing.js)\<close>

text \<open>
  The module's variables (\<open>currentState\<close>, \<open>activeSocket\<close>, \<open>activeStopScan\<close>,
  \<open>activeTransferHandle\<close>, \<open>swapAwaitingResponse\<close>, \<open>pendingSendFiles\<close> and the texts of the paired
  screen) with what its closures keep alive: the sockets it opened, with the listeners each
  has; the camera scans; the transfer UIs it rendered; promises and timers still pending. One
  event is one step: a click, an event of a socket, a timer, a promise that settles. Rendering
  is modelled where it does more than fill the page, which is on the scanning and on the paired
  screen; which clicks are possible depends on the screen shown.

  \<open>currentState\<close> is one JavaScript object whose properties depend on the screen, and handlers
  read and copy them whatever the screen is, so \<open>ui\<close> has them all as options; \<open>None\<close> is
  undefined (for \<open>epoch\<close> also NaN, what \<open>undefined + 1\<close> gives). An element of \<open>a_socks\<close>, \<open>a_scans\<close>,
  \<open>a_uis\<close> is named by its position; they are never removed.
\<close>

subsection \<open>State\<close>

datatype screen =
    Role_select | Code_role_select | Join_detected | Receiver_generating | Receiver_waiting
  | Sender_scanning | Sender_paste | Joining | Code_receiver_generating | Code_receiver_waiting
  | Code_sender_entry | Verifying | Paired_screen | Error_screen | Insecure_context

datatype prole = Host | Guest
datatype direction = Sending | Receiving

record ui =
  u_screen :: screen
  u_sessionId :: "string option"
  u_sessionKey :: "bytes option"
  u_url :: "string option"
  u_code :: "string option"
  u_expiresAt :: "string option"
  u_role :: "prole option"
  u_epoch :: "int option"
  u_transferRole :: "direction option"
  u_reconnectToken :: "bytes option"

definition ui_at :: "screen \<Rightarrow> ui" where
  "ui_at s = \<lparr>u_screen = s, u_sessionId = None, u_sessionKey = None, u_url = None, u_code = None,
     u_expiresAt = None, u_role = None, u_epoch = None, u_transferRole = None, u_reconnectToken = None\<rparr>"

definition ui_error :: "string option \<Rightarrow> ui" where
  "ui_error code = (ui_at Error_screen)\<lparr>u_code := code\<rparr>"

text \<open>What a socket was opened for, with the variables its listeners captured.\<close>

datatype purpose =
    P_receiver
  | P_code_receiver
  | P_join_code string
  | P_join string bytes
  | P_reconnect nat "string option" "prole option" bytes

datatype ready = Connecting | Open | Closing | Closed_socket

text \<open>An exchange with the session id and role it will finish with.\<close>

record sock =
  k_purpose :: purpose
  k_ready :: ready
  k_wired :: nat
  k_exchanges :: "(exchange \<times> string option \<times> prole) list"
  k_out :: "frame list"

datatype scan_phase = Asking | Live | Stopped | Denied

record scan =
  n_cancelled :: bool
  n_phase :: scan_phase

record tui =
  t_socket :: "nat option"
  t_role :: "direction option"
  t_epoch :: int
  t_key :: "bytes option"
  t_ready :: bool
  t_detached :: bool
  t_busy :: bool
  t_batches :: "string list list"

record app =
  a_ui :: ui
  a_socks :: "sock list"
  a_active :: "nat option"
  a_scans :: "scan list"
  a_stopScan :: "nat option"
  a_uis :: "tui list"
  a_handle :: "nat option"
  a_pending :: "string list option"
  a_swapAwaiting :: bool
  a_swapDisabled :: bool
  a_swapStatus :: "string option"
  a_swapTimers :: nat
  a_reconnectStatus :: "string option"
  a_reconnectTimers :: "nat list"
  a_tokens :: "(nat \<times> string option \<times> bytes option) list"

record pairing_ctx =
  pc_wc :: webcrypto
  pc_engine :: pake_engine
  pc_base :: string

datatype app_event =
    Click_receive | Click_send | Click_code_link | Click_code_receive | Click_code_send
  | Click_back | Click_join | Click_paste_instead | Submit_paste string | Submit_code string
  | Click_disconnect | Click_swap
  | Sk_open nat | Sk_message nat frame bytes | Sk_close nat
  | Exchange_settles nat nat | Token_settles nat
  | Scan_granted nat | Scan_denied nat | Scan_decoded nat string
  | Ui_ready nat | Ui_busy nat bool | Pick nat "string list"
  | Swap_timeout | Reconnect_timer nat

definition RECONNECT_MAX_ATTEMPTS :: nat where "RECONNECT_MAX_ATTEMPTS = 15"

subsection \<open>Sockets\<close>

definition sock_open :: "app \<Rightarrow> nat option \<Rightarrow> bool" where
  "sock_open a i = (case i of None \<Rightarrow> False | Some j \<Rightarrow> j < length (a_socks a) \<and> k_ready (a_socks a ! j) = Open)"

definition map_sock :: "nat \<Rightarrow> (sock \<Rightarrow> sock) \<Rightarrow> app \<Rightarrow> app" where
  "map_sock i f a = (if i < length (a_socks a) then a\<lparr>a_socks := (a_socks a)[i := f (a_socks a ! i)]\<rparr> else a)"

definition k_send :: "frame \<Rightarrow> sock \<Rightarrow> sock" where
  "k_send fr k = (if k_ready k = Open then k\<lparr>k_out := k_out k @ [fr]\<rparr> else k)"

definition app_send :: "nat \<Rightarrow> frame \<Rightarrow> app \<Rightarrow> app" where
  "app_send i fr = map_sock i (k_send fr)"

text \<open>\<open>connect()\<close> and the listeners that are added to the new socket; it is the last one.\<close>

definition connect :: "purpose \<Rightarrow> app \<Rightarrow> app" where
  "connect p a = a\<lparr>a_socks := a_socks a @ [\<lparr>k_purpose = p, k_ready = Connecting, k_wired = 0,
     k_exchanges = [], k_out = []\<rparr>]\<rparr>"

text \<open>\<open>socket.close()\<close>: the close event comes later.\<close>

definition k_close :: "sock \<Rightarrow> sock" where
  "k_close k = (if k_ready k = Closed_socket then k else k\<lparr>k_ready := Closing\<rparr>)"

subsection \<open>Rendering and navigation\<close>

definition map_ui :: "nat \<Rightarrow> (tui \<Rightarrow> tui) \<Rightarrow> app \<Rightarrow> app" where
  "map_ui n f a = (if n < length (a_uis a) then a\<lparr>a_uis := (a_uis a)[n := f (a_uis a ! n)]\<rparr> else a)"

definition detachActiveTransfer :: "app \<Rightarrow> app" where
  "detachActiveTransfer a = (case a_handle a of
     None \<Rightarrow> a
   | Some n \<Rightarrow> (map_ui n (\<lambda>t. t\<lparr>t_detached := True\<rparr>) a)\<lparr>a_handle := None\<rparr>)"

definition stop_scan :: "nat \<Rightarrow> app \<Rightarrow> app" where
  "stop_scan n a = (if n < length (a_scans a) \<and> n_phase (a_scans a ! n) = Live
     then a\<lparr>a_scans := (a_scans a)[n := (a_scans a ! n)\<lparr>n_phase := Stopped\<rparr>]\<rparr> else a)"

definition cleanupActive :: "app \<Rightarrow> app" where
  "cleanupActive a =
     (let a1 = (case a_stopScan a of None \<Rightarrow> a | Some n \<Rightarrow> (stop_scan n a)\<lparr>a_stopScan := None\<rparr>);
          a2 = (case a_active a1 of None \<Rightarrow> a1 | Some i \<Rightarrow> (map_sock i k_close a1)\<lparr>a_active := None\<rparr>);
          a3 = detachActiveTransfer a2
      in a3\<lparr>a_pending := None\<rparr>)"

text \<open>The paired screen: a new transfer UI for the session as it is now, becoming ready later.\<close>

definition renderPaired :: "app \<Rightarrow> app" where
  "renderPaired a =
     (let a1 = detachActiveTransfer a; u = a_ui a1
      in a1\<lparr>a_swapAwaiting := False, a_swapDisabled := False, a_swapStatus := None, a_reconnectStatus := None,
            a_uis := a_uis a1 @ [\<lparr>t_socket = a_active a1, t_role = u_transferRole u,
              t_epoch = (case u_epoch u of None \<Rightarrow> 0 | Some e \<Rightarrow> e), t_key = u_sessionKey u,
              t_ready = False, t_detached = False, t_busy = False, t_batches = []\<rparr>]\<rparr>)"

definition renderSenderScanning :: "app \<Rightarrow> app" where
  "renderSenderScanning a = a\<lparr>a_scans := a_scans a @ [\<lparr>n_cancelled = False, n_phase = Asking\<rparr>]\<rparr>"

definition render :: "app \<Rightarrow> app" where
  "render a = (case u_screen (a_ui a) of
     Paired_screen \<Rightarrow> renderPaired a
   | Sender_scanning \<Rightarrow> renderSenderScanning a
   | _ \<Rightarrow> a)"

definition advance :: "ui \<Rightarrow> app \<Rightarrow> app" where
  "advance next' a = render (a\<lparr>a_ui := next'\<rparr>)"

definition setState :: "ui \<Rightarrow> app \<Rightarrow> app" where
  "setState next' a = advance next' (cleanupActive a)"

definition fail_with :: "string \<Rightarrow> app \<Rightarrow> app" where
  "fail_with code = setState (ui_error (Some code))"

subsection \<open>Starting a connection\<close>

definition open_for :: "purpose \<Rightarrow> app \<Rightarrow> app" where
  "open_for p a = (connect p a)\<lparr>a_active := Some (length (a_socks a))\<rparr>"

definition startReceiverFlow :: "app \<Rightarrow> app" where
  "startReceiverFlow a = open_for P_receiver (advance (ui_at Receiver_generating) a)"

definition startReceiverCodeFlow :: "app \<Rightarrow> app" where
  "startReceiverCodeFlow a = open_for P_code_receiver (advance (ui_at Code_receiver_generating) a)"

definition startJoinByCode :: "string \<Rightarrow> app \<Rightarrow> app" where
  "startJoinByCode code a = open_for (P_join_code code) (advance (ui_at Joining) a)"

definition startJoin :: "string \<Rightarrow> bytes \<Rightarrow> app \<Rightarrow> app" where
  "startJoin sessionId sessionKey a =
     open_for (P_join sessionId sessionKey)
       (advance ((ui_at Joining)\<lparr>u_sessionId := Some sessionId, u_sessionKey := Some sessionKey\<rparr>)
         (a\<lparr>a_stopScan := None\<rparr>))"

text \<open>A pasted or scanned text.\<close>

definition join_text :: "string \<Rightarrow> string \<Rightarrow> app \<Rightarrow> app" where
  "join_text error text' a = (case parsePairingText text' of
     None \<Rightarrow> fail_with error a
   | Some (sessionId, sessionKey) \<Rightarrow> startJoin sessionId sessionKey a)"

subsection \<open>The paired session\<close>

definition finalizePaired :: "nat \<Rightarrow> string option \<Rightarrow> bytes option \<Rightarrow> prole \<Rightarrow> app \<Rightarrow> app" where
  "finalizePaired i sessionId sessionKey role a =
     (let u = (ui_at Paired_screen)\<lparr>u_sessionId := sessionId, u_sessionKey := sessionKey,
                u_role := Some role, u_epoch := Some 0,
                u_transferRole := Some (if role = Host then Receiving else Sending)\<rparr>;
          a1 = a\<lparr>a_ui := u, a_tokens := a_tokens a @ [(i, sessionId, sessionKey)]\<rparr>
      in render (map_sock i (\<lambda>k. k\<lparr>k_wired := k_wired k + 1\<rparr>) a1))"

definition next_epoch :: "app \<Rightarrow> app" where
  "next_epoch a = a\<lparr>a_ui := (a_ui a)\<lparr>u_epoch := map_option (\<lambda>e. e + 1) (u_epoch (a_ui a))\<rparr>\<rparr>"

definition flipTransferRole :: "app \<Rightarrow> app" where
  "flipTransferRole a = render (a\<lparr>a_ui := (a_ui a)\<lparr>u_transferRole :=
     Some (if u_transferRole (a_ui a) = Some Sending then Receiving else Sending)\<rparr>\<rparr>)"

definition transfer_active :: "app \<Rightarrow> bool" where
  "transfer_active a = (case a_handle a of None \<Rightarrow> False
     | Some n \<Rightarrow> n < length (a_uis a) \<and> t_busy (a_uis a ! n))"

text \<open>The status elements belong to the last rendering of the paired screen.\<close>

definition show_swap :: "string \<Rightarrow> app \<Rightarrow> app" where
  "show_swap key a = a\<lparr>a_swapStatus := Some key\<rparr>"

definition requestRoleSwap :: "app \<Rightarrow> app" where
  "requestRoleSwap a =
     (if transfer_active a then show_swap ''swapBusyLocal'' a
      else if a_swapAwaiting a then a
      else let a1 = show_swap ''swapRequesting'' (a\<lparr>a_swapAwaiting := True, a_swapDisabled := True\<rparr>)
           in case a_active a1 of
                None \<Rightarrow> a1
              | Some i \<Rightarrow> (app_send i (env_frame Role_swap_request) a1)\<lparr>a_swapTimers := a_swapTimers a1 + 1\<rparr>)"

definition swap_timeout :: "app \<Rightarrow> app" where
  "swap_timeout a =
     (if a_swapTimers a = 0 then a
      else let a1 = a\<lparr>a_swapTimers := a_swapTimers a - 1\<rparr>
           in if \<not> a_swapAwaiting a1 then a1
              else show_swap ''swapTimedOut'' (a1\<lparr>a_swapAwaiting := False, a_swapDisabled := False\<rparr>))"

definition attemptReconnect :: "nat \<Rightarrow> app \<Rightarrow> app" where
  "attemptReconnect attempt a =
     (if u_screen (a_ui a) \<noteq> Paired_screen then a
      else let a1 = a\<lparr>a_reconnectStatus := Some ''reconnecting''\<rparr>; u = a_ui a1
           in case u_reconnectToken u of
                None \<Rightarrow> fail_with ''connection_lost'' a1
              | Some token \<Rightarrow> connect (P_reconnect attempt (u_sessionId u) (u_role u) token) a1)"

definition disconnectSession :: "app \<Rightarrow> app" where
  "disconnectSession a = setState (ui_at Role_select)
     (case a_active a of None \<Rightarrow> a | Some i \<Rightarrow> app_send i (env_frame End_session) a)"

text \<open>\<open>(x) || d\<close> on an optional string.\<close>

definition or_else :: "string option \<Rightarrow> string \<Rightarrow> string" where
  "or_else x d = (case x of None \<Rightarrow> d | Some s \<Rightarrow> if s = [] then d else s)"

text \<open>The message listener of \<open>wirePairedSocket\<close>.\<close>

definition wired_message :: "nat \<Rightarrow> envelope \<Rightarrow> app \<Rightarrow> app" where
  "wired_message i env a = (case env of
     Session_ended reason \<Rightarrow> setState (ui_error (Some (or_else reason ''session_ended''))) a
   | Peer_disconnected \<Rightarrow> a\<lparr>a_reconnectStatus := Some ''reconnecting''\<rparr>
   | Peer_reconnected \<Rightarrow> render (next_epoch a)
   | Role_swap_request \<Rightarrow>
       (let busy = (transfer_active a \<or> a_swapAwaiting a);
            a1 = app_send i (env_frame (Role_swap_response (\<not> busy))) a
        in if busy then a1 else flipTransferRole a1)
   | Role_swap_response accepted \<Rightarrow>
       (if \<not> a_swapAwaiting a then a
        else let a1 = a\<lparr>a_swapAwaiting := False\<rparr>
             in if accepted then flipTransferRole a1
                else show_swap ''swapRejected'' (a1\<lparr>a_swapDisabled := False\<rparr>))
   | _ \<Rightarrow> a)"

definition wired_close :: "nat \<Rightarrow> app \<Rightarrow> app" where
  "wired_close i a =
     (if u_screen (a_ui a) \<noteq> Paired_screen \<or> a_active a \<noteq> Some i then a
      else attemptReconnect 1 (a\<lparr>a_active := None\<rparr>))"

subsection \<open>The listeners of each flow\<close>

definition start_exchange :: "nat \<Rightarrow> string \<Rightarrow> nat \<Rightarrow> string option \<Rightarrow> prole \<Rightarrow> app \<Rightarrow> app" where
  "start_exchange i code pakeRole sessionId role a =
     map_sock i (\<lambda>k. k\<lparr>k_exchanges := k_exchanges k @ [(x_start code pakeRole, sessionId, role)]\<rparr>)
       (advance (ui_at Verifying) a)"

definition receiver_message :: "pairing_ctx \<Rightarrow> nat \<Rightarrow> envelope \<Rightarrow> bytes \<Rightarrow> app \<Rightarrow> app" where
  "receiver_message c i env random a = (case env of
     Session_created sessionId \<Rightarrow>
       advance ((ui_at Receiver_waiting)\<lparr>u_sessionId := Some sessionId, u_sessionKey := Some random,
         u_url := Some (buildPairingURL (pc_base c) sessionId random)\<rparr>) a
   | Paired _ \<Rightarrow> finalizePaired i (u_sessionId (a_ui a)) (u_sessionKey (a_ui a)) Host a
   | Error_env code \<Rightarrow> setState (ui_error code) a
   | _ \<Rightarrow> a)"

definition code_receiver_message :: "nat \<Rightarrow> envelope \<Rightarrow> app \<Rightarrow> app" where
  "code_receiver_message i env a = (case env of
     Code_session_created code expiresAt \<Rightarrow>
       advance ((ui_at Code_receiver_waiting)\<lparr>u_code := Some code, u_expiresAt := Some expiresAt\<rparr>) a
   | Paired sessionId \<Rightarrow>
       start_exchange i (case u_code (a_ui a) of None \<Rightarrow> ''<undefined>'' | Some code \<Rightarrow> code) 0 sessionId Host a
   | Error_env code \<Rightarrow> setState (ui_error code) a
   | _ \<Rightarrow> a)"

definition join_code_message :: "nat \<Rightarrow> string \<Rightarrow> envelope \<Rightarrow> app \<Rightarrow> app" where
  "join_code_message i code env a = (case env of
     Paired sessionId \<Rightarrow> start_exchange i code 1 sessionId Guest a
   | Error_env err \<Rightarrow> setState (ui_error err) a
   | _ \<Rightarrow> a)"

definition join_message :: "nat \<Rightarrow> string \<Rightarrow> bytes \<Rightarrow> envelope \<Rightarrow> app \<Rightarrow> app" where
  "join_message i sessionId sessionKey env a = (case env of
     Paired _ \<Rightarrow> finalizePaired i (Some sessionId) (Some sessionKey) Guest a
   | Error_env err \<Rightarrow> setState (ui_error err) a
   | _ \<Rightarrow> a)"

definition reconnect_message :: "nat \<Rightarrow> envelope \<Rightarrow> app \<Rightarrow> app" where
  "reconnect_message i env a = (case env of
     Reconnected \<Rightarrow>
       render (map_sock i (\<lambda>k. k\<lparr>k_wired := k_wired k + 1\<rparr>)
         (next_epoch (a\<lparr>a_active := Some i, a_reconnectStatus := None\<rparr>)))
   | Error_env err \<Rightarrow> setState (ui_error (Some (or_else err ''connection_lost''))) a
   | _ \<Rightarrow> a)"

text \<open>The listeners a socket has from the flow it was opened for.\<close>

definition flow_message :: "pairing_ctx \<Rightarrow> nat \<Rightarrow> purpose \<Rightarrow> envelope \<Rightarrow> bytes \<Rightarrow> app \<Rightarrow> app" where
  "flow_message c i p env random a = (case p of
     P_receiver \<Rightarrow> receiver_message c i env random a
   | P_code_receiver \<Rightarrow> code_receiver_message i env a
   | P_join_code code \<Rightarrow> join_code_message i code env a
   | P_join sessionId sessionKey \<Rightarrow> join_message i sessionId sessionKey env a
   | P_reconnect attempt sessionId role token \<Rightarrow> reconnect_message i env a)"

text \<open>The close listener, the same for every way of pairing, and the one of a reconnection attempt.\<close>

definition pairing_close :: "app \<Rightarrow> app" where
  "pairing_close a =
     (if u_screen (a_ui a) \<noteq> Paired_screen \<and> u_screen (a_ui a) \<noteq> Error_screen
      then fail_with ''connection_lost'' a else a)"

definition reconnect_close :: "nat \<Rightarrow> nat \<Rightarrow> app \<Rightarrow> app" where
  "reconnect_close i attempt a =
     (if u_screen (a_ui a) \<noteq> Paired_screen \<or> a_active a = Some i then a
      else if attempt \<ge> RECONNECT_MAX_ATTEMPTS then fail_with ''connection_lost'' a
      else a\<lparr>a_reconnectTimers := a_reconnectTimers a @ [attempt + 1]\<rparr>)"

definition flow_close :: "nat \<Rightarrow> purpose \<Rightarrow> app \<Rightarrow> app" where
  "flow_close i p a = (case p of
     P_reconnect attempt _ _ _ \<Rightarrow> reconnect_close i attempt a
   | _ \<Rightarrow> pairing_close a)"

lemmas flow_message_defs = flow_message_def receiver_message_def code_receiver_message_def
  join_code_message_def join_message_def reconnect_message_def

lemmas flow_close_defs = flow_close_def pairing_close_def reconnect_close_def

text \<open>The \<open>open\<close> listener's message.\<close>

definition role_name :: "prole option \<Rightarrow> (string \<times> json) list" where
  "role_name r = (case r of None \<Rightarrow> []
     | Some Host \<Rightarrow> [(''role'', JStr ''host'')] | Some Guest \<Rightarrow> [(''role'', JStr ''guest'')])"

definition open_frame :: "purpose \<Rightarrow> frame" where
  "open_frame p = (case p of
     P_receiver \<Rightarrow> env_frame Create_session
   | P_code_receiver \<Rightarrow> env_frame Create_code_session
   | P_join_code code \<Rightarrow> env_frame (Join_by_code code)
   | P_join sessionId _ \<Rightarrow> env_frame (Join sessionId)
   | P_reconnect _ sessionId role token \<Rightarrow>
       Text (stringify (env_obj ''reconnect'' (JObj
         (opt_field ''sessionId'' sessionId @ role_name role @ [(''tokenHex'', JStr (toHex token))])))))"

subsection \<open>Events\<close>

text \<open>
  A message goes to the listeners the socket had when it arrived: the flow's own, those of
  exchanges that wait, and one for each call of \<open>wirePairedSocket\<close>. No message type is read by
  two of these kinds.
\<close>

definition sk_message :: "pairing_ctx \<Rightarrow> nat \<Rightarrow> frame \<Rightarrow> bytes \<Rightarrow> app \<Rightarrow> app" where
  "sk_message c i fr random a =
     (if i < length (a_socks a) \<and> k_ready (a_socks a ! i) = Open then
        (let k = a_socks a ! i;
             a1 = map_sock i (\<lambda>k. k\<lparr>k_exchanges := map (\<lambda>(x, r). (x_onMessage fr x, r)) (k_exchanges k)\<rparr>) a
         in case parseEnvelope fr of
              None \<Rightarrow> a
            | Some env \<Rightarrow>
                (wired_message i env ^^ k_wired k) (flow_message c i (k_purpose k) env random a1))
      else a)"

definition sk_open :: "nat \<Rightarrow> app \<Rightarrow> app" where
  "sk_open i a =
     (if i < length (a_socks a) \<and> k_ready (a_socks a ! i) = Connecting
      then app_send i (open_frame (k_purpose (a_socks a ! i))) (map_sock i (\<lambda>k. k\<lparr>k_ready := Open\<rparr>) a)
      else a)"

definition sk_close :: "nat \<Rightarrow> app \<Rightarrow> app" where
  "sk_close i a =
     (if i < length (a_socks a) \<and> k_ready (a_socks a ! i) \<noteq> Closed_socket then
        (let k = a_socks a ! i; a1 = map_sock i (\<lambda>k. k\<lparr>k_ready := Closed_socket\<rparr>) a
         in (wired_close i ^^ k_wired k) (flow_close i (k_purpose k) a1))
      else a)"

text \<open>A step of exchange \<open>j\<close> on socket \<open>i\<close>, and what \<open>then\<close> and \<open>catch\<close> do when it is over.\<close>

definition exchange_settles :: "pairing_ctx \<Rightarrow> nat \<Rightarrow> nat \<Rightarrow> app \<Rightarrow> app" where
  "exchange_settles c i j a =
     (if i < length (a_socks a) \<and> j < length (k_exchanges (a_socks a ! i)) then
        (case k_exchanges (a_socks a ! i) ! j of (x, sessionId, role) \<Rightarrow>
           (case x_phase x of
              X_done _ \<Rightarrow> a
            | _ \<Rightarrow>
               (let x' = x_resume (pc_wc c) (pc_engine c) x;
                    new = drop (length (x_sent x)) (x_sent x');
                    a1 = map_sock i (\<lambda>k. k\<lparr>k_exchanges := (k_exchanges k)[j := (x', sessionId, role)]\<rparr>) a;
                    a2 = fold (\<lambda>env. app_send i (env_frame env)) new a1
                in case x_phase x' of
                     X_done (Inr sessionKey) \<Rightarrow> finalizePaired i sessionId (Some sessionKey) role a2
                   | X_done (Inl _) \<Rightarrow> fail_with ''code_mismatch'' a2
                   | _ \<Rightarrow> a2)))
      else a)"

text \<open>\<open>deriveReconnectToken(...).then(...)\<close> of \<open>finalizePaired\<close>: the token goes into whatever
  \<open>currentState\<close> is by then.\<close>

definition token_settles :: "pairing_ctx \<Rightarrow> nat \<Rightarrow> app \<Rightarrow> app" where
  "token_settles c n a =
     (if n < length (a_tokens a) then
        (let a0 = a\<lparr>a_tokens := take n (a_tokens a) @ drop (Suc n) (a_tokens a)\<rparr>
         in case a_tokens a ! n of
              (i, sessionId, Some sessionKey) \<Rightarrow>
                (case deriveReconnectToken (pc_wc c) sessionKey (case sessionId of None \<Rightarrow> [] | Some s \<Rightarrow> s) of
                   Inl _ \<Rightarrow> a0
                 | Inr token \<Rightarrow>
                     app_send i (env_frame (Reconnect_token (toHex token)))
                       (a0\<lparr>a_ui := (a_ui a0)\<lparr>u_reconnectToken := Some token\<rparr>\<rparr>))
            | _ \<Rightarrow> a0)
      else a)"

text \<open>The camera: permission given (the promise of \<open>startScanning\<close> resolves with \<open>stop\<close>), refused, or
  a frame decoded.\<close>

definition set_scan :: "nat \<Rightarrow> scan_phase \<Rightarrow> app \<Rightarrow> app" where
  "set_scan n p a = a\<lparr>a_scans := (a_scans a)[n := (a_scans a ! n)\<lparr>n_phase := p\<rparr>]\<rparr>"

definition asking :: "nat \<Rightarrow> app \<Rightarrow> bool" where
  "asking n a \<longleftrightarrow> n < length (a_scans a) \<and> n_phase (a_scans a ! n) = Asking"

definition scan_granted :: "nat \<Rightarrow> app \<Rightarrow> app" where
  "scan_granted n a =
     (if asking n a then
        (if n_cancelled (a_scans a ! n) then set_scan n Stopped a
         else (set_scan n Live a)\<lparr>a_stopScan := Some n\<rparr>)
      else a)"

definition scan_denied :: "nat \<Rightarrow> app \<Rightarrow> app" where
  "scan_denied n a =
     (if asking n a then
        (let cancelled = n_cancelled (a_scans a ! n);
             a1 = fail_with ''camera_error'' (set_scan n Denied a)
         in if cancelled then a1 else a1\<lparr>a_stopScan := Some n\<rparr>)
      else a)"

text \<open>A code can be read from the very first frame, before the caller has \<open>stop\<close>; the promise resolves
  right after.\<close>

definition scan_decoded :: "nat \<Rightarrow> string \<Rightarrow> app \<Rightarrow> app" where
  "scan_decoded n text' a =
     (if n < length (a_scans a) then
        (case n_phase (a_scans a ! n) of
           Live \<Rightarrow> join_text ''invalid_qr'' text' (stop_scan n a)
         | Asking \<Rightarrow>
             (let cancelled = n_cancelled (a_scans a ! n);
                  a1 = join_text ''invalid_qr'' text' (set_scan n Stopped a)
              in if cancelled then a1 else a1\<lparr>a_stopScan := Some n\<rparr>)
         | _ \<Rightarrow> a)
      else a)"

definition cancel_scan :: "app \<Rightarrow> app" where
  "cancel_scan a = (case a_scans a of [] \<Rightarrow> a
     | _ \<Rightarrow> let n = length (a_scans a) - 1
            in a\<lparr>a_scans := (a_scans a)[n := (a_scans a ! n)\<lparr>n_cancelled := True\<rparr>]\<rparr>)"

text \<open>The transfer UI (\<open>renderTransferUI\<close> of transfer-ui.js as pairing.js uses it): its promise
  resolves once the epoch key is derived, \<open>sendFiles\<close> takes a batch unless one is being sent, and
  a pick on a UI that cannot send is handed to \<open>onStaleFiles\<close>.\<close>

definition ui_sendFiles :: "string list \<Rightarrow> tui \<Rightarrow> tui" where
  "ui_sendFiles files t =
     (if t_busy t \<or> t_detached t \<or> files = [] then t
      else t\<lparr>t_busy := True, t_batches := t_batches t @ [files]\<rparr>)"

definition is_sender_ui :: "tui \<Rightarrow> bool" where
  "is_sender_ui t \<longleftrightarrow> t_role t \<noteq> Some Receiving"

definition ui_ready :: "nat \<Rightarrow> app \<Rightarrow> app" where
  "ui_ready n a =
     (if n < length (a_uis a) \<and> \<not> t_ready (a_uis a ! n) \<and> map_option length (t_key (a_uis a ! n)) = Some 32 then
        (let a1 = (map_ui n (\<lambda>t. t\<lparr>t_ready := True\<rparr>) a)\<lparr>a_handle := Some n\<rparr>
         in case a_pending a1 of
              Some files \<Rightarrow>
                if is_sender_ui (a_uis a1 ! n) then map_ui n (ui_sendFiles files) (a1\<lparr>a_pending := None\<rparr>) else a1
            | None \<Rightarrow> a1)
      else a)"

definition stale_files :: "string list \<Rightarrow> app \<Rightarrow> app" where
  "stale_files files a =
     (let live = (if u_screen (a_ui a) = Paired_screen then sock_open a (a_active a) else False)
      in case a_handle a of
           Some n \<Rightarrow>
             if n < length (a_uis a) \<and> is_sender_ui (a_uis a ! n) \<and> live
             then map_ui n (ui_sendFiles files) a else a\<lparr>a_pending := Some files\<rparr>
         | None \<Rightarrow> a\<lparr>a_pending := Some files\<rparr>)"

definition pick :: "nat \<Rightarrow> string list \<Rightarrow> app \<Rightarrow> app" where
  "pick n files a =
     (if n < length (a_uis a) \<and> t_ready (a_uis a ! n) \<and> is_sender_ui (a_uis a ! n) then
        (if t_detached (a_uis a ! n) \<or> \<not> sock_open a (t_socket (a_uis a ! n)) then stale_files files a
         else map_ui n (ui_sendFiles files) a)
      else a)"

text \<open>Clicks, where the screen shows the button.\<close>

definition click_back :: "app \<Rightarrow> app" where
  "click_back a = (case u_screen (a_ui a) of
     Code_role_select \<Rightarrow> setState (ui_at Role_select) a
   | Join_detected \<Rightarrow> setState (ui_at Role_select) a
   | Receiver_waiting \<Rightarrow> setState (ui_at Role_select) a
   | Code_receiver_waiting \<Rightarrow> setState (ui_at Code_role_select) a
   | Code_sender_entry \<Rightarrow> setState (ui_at Code_role_select) a
   | Sender_scanning \<Rightarrow> setState (ui_at Role_select) (cancel_scan a)
   | Sender_paste \<Rightarrow> setState (ui_at Sender_scanning) a
   | Error_screen \<Rightarrow> setState (ui_at Role_select) a
   | _ \<Rightarrow> a)"

definition submit_code :: "string \<Rightarrow> app \<Rightarrow> app" where
  "submit_code value' a = (case code_submitted value' of
     None \<Rightarrow> fail_with ''invalid_code'' a
   | Some digits \<Rightarrow> startJoinByCode digits a)"

definition reconnect_timer :: "nat \<Rightarrow> app \<Rightarrow> app" where
  "reconnect_timer n a =
     (if n < length (a_reconnectTimers a)
      then attemptReconnect (a_reconnectTimers a ! n)
        (a\<lparr>a_reconnectTimers := take n (a_reconnectTimers a) @ drop (Suc n) (a_reconnectTimers a)\<rparr>)
      else a)"

definition on_screen :: "screen \<Rightarrow> (app \<Rightarrow> app) \<Rightarrow> app \<Rightarrow> app" where
  "on_screen s f a = (if u_screen (a_ui a) = s then f a else a)"

fun app_step :: "pairing_ctx \<Rightarrow> app \<Rightarrow> app_event \<Rightarrow> app" where
  "app_step c a Click_receive = on_screen Role_select startReceiverFlow a"
| "app_step c a Click_send = on_screen Role_select (advance (ui_at Sender_scanning)) a"
| "app_step c a Click_code_link = on_screen Role_select (advance (ui_at Code_role_select)) a"
| "app_step c a Click_code_receive = on_screen Code_role_select startReceiverCodeFlow a"
| "app_step c a Click_code_send = on_screen Code_role_select (advance (ui_at Code_sender_entry)) a"
| "app_step c a Click_back = click_back a"
| "app_step c a Click_join = on_screen Join_detected
     (\<lambda>a. case (u_sessionId (a_ui a), u_sessionKey (a_ui a)) of
        (Some sessionId, Some sessionKey) \<Rightarrow> startJoin sessionId sessionKey a | _ \<Rightarrow> a) a"
| "app_step c a Click_paste_instead =
     on_screen Sender_scanning (\<lambda>a. setState (ui_at Sender_paste) (cancel_scan a)) a"
| "app_step c a (Submit_paste text') = on_screen Sender_paste (join_text ''invalid_link'' text') a"
| "app_step c a (Submit_code value') = on_screen Code_sender_entry (submit_code value') a"
| "app_step c a Click_disconnect = on_screen Paired_screen disconnectSession a"
| "app_step c a Click_swap =
     on_screen Paired_screen (\<lambda>a. if a_swapDisabled a then a else requestRoleSwap a) a"
| "app_step c a (Sk_open i) = sk_open i a"
| "app_step c a (Sk_message i fr random) = sk_message c i fr random a"
| "app_step c a (Sk_close i) = sk_close i a"
| "app_step c a (Exchange_settles i j) = exchange_settles c i j a"
| "app_step c a (Token_settles n) = token_settles c n a"
| "app_step c a (Scan_granted n) = scan_granted n a"
| "app_step c a (Scan_denied n) = scan_denied n a"
| "app_step c a (Scan_decoded n text') = scan_decoded n text' a"
| "app_step c a (Ui_ready n) = ui_ready n a"
| "app_step c a (Ui_busy n b) = map_ui n (\<lambda>t. t\<lparr>t_busy := b\<rparr>) a"
| "app_step c a (Pick n files) = pick n files a"
| "app_step c a Swap_timeout = swap_timeout a"
| "app_step c a (Reconnect_timer n) = reconnect_timer n a"

text \<open>\<open>initPairing\<close> on a page opened with \<open>location.hash\<close>.\<close>

definition app_empty :: app where
  "app_empty = \<lparr>a_ui = ui_at Role_select, a_socks = [], a_active = None, a_scans = [], a_stopScan = None,
     a_uis = [], a_handle = None, a_pending = None, a_swapAwaiting = False, a_swapDisabled = False,
     a_swapStatus = None, a_swapTimers = 0, a_reconnectStatus = None, a_reconnectTimers = [], a_tokens = []\<rparr>"

definition initPairing :: "bool \<Rightarrow> string \<Rightarrow> app" where
  "initPairing isSecureContext hash =
     (if \<not> isSecureContext then advance (ui_at Insecure_context) app_empty
      else case (if length hash > 1 then parsePairingText hash else None) of
             Some (sessionId, sessionKey) \<Rightarrow>
               advance ((ui_at Join_detected)\<lparr>u_sessionId := Some sessionId, u_sessionKey := Some sessionKey\<rparr>) app_empty
           | None \<Rightarrow> advance (ui_at Role_select) app_empty)"

end
