(* ===== verification/PairingProps.thy ===== *)
theory PairingProps
  imports Pairing
begin

section \<open>Properties of pairing\<close>

text \<open>
  Invariants of every run of the pairing screens, the flows of two clients that pair, reconnect
  and swap roles, and runs in which an event of a socket that is no longer wanted reaches its
  listeners.
\<close>

abbreviation app_run :: "pairing_ctx \<Rightarrow> app \<Rightarrow> app_event list \<Rightarrow> app" where
  "app_run c a evs \<equiv> run (app_step c) a evs"

subsection \<open>What the helpers leave alone\<close>

lemma map_sock_simps [simp]:
  "a_ui (map_sock i f a) = a_ui a" "length (a_socks (map_sock i f a)) = length (a_socks a)"
  "a_active (map_sock i f a) = a_active a" "a_reconnectTimers (map_sock i f a) = a_reconnectTimers a"
  "a_handle (map_sock i f a) = a_handle a" "a_pending (map_sock i f a) = a_pending a"
  "a_uis (map_sock i f a) = a_uis a" "a_swapAwaiting (map_sock i f a) = a_swapAwaiting a"
  "a_scans (map_sock i f a) = a_scans a" "a_stopScan (map_sock i f a) = a_stopScan a"
  "a_swapDisabled (map_sock i f a) = a_swapDisabled a" "a_swapTimers (map_sock i f a) = a_swapTimers a"
  by (simp_all add: map_sock_def)

lemma map_ui_simps [simp]:
  "a_ui (map_ui i f a) = a_ui a" "a_socks (map_ui i f a) = a_socks a" "a_active (map_ui i f a) = a_active a"
  "a_reconnectTimers (map_ui i f a) = a_reconnectTimers a" "a_handle (map_ui i f a) = a_handle a"
  "a_pending (map_ui i f a) = a_pending a" "length (a_uis (map_ui i f a)) = length (a_uis a)"
  "a_swapAwaiting (map_ui i f a) = a_swapAwaiting a" "a_stopScan (map_ui i f a) = a_stopScan a"
  "a_scans (map_ui i f a) = a_scans a"
  by (simp_all add: map_ui_def)

lemma stop_scan_simps [simp]:
  "a_ui (stop_scan n a) = a_ui a" "a_socks (stop_scan n a) = a_socks a" "a_active (stop_scan n a) = a_active a"
  "a_reconnectTimers (stop_scan n a) = a_reconnectTimers a" "a_handle (stop_scan n a) = a_handle a"
  "a_pending (stop_scan n a) = a_pending a" "a_uis (stop_scan n a) = a_uis a"
  by (simp_all add: stop_scan_def)

lemma detach_simps [simp]:
  "a_ui (detachActiveTransfer a) = a_ui a" "a_socks (detachActiveTransfer a) = a_socks a"
  "a_active (detachActiveTransfer a) = a_active a" "a_handle (detachActiveTransfer a) = None"
  "a_reconnectTimers (detachActiveTransfer a) = a_reconnectTimers a" "a_pending (detachActiveTransfer a) = a_pending a"
  by (simp_all add: detachActiveTransfer_def split: option.split)

lemma render_simps [simp]:
  "a_ui (render a) = a_ui a" "a_socks (render a) = a_socks a" "a_active (render a) = a_active a"
  "a_reconnectTimers (render a) = a_reconnectTimers a" "a_pending (render a) = a_pending a"
  by (simp_all add: render_def renderPaired_def renderSenderScanning_def Let_def split: screen.split)

lemma advance_simps [simp]:
  "a_ui (advance u a) = u" "a_socks (advance u a) = a_socks a" "a_active (advance u a) = a_active a"
  "a_reconnectTimers (advance u a) = a_reconnectTimers a" "a_pending (advance u a) = a_pending a"
  by (simp_all add: advance_def)

lemma setState_ui [simp]: "a_ui (setState u a) = u" "a_reconnectTimers (setState u a) = a_reconnectTimers a"
  by (simp_all add: setState_def cleanupActive_def Let_def split: option.split)

lemma fail_with_ui [simp]: "a_ui (fail_with code a) = ui_error (Some code)"
  "a_reconnectTimers (fail_with code a) = a_reconnectTimers a"
  by (simp_all add: fail_with_def)

lemma app_send_simps [simp]:
  "a_ui (app_send i fr a) = a_ui a" "length (a_socks (app_send i fr a)) = length (a_socks a)"
  "a_active (app_send i fr a) = a_active a" "a_reconnectTimers (app_send i fr a) = a_reconnectTimers a"
  "a_uis (app_send i fr a) = a_uis a" "a_handle (app_send i fr a) = a_handle a"
  "a_swapAwaiting (app_send i fr a) = a_swapAwaiting a" "a_pending (app_send i fr a) = a_pending a"
  by (simp_all add: app_send_def)

lemma open_for_simps [simp]:
  "a_ui (open_for p a) = a_ui a" "a_reconnectTimers (open_for p a) = a_reconnectTimers a"
  "a_ui (connect p a) = a_ui a" "a_reconnectTimers (connect p a) = a_reconnectTimers a"
  by (simp_all add: open_for_def connect_def)

lemma ui_at_simps [simp]: "u_screen (ui_at s) = s" "u_screen (ui_error code) = Error_screen"
  by (simp_all add: ui_at_def ui_error_def)

subsection \<open>The paired screen is complete\<close>

text \<open>What every reader of \<open>currentState\<close> on the paired screen relies on.\<close>

definition paired_complete :: "app \<Rightarrow> bool" where
  "paired_complete a \<longleftrightarrow> (u_screen (a_ui a) = Paired_screen \<longrightarrow>
     u_role (a_ui a) \<noteq> None \<and> u_transferRole (a_ui a) \<noteq> None \<and> (\<exists>e \<ge> 0. u_epoch (a_ui a) = Some e))"

lemma complete_other: "u_screen (a_ui a) \<noteq> Paired_screen \<Longrightarrow> paired_complete a"
  by (simp add: paired_complete_def)

lemma complete_same: "a_ui a' = a_ui a \<Longrightarrow> paired_complete a \<Longrightarrow> paired_complete a'"
  by (simp add: paired_complete_def)

lemma setState_complete: "u_screen u \<noteq> Paired_screen \<Longrightarrow> paired_complete (setState u a)"
  by (simp add: complete_other)

lemma fail_complete [simp]: "paired_complete (fail_with code a)"
  by (simp add: complete_other)

lemma finalize_complete [simp]: "paired_complete (finalizePaired i sid key role a)"
  by (simp add: paired_complete_def finalizePaired_def Let_def)

lemma next_epoch_complete: "paired_complete a \<Longrightarrow> paired_complete (next_epoch a)"
proof -
  assume c: "paired_complete a"
  show ?thesis
  proof (cases "u_screen (a_ui a) = Paired_screen")
    case True
    then obtain e where "0 \<le> e" "u_epoch (a_ui a) = Some e" using c by (auto simp: paired_complete_def)
    then show ?thesis using c True by (simp add: paired_complete_def next_epoch_def)
  next
    case False
    then show ?thesis by (simp add: paired_complete_def next_epoch_def)
  qed
qed

lemma flip_complete: "paired_complete a \<Longrightarrow> paired_complete (flipTransferRole a)"
  by (simp add: paired_complete_def flipTransferRole_def)

lemma render_complete [simp]: "paired_complete (render a) = paired_complete a"
  "paired_complete (map_sock i f a) = paired_complete a" "paired_complete (app_send i fr a) = paired_complete a"
  "paired_complete (map_ui i g a) = paired_complete a" "paired_complete (connect p a) = paired_complete a"
  "paired_complete (open_for p a) = paired_complete a" "paired_complete (stop_scan n a) = paired_complete a"
  by (simp_all add: paired_complete_def)

lemma swap_ui [simp]: "a_ui (show_swap k a) = a_ui a"
  by (simp add: show_swap_def)

lemma attemptReconnect_complete: "paired_complete a \<Longrightarrow> paired_complete (attemptReconnect n a)"
  by (auto simp: attemptReconnect_def Let_def intro: complete_same split: option.split)

lemma wired_message_complete: "paired_complete a \<Longrightarrow> paired_complete (wired_message i env a)"
  by (auto simp: wired_message_def Let_def intro!: setState_complete next_epoch_complete flip_complete
      intro: complete_same split: envelope.split)

lemma wired_close_complete: "paired_complete a \<Longrightarrow> paired_complete (wired_close i a)"
  by (auto simp: wired_close_def intro!: attemptReconnect_complete intro: complete_same)

lemma flow_close_complete: "paired_complete a \<Longrightarrow> paired_complete (flow_close i p a)"
  by (auto simp: flow_close_defs intro: complete_same split: purpose.split)

lemma advance_complete: "u_screen u \<noteq> Paired_screen \<Longrightarrow> paired_complete (advance u a)"
  by (simp add: complete_other)

lemma flow_message_complete: "paired_complete a \<Longrightarrow> paired_complete (flow_message c i p env rnd a)"
  by (auto simp: flow_message_defs start_exchange_def intro!: setState_complete advance_complete next_epoch_complete
      intro: complete_same split: purpose.split envelope.split)

lemma funpow_keeps: "(\<And>x. P x \<Longrightarrow> P (f x)) \<Longrightarrow> P x \<Longrightarrow> P ((f ^^ n) x)"
  by (induction n) auto

subsection \<open>Reconnection attempts are bounded\<close>

definition purposes :: "app \<Rightarrow> purpose list" where
  "purposes a = map k_purpose (a_socks a)"

definition attempt_ok :: "purpose \<Rightarrow> bool" where
  "attempt_ok p = (case p of P_reconnect n _ _ _ \<Rightarrow> n \<le> RECONNECT_MAX_ATTEMPTS | _ \<Rightarrow> True)"

definition attempts_ok :: "app \<Rightarrow> bool" where
  "attempts_ok a \<longleftrightarrow> (\<forall>p \<in> set (purposes a). attempt_ok p) \<and>
     (\<forall>n \<in> set (a_reconnectTimers a). n \<le> RECONNECT_MAX_ATTEMPTS)"

lemma purposes_map_sock:
  assumes "\<And>k. k_purpose (f k) = k_purpose k"
  shows "purposes (map_sock i f a) = purposes a"
  using assms by (simp add: purposes_def map_sock_def map_update list_update_same_conv)

lemma purposes_simps [simp]:
  "purposes (app_send i fr a) = purposes a" "purposes (map_sock i k_close a) = purposes a"
  "purposes (map_sock i (\<lambda>k. k\<lparr>k_wired := g k\<rparr>) a) = purposes a"
  "purposes (map_sock i (\<lambda>k. k\<lparr>k_exchanges := h k\<rparr>) a) = purposes a"
  "purposes (map_sock i (\<lambda>k. k\<lparr>k_ready := r\<rparr>) a) = purposes a"
  "purposes (map_ui n f a) = purposes a" "purposes (stop_scan n a) = purposes a"
  "purposes (detachActiveTransfer a) = purposes a" "purposes (render a) = purposes a"
  "purposes (advance u a) = purposes a" "purposes (connect p a) = purposes a @ [p]"
  by (simp_all add: purposes_map_sock app_send_def k_send_def k_close_def)
    (simp_all add: purposes_def connect_def)

lemma purposes_update [simp]:
  "purposes (a\<lparr>a_ui := u\<rparr>) = purposes a" "purposes (a\<lparr>a_active := x\<rparr>) = purposes a"
  "purposes (a\<lparr>a_stopScan := y\<rparr>) = purposes a" "purposes (a\<lparr>a_pending := z\<rparr>) = purposes a"
  "purposes (a\<lparr>a_tokens := ts\<rparr>) = purposes a" "purposes (a\<lparr>a_reconnectStatus := st\<rparr>) = purposes a"
  "purposes (a\<lparr>a_reconnectTimers := tm\<rparr>) = purposes a" "purposes (a\<lparr>a_swapAwaiting := b\<rparr>) = purposes a"
  "purposes (a\<lparr>a_swapDisabled := b\<rparr>) = purposes a" "purposes (a\<lparr>a_swapTimers := tn\<rparr>) = purposes a"
  "purposes (a\<lparr>a_swapStatus := st\<rparr>) = purposes a" "purposes (a\<lparr>a_handle := h\<rparr>) = purposes a"
  "purposes (a\<lparr>a_scans := sc\<rparr>) = purposes a"
  by (simp_all add: purposes_def)

lemma purposes_setState [simp]: "purposes (setState u a) = purposes a" "purposes (fail_with code a) = purposes a"
  by (simp_all add: fail_with_def setState_def cleanupActive_def Let_def split: option.split)

lemma purposes_open_for [simp]: "purposes (open_for p a) = purposes a @ [p]"
  by (simp add: open_for_def)

lemma timers_same:
  "a_reconnectTimers a' = a_reconnectTimers a \<Longrightarrow> purposes a' = purposes a \<Longrightarrow> attempts_ok a \<Longrightarrow> attempts_ok a'"
  by (simp add: attempts_ok_def)

lemma attempts_connect:
  "attempts_ok a \<Longrightarrow> attempt_ok p \<Longrightarrow> purposes a' = purposes a @ [p] \<Longrightarrow>
   a_reconnectTimers a' = a_reconnectTimers a \<Longrightarrow> attempts_ok a'"
  by (auto simp: attempts_ok_def)

lemma ok_setState [simp]: "attempts_ok (setState u a) = attempts_ok a" "attempts_ok (fail_with code a) = attempts_ok a"
  "attempts_ok (render a) = attempts_ok a" "attempts_ok (advance u a) = attempts_ok a"
  "attempts_ok (app_send i fr a) = attempts_ok a" "attempts_ok (map_ui n f a) = attempts_ok a"
  "attempts_ok (stop_scan n a) = attempts_ok a"
  by (simp_all add: attempts_ok_def)

lemma attempts_flip [simp]: "attempts_ok (flipTransferRole a) = attempts_ok a" "attempts_ok (next_epoch a) = attempts_ok a"
  "attempts_ok (show_swap k a) = attempts_ok a" "attempts_ok (finalizePaired i sid key role a) = attempts_ok a"
  by (simp_all add: attempts_ok_def flipTransferRole_def next_epoch_def show_swap_def finalizePaired_def Let_def)

lemma attempts_attemptReconnect:
  "attempts_ok a \<Longrightarrow> n \<le> RECONNECT_MAX_ATTEMPTS \<Longrightarrow> attempts_ok (attemptReconnect n a)"
  by (auto simp: attemptReconnect_def Let_def attempts_ok_def attempt_ok_def split: option.split)

lemma attempts_wired_message: "attempts_ok a \<Longrightarrow> attempts_ok (wired_message i env a)"
  by (auto simp: wired_message_def Let_def intro: timers_same split: envelope.split)

lemma attempts_wired_close: "attempts_ok a \<Longrightarrow> attempts_ok (wired_close i a)"
  by (auto simp: wired_close_def RECONNECT_MAX_ATTEMPTS_def intro!: attempts_attemptReconnect intro: timers_same)

lemma attempts_flow_close: "attempts_ok a \<Longrightarrow> attempt_ok p \<Longrightarrow> attempts_ok (flow_close i p a)"
  by (auto simp: flow_close_defs attempt_ok_def attempts_ok_def split: purpose.split)

lemma attempts_flow_message: "attempts_ok a \<Longrightarrow> attempts_ok (flow_message c i p env rnd a)"
proof -
  assume ok: "attempts_ok a"
  have r: "attempts_ok (map_sock i (\<lambda>k. k\<lparr>k_wired := k_wired k + 1\<rparr>)
      (next_epoch (a\<lparr>a_active := Some i, a_reconnectStatus := None\<rparr>)))"
    by (rule timers_same [OF _ _ ok]) (simp_all add: next_epoch_def)
  have x: "attempts_ok (start_exchange i code pr sid role a)" for code pr sid role
    by (rule timers_same [OF _ _ ok]) (simp_all add: start_exchange_def)
  show ?thesis using ok r x by (auto simp: flow_message_defs split: purpose.split envelope.split)
qed

subsection \<open>Every event\<close>

definition pairing_inv :: "app \<Rightarrow> bool" where
  "pairing_inv a \<longleftrightarrow> paired_complete a \<and> attempts_ok a"

lemma pairing_inv_same:
  "a_ui a' = a_ui a \<Longrightarrow> purposes a' = purposes a \<Longrightarrow> a_reconnectTimers a' = a_reconnectTimers a \<Longrightarrow>
   pairing_inv a \<Longrightarrow> pairing_inv a'"
  by (auto simp: pairing_inv_def intro: complete_same timers_same)

lemma pairing_inv_setState: "pairing_inv a \<Longrightarrow> u_screen u \<noteq> Paired_screen \<Longrightarrow> pairing_inv (setState u a)"
  by (simp add: pairing_inv_def setState_complete)

lemma pairing_inv_advance: "pairing_inv a \<Longrightarrow> u_screen u \<noteq> Paired_screen \<Longrightarrow> pairing_inv (advance u a)"
  by (simp add: pairing_inv_def advance_complete)

lemma pairing_inv_fail: "pairing_inv a \<Longrightarrow> pairing_inv (fail_with code a)"
  by (simp add: pairing_inv_def)

lemma pairing_inv_open:
  "pairing_inv a \<Longrightarrow> u_screen u \<noteq> Paired_screen \<Longrightarrow> attempt_ok p \<Longrightarrow> pairing_inv (open_for p (advance u a))"
  by (auto simp: pairing_inv_def advance_complete intro: attempts_connect)

lemma startJoin_inv: "pairing_inv a \<Longrightarrow> pairing_inv (startJoin sid key a)"
  unfolding startJoin_def by (rule pairing_inv_open) (auto simp: attempt_ok_def intro: pairing_inv_same)

lemma join_text_inv: "pairing_inv a \<Longrightarrow> pairing_inv (join_text err txt' a)"
  by (auto simp: join_text_def intro: pairing_inv_fail startJoin_inv split: option.split)

lemma sk_message_inv:
  assumes "pairing_inv a"
  shows "pairing_inv (sk_message c i fr rnd a)"
proof (cases "i < length (a_socks a) \<and> k_ready (a_socks a ! i) = Open \<and> parseEnvelope fr \<noteq> None")
  case True
  then obtain env where env: "parseEnvelope fr = Some env" by blast
  let ?a = "map_sock i (\<lambda>k. k\<lparr>k_exchanges := map (\<lambda>(x, r). (x_onMessage fr x, r)) (k_exchanges k)\<rparr>) a"
  have "pairing_inv ?a" by (rule pairing_inv_same [OF _ _ _ assms]) simp_all
  then have "pairing_inv (flow_message c i (k_purpose (a_socks a ! i)) env rnd ?a)"
    by (simp add: pairing_inv_def flow_message_complete attempts_flow_message)
  then have "pairing_inv ((wired_message i env ^^ k_wired (a_socks a ! i))
      (flow_message c i (k_purpose (a_socks a ! i)) env rnd ?a))"
    by (rule funpow_keeps [rotated]) (simp add: pairing_inv_def wired_message_complete attempts_wired_message)
  then show ?thesis using True env by (simp add: sk_message_def Let_def)
qed (use assms in \<open>auto simp: sk_message_def Let_def\<close>)

lemma sk_close_inv:
  assumes "pairing_inv a"
  shows "pairing_inv (sk_close i a)"
proof (cases "i < length (a_socks a) \<and> k_ready (a_socks a ! i) \<noteq> Closed_socket")
  case True
  let ?a = "map_sock i (\<lambda>k. k\<lparr>k_ready := Closed_socket\<rparr>) a"
  have "attempt_ok (k_purpose (a_socks a ! i))"
    using assms True by (simp add: pairing_inv_def attempts_ok_def purposes_def)
  moreover have "pairing_inv ?a" by (rule pairing_inv_same [OF _ _ _ assms]) simp_all
  ultimately have "pairing_inv (flow_close i (k_purpose (a_socks a ! i)) ?a)"
    by (simp add: pairing_inv_def flow_close_complete attempts_flow_close)
  then have "pairing_inv ((wired_close i ^^ k_wired (a_socks a ! i)) (flow_close i (k_purpose (a_socks a ! i)) ?a))"
    by (rule funpow_keeps [rotated]) (simp add: pairing_inv_def wired_close_complete attempts_wired_close)
  then show ?thesis using True by (simp add: sk_close_def Let_def)
qed (use assms in \<open>auto simp: sk_close_def\<close>)

lemma fold_send [simp]:
  "a_ui (fold (\<lambda>env. app_send i (env_frame env)) envs a) = a_ui a"
  "purposes (fold (\<lambda>env. app_send i (env_frame env)) envs a) = purposes a"
  "a_reconnectTimers (fold (\<lambda>env. app_send i (env_frame env)) envs a) = a_reconnectTimers a"
  by (induction envs arbitrary: a) simp_all

lemma exchange_settles_inv:
  assumes "pairing_inv a"
  shows "pairing_inv (exchange_settles c i j a)"
proof -
  have f: "pairing_inv (finalizePaired i sid key role a')" if "pairing_inv a'" for sid key role a'
    using that by (simp add: pairing_inv_def)
  have "pairing_inv (fold (\<lambda>env. app_send i (env_frame env)) envs
      (map_sock i (\<lambda>k. k\<lparr>k_exchanges := (k_exchanges k)[j := x]\<rparr>) a))" for envs x
    by (rule pairing_inv_same [OF _ _ _ assms]) simp_all
  then show ?thesis
    using assms by (auto simp: exchange_settles_def Let_def intro: f pairing_inv_fail
        split: prod.split x_phase.split sum.split)
qed

lemma token_settles_inv:
  assumes "pairing_inv a"
  shows "pairing_inv (token_settles c n a)"
proof -
  have "pairing_inv (app_send i fr (a\<lparr>a_tokens := ts, a_ui := (a_ui a)\<lparr>u_reconnectToken := Some tok\<rparr>\<rparr>))" for i fr ts tok
    using assms by (simp add: pairing_inv_def paired_complete_def attempts_ok_def)
  moreover have "pairing_inv (a\<lparr>a_tokens := ts\<rparr>)" for ts
    by (rule pairing_inv_same [OF _ _ _ assms]) simp_all
  ultimately show ?thesis
    using assms by (auto simp: token_settles_def Let_def split: prod.split option.split sum.split)
qed

lemma scan_inv:
  assumes inv: "pairing_inv a"
  shows "pairing_inv (scan_granted n a)" "pairing_inv (scan_denied n a)" "pairing_inv (scan_decoded n txt' a)"
proof -
  have s: "pairing_inv (set_scan n p a)" "pairing_inv ((set_scan n p a)\<lparr>a_stopScan := x\<rparr>)" for p x
    by (rule pairing_inv_same [OF _ _ _ inv]; simp add: set_scan_def)+
  show "pairing_inv (scan_granted n a)" using s inv by (simp add: scan_granted_def)
  have "pairing_inv (fail_with code (set_scan n p a))" for code p by (rule pairing_inv_fail [OF s(1)])
  moreover from this have "pairing_inv ((fail_with code (set_scan n p a))\<lparr>a_stopScan := x\<rparr>)" for code p x
    by (rule pairing_inv_same [rotated 3]) simp_all
  ultimately show "pairing_inv (scan_denied n a)" using inv by (simp add: scan_denied_def Let_def)
  have "pairing_inv (stop_scan n a)" by (rule pairing_inv_same [OF _ _ _ inv]) simp_all
  moreover have "pairing_inv ((join_text err txt' (set_scan n p a))\<lparr>a_stopScan := x\<rparr>)" for err p x
    using join_text_inv [OF s(1)] by (rule pairing_inv_same [rotated 3]) simp_all
  ultimately show "pairing_inv (scan_decoded n txt' a)"
    using inv s(1) by (simp add: scan_decoded_def join_text_inv Let_def split: scan_phase.split)
qed

lemma transfer_ui_inv:
  assumes inv: "pairing_inv a"
  shows "pairing_inv (map_ui n f a)" "pairing_inv (ui_ready n a)" "pairing_inv (pick n files a)"
proof -
  show m: "pairing_inv (map_ui n f a)" for n f by (rule pairing_inv_same [OF _ _ _ inv]) simp_all
  have "pairing_inv (map_ui n g ((map_ui n f a)\<lparr>a_handle := h, a_pending := p\<rparr>))"
    "pairing_inv ((map_ui n f a)\<lparr>a_handle := h\<rparr>)" for n f g h p
    by (rule pairing_inv_same [OF _ _ _ inv]; simp)+
  then show "pairing_inv (ui_ready n a)" using inv by (auto simp: ui_ready_def Let_def split: option.split)
  have "pairing_inv (a\<lparr>a_pending := p\<rparr>)" for p by (rule pairing_inv_same [OF _ _ _ inv]) simp_all
  then have "pairing_inv (stale_files files a)" using m by (auto simp: stale_files_def Let_def split: option.split)
  then show "pairing_inv (pick n files a)" using m inv by (auto simp: pick_def)
qed

lemma swap_inv:
  assumes inv: "pairing_inv a"
  shows "pairing_inv (requestRoleSwap a)" "pairing_inv (swap_timeout a)"
proof -
  have same: "pairing_inv a'" if "a_ui a' = a_ui a" "purposes a' = purposes a" "a_reconnectTimers a' = a_reconnectTimers a" for a'
    using that inv by (rule pairing_inv_same)
  show "pairing_inv (requestRoleSwap a)"
    by (rule same) (auto simp: requestRoleSwap_def show_swap_def Let_def split: option.split)
  show "pairing_inv (swap_timeout a)"
    by (rule same) (auto simp: swap_timeout_def show_swap_def Let_def)
qed

lemma reconnect_timer_inv:
  assumes inv: "pairing_inv a"
  shows "pairing_inv (reconnect_timer n a)"
proof (cases "n < length (a_reconnectTimers a)")
  case True
  let ?a = "a\<lparr>a_reconnectTimers := take n (a_reconnectTimers a) @ drop (Suc n) (a_reconnectTimers a)\<rparr>"
  have "paired_complete ?a" using inv by (auto simp: pairing_inv_def intro: complete_same)
  moreover have "attempts_ok ?a"
    using inv by (auto simp: pairing_inv_def attempts_ok_def dest: in_set_takeD in_set_dropD)
  moreover have "a_reconnectTimers a ! n \<le> RECONNECT_MAX_ATTEMPTS"
    using inv True by (simp add: pairing_inv_def attempts_ok_def)
  ultimately show ?thesis
    using True by (simp add: reconnect_timer_def pairing_inv_def attemptReconnect_complete attempts_attemptReconnect)
qed (use inv in \<open>simp add: reconnect_timer_def\<close>)

lemma cancel_scan_inv: "pairing_inv a \<Longrightarrow> pairing_inv (cancel_scan a)"
  by (rule pairing_inv_same [of _ a]) (auto simp: cancel_scan_def Let_def split: list.split)

lemma click_inv:
  assumes inv: "pairing_inv a"
  shows "pairing_inv (click_back a)" "pairing_inv (startReceiverFlow a)" "pairing_inv (startReceiverCodeFlow a)"
    "pairing_inv (submit_code v a)" "pairing_inv (disconnectSession a)"
proof -
  show "pairing_inv (click_back a)"
    using inv cancel_scan_inv [OF inv] by (auto simp: click_back_def intro: pairing_inv_setState split: screen.split)
  show "pairing_inv (startReceiverFlow a)" "pairing_inv (startReceiverCodeFlow a)"
    using inv by (auto simp: startReceiverFlow_def startReceiverCodeFlow_def attempt_ok_def intro!: pairing_inv_open)
  show "pairing_inv (submit_code v a)"
    using inv by (auto simp: submit_code_def startJoinByCode_def attempt_ok_def intro: pairing_inv_fail
        intro!: pairing_inv_open split: option.split)
  have "pairing_inv (app_send i fr a)" for i fr by (rule pairing_inv_same [OF _ _ _ inv]) simp_all
  then show "pairing_inv (disconnectSession a)"
    using inv by (auto simp: disconnectSession_def intro!: pairing_inv_setState split: option.split)
qed

lemma app_step_inv:
  assumes inv: "pairing_inv a"
  shows "pairing_inv (app_step c a e)"
proof (cases e)
  case Click_send
  then show ?thesis using inv by (auto simp: on_screen_def intro: pairing_inv_advance)
next
  case Click_code_link
  then show ?thesis using inv by (auto simp: on_screen_def intro: pairing_inv_advance)
next
  case Click_code_send
  then show ?thesis using inv by (auto simp: on_screen_def intro: pairing_inv_advance)
next
  case Click_join
  then show ?thesis using inv by (auto simp: on_screen_def intro: startJoin_inv split: option.split)
next
  case Click_paste_instead
  then show ?thesis using inv by (auto simp: on_screen_def intro!: pairing_inv_setState cancel_scan_inv)
next
  case (Sk_open i)
  have "pairing_inv (app_send i fr (map_sock i (\<lambda>k. k\<lparr>k_ready := Open\<rparr>) a))" for fr
    by (rule pairing_inv_same [OF _ _ _ inv]) simp_all
  then show ?thesis using Sk_open inv by (simp add: sk_open_def)
qed (use inv in \<open>auto simp: on_screen_def click_inv join_text_inv sk_message_inv sk_close_inv exchange_settles_inv
      token_settles_inv scan_inv transfer_ui_inv swap_inv reconnect_timer_inv\<close>)

lemma initPairing_inv: "pairing_inv (initPairing secure hash)"
  by (auto simp: initPairing_def pairing_inv_def attempts_ok_def purposes_def app_empty_def paired_complete_def
      split: option.split)

interpretation pairing: event_machine "\<lambda>_. True" "\<lambda>(c, secure, hash). initPairing secure hash"
  "\<lambda>(c, secure, hash). app_step c" "\<lambda>_. pairing_inv"
  by unfold_locales (auto simp: initPairing_inv app_step_inv)

lemma app_run_inv: "pairing_inv (app_run c (initPairing secure hash) evs)"
  using pairing.reach_inv [of "(c, secure, hash)" evs] by simp

end
