(* ===== verification/PairingFlows.thy ===== *)
theory PairingFlows
  imports PairingProps
begin

section \<open>The flows of pairing\<close>

text \<open>
  Two clients that pair by link or by code, lose their connection, reconnect and swap roles, each
  as the sequence of events its machine sees; and runs in which an event reaches listeners of a
  socket, a timer or a camera that the user has already left.
\<close>

lemmas run_defs = on_screen_def sk_open_def sk_message_def sk_close_def flow_message_defs flow_close_defs
  wired_message_def wired_close_def startReceiverFlow_def startJoin_def open_for_def connect_def advance_def
  render_def renderSenderScanning_def renderPaired_def detachActiveTransfer_def setState_def cleanupActive_def
  stop_scan_def map_sock_def map_ui_def app_send_def k_send_def k_close_def open_frame_def finalizePaired_def
  initPairing_def app_empty_def ui_at_def cancel_scan_def join_text_def fail_with_def ui_error_def click_back_def

text \<open>Every run keeps the paired screen complete and the reconnection attempts within their bound.\<close>

text \<open>C16. Whatever events arrive in whatever order, the paired screen is never shown without a pairing
  role, a transfer role and a key epoch that is a number, so that no re-rendering of it (after a
  reconnection or a swap, also one whose message comes after another screen was shown) derives a
  key from NaN.\<close>

theorem paired_session_complete:
  assumes "u_screen (a_ui (app_run c (initPairing secure hash) evs)) = Paired_screen"
  shows "\<exists>role direction epoch. 0 \<le> epoch \<and>
    u_role (a_ui (app_run c (initPairing secure hash) evs)) = Some role \<and>
    u_transferRole (a_ui (app_run c (initPairing secure hash) evs)) = Some direction \<and>
    u_epoch (a_ui (app_run c (initPairing secure hash) evs)) = Some epoch"
  using app_run_inv [of c secure hash evs] assms by (auto simp: pairing_inv_def paired_complete_def)

subsection \<open>Pairing by link\<close>

text \<open>What the receiver's client sees, and the sender's, who pastes the link.\<close>

definition host_run :: "string \<Rightarrow> bytes \<Rightarrow> app_event list" where
  "host_run sid key = [Click_receive, Sk_open 0, Sk_message 0 (env_frame (Session_created sid)) key,
     Sk_message 0 (env_frame (Paired None)) []]"

definition guest_run :: "string \<Rightarrow> app_event list" where
  "guest_run url = [Click_send, Click_paste_instead, Submit_paste url, Sk_open 0,
     Sk_message 0 (env_frame (Paired None)) []]"

definition paired_ui :: "string option \<Rightarrow> bytes option \<Rightarrow> prole \<Rightarrow> ui" where
  "paired_ui sid key role = (ui_at Paired_screen)\<lparr>u_sessionId := sid, u_sessionKey := key, u_role := Some role,
     u_epoch := Some 0, u_transferRole := Some (if role = Host then Receiving else Sending)\<rparr>"

lemma host_paired:
  "let h = app_run c (initPairing True []) (host_run sid key)
   in a_ui h = paired_ui (Some sid) (Some key) Host \<and> a_active h = Some 0 \<and>
      map k_out (a_socks h) = [[env_frame Create_session]] \<and> map k_wired (a_socks h) = [1] \<and>
      map k_ready (a_socks h) = [Open] \<and> a_tokens h = [(0, Some sid, Some key)]"
  by (simp add: host_run_def run_defs paired_ui_def Let_def)

lemma guest_paired:
  assumes "parsePairingText url = Some (sid, key)"
  shows "let g = app_run c (initPairing True []) (guest_run url)
   in a_ui g = paired_ui (Some sid) (Some key) Guest \<and> a_active g = Some 0 \<and>
      map k_out (a_socks g) = [[env_frame (Join sid)]] \<and> map k_wired (a_socks g) = [1] \<and>
      map k_ready (a_socks g) = [Open] \<and> a_tokens g = [(0, Some sid, Some key)]"
  using assms by (simp add: guest_run_def run_defs paired_ui_def Let_def)

text \<open>C13. Pairing by link, end to end: the receiver starts, shows the link built from the relay's session id
  and its own random key; the sender pastes that link; after the relay's \<open>paired\<close> both are on the
  paired screen with the same session id, the same key and epoch 0, as host and guest, receiving
  and sending; the sender told the relay the session id and nothing of the key, and both go on to
  derive the same reconnect token.\<close>

theorem qr_pairing_agrees:
  assumes "sid \<noteq> []" "set sid \<subseteq> set url_chars" "length key = 32" "CHR ''#'' \<notin> set (pc_base c)"
  shows "let waiting = app_run c (initPairing True []) (take 3 (host_run sid key));
             url = buildPairingURL (pc_base c) sid key;
             host = app_run c (initPairing True []) (host_run sid key);
             guest = app_run c (initPairing True []) (guest_run url)
    in u_url (a_ui waiting) = Some url \<and>
       a_ui host = paired_ui (Some sid) (Some key) Host \<and> a_ui guest = paired_ui (Some sid) (Some key) Guest \<and>
       map k_out (a_socks host) = [[env_frame Create_session]] \<and>
       map k_out (a_socks guest) = [[env_frame (Join sid)]] \<and>
       a_tokens host = a_tokens guest"
proof -
  let ?url = "buildPairingURL (pc_base c) sid key"
  have "u_url (a_ui (app_run c (initPairing True []) (take 3 (host_run sid key)))) = Some ?url"
    by (simp add: host_run_def run_defs Let_def)
  moreover have "parsePairingText ?url = Some (sid, key)" using assms by (rule link_read)
  ultimately show ?thesis
    using host_paired [of c sid key] guest_paired [of ?url sid key c] by (simp add: Let_def)
qed

subsection \<open>A paired session\<close>

text \<open>The client shows the paired screen and its active socket \<open>i\<close> is open and wired once.\<close>

definition paired_on :: "app \<Rightarrow> nat \<Rightarrow> bool" where
  "paired_on a i \<longleftrightarrow> u_screen (a_ui a) = Paired_screen \<and> a_active a = Some i \<and> i < length (a_socks a) \<and>
     k_ready (a_socks a ! i) = Open \<and> k_wired (a_socks a ! i) = 1"

lemma host_paired_on: "paired_on (app_run c (initPairing True []) (host_run sid key)) 0"
  by (simp add: host_run_def run_defs paired_on_def Let_def)

lemma flow_message_other [simp]:
  "flow_message c i p Role_swap_request r a = a" "flow_message c i p (Role_swap_response b) r a = a"
  "flow_message c i p Peer_reconnected r a = a" "flow_message c i p Peer_disconnected r a = a"
  "flow_message c i p (Session_ended x) r a = a"
  by (simp_all add: flow_message_defs split: purpose.split)

text \<open>A message that only \<open>wirePairedSocket\<close> reads, on a socket that is wired once.\<close>

definition see_frame :: "frame \<Rightarrow> nat \<Rightarrow> app \<Rightarrow> app" where
  "see_frame fr i = map_sock i (\<lambda>k. k\<lparr>k_exchanges := map (\<lambda>(x, r). (x_onMessage fr x, r)) (k_exchanges k)\<rparr>)"

lemma see_frame_sock:
  "i < length (a_socks a) \<Longrightarrow> k_out (a_socks (see_frame fr i a) ! i) = k_out (a_socks a ! i) \<and>
     k_ready (a_socks (see_frame fr i a) ! i) = k_ready (a_socks a ! i) \<and>
     k_wired (a_socks (see_frame fr i a) ! i) = k_wired (a_socks a ! i)"
  by (simp add: see_frame_def map_sock_def)

lemma see_frame_simps [simp]:
  "a_ui (see_frame fr i a) = a_ui a" "a_active (see_frame fr i a) = a_active a"
  "length (a_socks (see_frame fr i a)) = length (a_socks a)" "a_uis (see_frame fr i a) = a_uis a"
  "a_handle (see_frame fr i a) = a_handle a" "a_swapAwaiting (see_frame fr i a) = a_swapAwaiting a"
  "a_swapDisabled (see_frame fr i a) = a_swapDisabled a" "a_swapTimers (see_frame fr i a) = a_swapTimers a"
  by (simp_all add: see_frame_def)

lemma wired_step:
  assumes "paired_on a i" "env \<in> {Role_swap_request, Role_swap_response b, Peer_reconnected, Peer_disconnected, Session_ended x}"
  shows "app_step c a (Sk_message i (env_frame env) r) = wired_message i env (see_frame (env_frame env) i a)"
proof -
  have "well_typed env" using assms(2) by auto
  then show ?thesis
    using assms by (auto simp: paired_on_def sk_message_def Let_def see_frame_def [symmetric])
qed

lemma app_send_out:
  "i < length (a_socks a) \<Longrightarrow> k_ready (a_socks a ! i) = Open \<Longrightarrow>
     k_out (a_socks (app_send i fr a) ! i) = k_out (a_socks a ! i) @ [fr]"
  by (simp add: app_send_def map_sock_def k_send_def)

lemma transfer_active_cong: "a_handle a' = a_handle a \<Longrightarrow> a_uis a' = a_uis a \<Longrightarrow> transfer_active a' = transfer_active a"
  by (simp add: transfer_active_def split: option.split)

lemma transfer_active_see [simp]: "transfer_active (see_frame fr i a) = transfer_active a"
  by (rule transfer_active_cong) simp_all

lemma flip_simps [simp]:
  "a_socks (flipTransferRole a) = a_socks a" "a_active (flipTransferRole a) = a_active a"
  "u_transferRole (a_ui (flipTransferRole a)) = Some (if u_transferRole (a_ui a) = Some Sending then Receiving else Sending)"
  "u_screen (a_ui (flipTransferRole a)) = u_screen (a_ui a)"
  by (simp_all add: flipTransferRole_def)

lemma flip_paired:
  assumes "u_screen (a_ui a) = Paired_screen"
  shows "\<not> a_swapAwaiting (flipTransferRole a)" "\<not> a_swapDisabled (flipTransferRole a)" "a_swapStatus (flipTransferRole a) = None"
  using assms by (simp_all add: flipTransferRole_def render_def renderPaired_def Let_def)

lemma click_swap:
  assumes "paired_on a i" "\<not> transfer_active a" "\<not> a_swapAwaiting a" "\<not> a_swapDisabled a"
  shows "paired_on (app_step c a Click_swap) i" "a_swapAwaiting (app_step c a Click_swap)"
    "a_ui (app_step c a Click_swap) = a_ui a"
    "k_out (a_socks (app_step c a Click_swap) ! i) = k_out (a_socks a ! i) @ [env_frame Role_swap_request]"
    "a_swapTimers (app_step c a Click_swap) = Suc (a_swapTimers a)"
  using assms by (simp_all add: paired_on_def requestRoleSwap_def on_screen_def show_swap_def Let_def app_send_def map_sock_def
      k_send_def)

lemma get_request:
  fixes c :: pairing_ctx and r :: bytes
  assumes "paired_on b j"
  defines "busy \<equiv> transfer_active b \<or> a_swapAwaiting b"
  defines "b' \<equiv> app_step c b (Sk_message j (env_frame Role_swap_request) r)"
  shows "k_out (a_socks b' ! j) = k_out (a_socks b ! j) @ [env_frame (Role_swap_response (\<not> busy))]"
    "u_transferRole (a_ui b') = (if busy then u_transferRole (a_ui b)
       else Some (if u_transferRole (a_ui b) = Some Sending then Receiving else Sending))"
    "busy \<Longrightarrow> paired_on b' j" "busy \<Longrightarrow> a_swapAwaiting b' = a_swapAwaiting b"
proof -
  have s: "b' = (let a1 = app_send j (env_frame (Role_swap_response (\<not> busy))) (see_frame (env_frame Role_swap_request) j b)
      in if busy then a1 else flipTransferRole a1)"
    unfolding b'_def busy_def using wired_step [OF assms(1), of Role_swap_request] by (simp add: wired_message_def Let_def)
  have j: "j < length (a_socks b)" "k_ready (a_socks b ! j) = Open" using assms(1) by (simp_all add: paired_on_def)
  show "k_out (a_socks b' ! j) = k_out (a_socks b ! j) @ [env_frame (Role_swap_response (\<not> busy))]"
    using j by (simp add: s app_send_out see_frame_sock Let_def)
  show "u_transferRole (a_ui b') = (if busy then u_transferRole (a_ui b)
       else Some (if u_transferRole (a_ui b) = Some Sending then Receiving else Sending))"
    by (simp add: s Let_def)
  show "paired_on b' j" if busy
    using that assms(1) j see_frame_sock [OF j(1)] by (simp add: s paired_on_def app_send_def map_sock_def k_send_def)
  show "a_swapAwaiting b' = a_swapAwaiting b" if busy using that by (simp add: s)
qed

lemma get_response:
  fixes c :: pairing_ctx and r :: bytes and accepted :: bool
  assumes "paired_on a i" "a_swapAwaiting a"
  defines "a' \<equiv> app_step c a (Sk_message i (env_frame (Role_swap_response accepted)) r)"
  shows "u_transferRole (a_ui a') = (if accepted then Some (if u_transferRole (a_ui a) = Some Sending then Receiving else Sending)
       else u_transferRole (a_ui a))"
    "\<not> a_swapAwaiting a'" "\<not> a_swapDisabled a'" "a_swapStatus a' = (if accepted then None else Some ''swapRejected'')"
proof -
  let ?a = "see_frame (env_frame (Role_swap_response accepted)) i a"
  have s: "a' = (if accepted then flipTransferRole (?a\<lparr>a_swapAwaiting := False\<rparr>)
      else show_swap ''swapRejected'' (?a\<lparr>a_swapAwaiting := False, a_swapDisabled := False\<rparr>))"
    unfolding a'_def using wired_step [OF assms(1), of "Role_swap_response accepted"] assms(2) by (simp add: wired_message_def Let_def)
  have p: "u_screen (a_ui (?a\<lparr>a_swapAwaiting := False\<rparr>)) = Paired_screen" using assms(1) by (simp add: paired_on_def)
  show "u_transferRole (a_ui a') = (if accepted then Some (if u_transferRole (a_ui a) = Some Sending then Receiving else Sending)
       else u_transferRole (a_ui a))" by (simp add: s)
  show "\<not> a_swapAwaiting a'" "\<not> a_swapDisabled a'" "a_swapStatus a' = (if accepted then None else Some ''swapRejected'')"
    using flip_paired [OF p] by (cases accepted; simp add: s show_swap_def)+
qed

subsection \<open>Role swap\<close>

text \<open>C19. A role swap between two paired clients of opposite transfer roles, not interrupted: the one asks, the
  other answers, and either both have swapped, or (the other is busy or asks itself) both keep their
  role; the roles stay opposite, the button is enabled again, and a refusal is shown.\<close>

theorem role_swap_keeps_opposite:
  assumes "paired_on a i" "paired_on b j" "\<not> transfer_active a" "\<not> a_swapAwaiting a" "\<not> a_swapDisabled a"
    and "u_transferRole (a_ui a) = Some x" "u_transferRole (a_ui b) = Some y" "x \<noteq> y"
  shows "let busy = transfer_active b \<or> a_swapAwaiting b;
      a1 = app_step c a Click_swap;
      b' = app_step c b (Sk_message j (env_frame Role_swap_request) r);
      a' = app_step c a1 (Sk_message i (env_frame (Role_swap_response (\<not> busy))) r')
    in k_out (a_socks a1 ! i) = k_out (a_socks a ! i) @ [env_frame Role_swap_request] \<and>
       k_out (a_socks b' ! j) = k_out (a_socks b ! j) @ [env_frame (Role_swap_response (\<not> busy))] \<and>
       (u_transferRole (a_ui a'), u_transferRole (a_ui b')) = (if busy then (Some x, Some y) else (Some y, Some x)) \<and>
       \<not> a_swapAwaiting a' \<and> \<not> a_swapDisabled a' \<and>
       a_swapStatus a' = (if busy then Some ''swapRejected'' else None)"
proof -
  define busy where "busy = (transfer_active b \<or> a_swapAwaiting b)"
  define a1 where "a1 = app_step c a Click_swap"
  have click: "paired_on a1 i" "a_swapAwaiting a1" "a_ui a1 = a_ui a"
    "k_out (a_socks a1 ! i) = k_out (a_socks a ! i) @ [env_frame Role_swap_request]"
    using click_swap [OF assms(1,3,4,5)] by (simp_all add: a1_def)
  note b = get_request [OF assms(2), folded busy_def, of c r]
  note a = get_response [OF click(1,2), of c "\<not> busy" r']
  have flip: "(if Some x = Some Sending then Receiving else Sending) = y" "(if Some y = Some Sending then Receiving else Sending) = x"
    using assms(8) by (cases x; cases y; simp)+
  show ?thesis
    unfolding Let_def busy_def [symmetric] a1_def [symmetric]
    using click b(1,2) a assms(6,7) flip by (cases busy) simp_all
qed

text \<open>When both ask at the same time, both refuse, both are told so, and both keep their role.\<close>

theorem simultaneous_swaps_rejected:
  assumes "paired_on a i" "\<not> transfer_active a" "\<not> a_swapAwaiting a" "\<not> a_swapDisabled a"
  shows "let a' = app_run c a [Click_swap, Sk_message i (env_frame Role_swap_request) r,
             Sk_message i (env_frame (Role_swap_response False)) r']
    in k_out (a_socks (app_run c a [Click_swap, Sk_message i (env_frame Role_swap_request) r]) ! i) =
         k_out (a_socks a ! i) @ [env_frame Role_swap_request, env_frame (Role_swap_response False)] \<and>
       u_transferRole (a_ui a') = u_transferRole (a_ui a) \<and> \<not> a_swapAwaiting a' \<and> \<not> a_swapDisabled a' \<and>
       a_swapStatus a' = Some ''swapRejected''"
proof -
  define a1 where "a1 = app_step c a Click_swap"
  have click: "paired_on a1 i" "a_swapAwaiting a1" "a_ui a1 = a_ui a"
    "k_out (a_socks a1 ! i) = k_out (a_socks a ! i) @ [env_frame Role_swap_request]"
    using click_swap [OF assms] by (simp_all add: a1_def)
  define a2 where "a2 = app_step c a1 (Sk_message i (env_frame Role_swap_request) r)"
  have req: "k_out (a_socks a2 ! i) = k_out (a_socks a1 ! i) @ [env_frame (Role_swap_response False)]"
    "u_transferRole (a_ui a2) = u_transferRole (a_ui a1)" "paired_on a2 i" "a_swapAwaiting a2"
    using get_request [OF click(1), of c r] click(2) by (simp_all add: a2_def)
  show ?thesis
    unfolding run_Cons run_Nil Let_def a1_def [symmetric] a2_def [symmetric]
    using get_response [OF req(3,4), of c False r'] req click by simp
qed

text \<open>An acceptance that arrives after the 8 seconds are over is ignored, while the other side has
  already swapped: from then on both clients have the same transfer role.\<close>

theorem late_acceptance_splits_roles:
  assumes "paired_on a i" "paired_on b j" "\<not> transfer_active a" "\<not> a_swapAwaiting a" "\<not> a_swapDisabled a"
    and "\<not> transfer_active b" "\<not> a_swapAwaiting b"
    and "u_transferRole (a_ui a) = Some x" "u_transferRole (a_ui b) = Some y" "x \<noteq> y"
  shows "let b' = app_step c b (Sk_message j (env_frame Role_swap_request) r);
      a' = app_run c a [Click_swap, Swap_timeout, Sk_message i (env_frame (Role_swap_response True)) r']
    in k_out (a_socks b' ! j) = k_out (a_socks b ! j) @ [env_frame (Role_swap_response True)] \<and>
       u_transferRole (a_ui a') = Some x \<and> u_transferRole (a_ui b') = Some x"
proof -
  define a1 where "a1 = app_step c a Click_swap"
  have click: "paired_on a1 i" "a_swapAwaiting a1" "a_ui a1 = a_ui a" "a_swapTimers a1 = Suc (a_swapTimers a)"
    using click_swap [OF assms(1,3,4,5)] by (simp_all add: a1_def)
  define a2 where "a2 = swap_timeout a1"
  have time: "paired_on a2 i" "\<not> a_swapAwaiting a2" "a_ui a2 = a_ui a"
    using click by (simp_all add: a2_def swap_timeout_def show_swap_def paired_on_def)
  have "a_ui (app_step c a2 (Sk_message i (env_frame (Role_swap_response True)) r')) = a_ui a"
    using wired_step [OF time(1), of "Role_swap_response True"] time(2,3) by (simp add: wired_message_def)
  then have "u_transferRole (a_ui (app_run c a [Click_swap, Swap_timeout, Sk_message i (env_frame (Role_swap_response True)) r'])) = Some x"
    using assms(8) by (simp add: a1_def a2_def)
  moreover have "(if Some y = Some Sending then Receiving else Sending) = x" using assms(10) by (cases x; cases y; simp)
  ultimately show ?thesis using get_request(1,2) [OF assms(2), of c r] assms(6,7,9) by (simp add: Let_def)
qed

subsection \<open>Losing the connection\<close>

text \<open>C17. After the one client is back on a new socket and the other is told so, both have advanced their
  epoch by one and have a new transfer UI for that epoch, with the same session key and their
  transfer role unchanged, on the socket that now carries the session; the transfer UI each had
  before no longer listens.\<close>

theorem reconnect_keeps_epochs:
  assumes "u_screen (a_ui a) = Paired_screen" "u_epoch (a_ui a) = Some e" "i < length (a_socks a)"
    "k_ready (a_socks a ! i) = Open" "k_wired (a_socks a ! i) = 0"
    "k_purpose (a_socks a ! i) = P_reconnect n sid role token" "a_handle a = Some h" "h < length (a_uis a)"
    and "paired_on b j" "u_epoch (a_ui b) = Some e" "a_handle b = Some g" "g < length (a_uis b)"
  shows "let a' = app_step c a (Sk_message i (env_frame Reconnected) r);
      b' = app_step c b (Sk_message j (env_frame Peer_reconnected) r')
    in a_ui a' = (a_ui a)\<lparr>u_epoch := Some (e + 1)\<rparr> \<and> a_ui b' = (a_ui b)\<lparr>u_epoch := Some (e + 1)\<rparr> \<and>
       paired_on a' i \<and> paired_on b' j \<and>
       t_epoch (last (a_uis a')) = e + 1 \<and> t_epoch (last (a_uis b')) = e + 1 \<and>
       t_socket (last (a_uis a')) = Some i \<and> t_socket (last (a_uis b')) = Some j \<and>
       t_key (last (a_uis a')) = u_sessionKey (a_ui a) \<and> t_key (last (a_uis b')) = u_sessionKey (a_ui b) \<and>
       t_role (last (a_uis a')) = u_transferRole (a_ui a) \<and> t_role (last (a_uis b')) = u_transferRole (a_ui b) \<and>
       t_detached (a_uis a' ! h) \<and> t_detached (a_uis b' ! g) \<and> a_reconnectStatus a' = None \<and> a_reconnectStatus b' = None"
proof -
  define a' where "a' = app_step c a (Sk_message i (env_frame Reconnected) r)"
  define b' where "b' = app_step c b (Sk_message j (env_frame Peer_reconnected) r')"
  have a: "a_ui a' = (a_ui a)\<lparr>u_epoch := Some (e + 1)\<rparr> \<and> paired_on a' i \<and> t_epoch (last (a_uis a')) = e + 1 \<and>
      t_socket (last (a_uis a')) = Some i \<and> t_key (last (a_uis a')) = u_sessionKey (a_ui a) \<and>
      t_role (last (a_uis a')) = u_transferRole (a_ui a) \<and> t_detached (a_uis a' ! h) \<and> a_reconnectStatus a' = None"
    using assms(1-8)
    by (simp add: a'_def sk_message_def flow_message_defs next_epoch_def render_def renderPaired_def detachActiveTransfer_def
        map_sock_def map_ui_def paired_on_def Let_def nth_append)
  have "b' = render (next_epoch (see_frame (env_frame Peer_reconnected) j b))"
    unfolding b'_def using wired_step [OF assms(9), of Peer_reconnected] by (simp add: wired_message_def)
  then have b: "a_ui b' = (a_ui b)\<lparr>u_epoch := Some (e + 1)\<rparr> \<and> paired_on b' j \<and> t_epoch (last (a_uis b')) = e + 1 \<and>
      t_socket (last (a_uis b')) = Some j \<and> t_key (last (a_uis b')) = u_sessionKey (a_ui b) \<and>
      t_role (last (a_uis b')) = u_transferRole (a_ui b) \<and> t_detached (a_uis b' ! g) \<and> a_reconnectStatus b' = None"
    using assms(9-12)
    by (simp add: next_epoch_def render_def renderPaired_def detachActiveTransfer_def see_frame_def
        map_sock_def map_ui_def paired_on_def Let_def nth_append)
  show ?thesis unfolding Let_def a'_def [symmetric] b'_def [symmetric] using a b by simp
qed

text \<open>The \<open>n\<close>-th attempt waits for its socket, the last one, and nothing else is pending.\<close>

definition attempting :: "nat \<Rightarrow> app \<Rightarrow> bool" where
  "attempting n a \<longleftrightarrow> u_screen (a_ui a) = Paired_screen \<and> a_active a = None \<and> a_reconnectTimers a = [] \<and>
     a_socks a \<noteq> [] \<and> k_ready (last (a_socks a)) \<noteq> Closed_socket \<and> k_wired (last (a_socks a)) = 0 \<and>
     (\<exists>sid role token. k_purpose (last (a_socks a)) = P_reconnect n sid role token) \<and> u_reconnectToken (a_ui a) \<noteq> None"

definition failing_attempts :: "nat \<Rightarrow> nat \<Rightarrow> app_event list" where
  "failing_attempts m k = concat (map (\<lambda>n. [Sk_close (m + n), Reconnect_timer 0]) [0..<k])"

lemma attempt_fails:
  assumes "attempting n a" "n < RECONNECT_MAX_ATTEMPTS" "Suc m = length (a_socks a)"
  shows "attempting (Suc n) (app_run c a [Sk_close m, Reconnect_timer 0])"
    "length (a_socks (app_run c a [Sk_close m, Reconnect_timer 0])) = Suc (Suc m)"
proof -
  have l: "last (a_socks a) = a_socks a ! m" "m < length (a_socks a)"
    using assms by (simp_all add: attempting_def last_conv_nth flip: assms(3))
  obtain sid role token tok where p: "k_purpose (a_socks a ! m) = P_reconnect n sid role token" "u_reconnectToken (a_ui a) = Some tok"
    using assms(1) by (auto simp: attempting_def l)
  define a1 where "a1 = app_step c a (Sk_close m)"
  have s: "k_ready (a_socks a ! m) \<noteq> Closed_socket" "k_wired (a_socks a ! m) = 0" "a_active a = None"
    "a_reconnectTimers a = []" "u_screen (a_ui a) = Paired_screen"
    using assms(1) by (simp_all add: attempting_def l)
  then have "a1 = (map_sock m (\<lambda>k. k\<lparr>k_ready := Closed_socket\<rparr>) a)\<lparr>a_reconnectTimers := [Suc n]\<rparr>"
    using assms(2) p l by (simp add: a1_def sk_close_def flow_close_defs Let_def)
  then show "attempting (Suc n) (app_run c a [Sk_close m, Reconnect_timer 0])"
    "length (a_socks (app_run c a [Sk_close m, Reconnect_timer 0])) = Suc (Suc m)"
    unfolding run_Cons run_Nil a1_def [symmetric] using s p assms(3)
    by (simp_all add: attempting_def reconnect_timer_def attemptReconnect_def connect_def Let_def)
qed

lemma attempts_fail:
  assumes "attempting n a" "n + k \<le> RECONNECT_MAX_ATTEMPTS" "Suc m = length (a_socks a)"
  shows "attempting (n + k) (app_run c a (failing_attempts m k)) \<and> length (a_socks (app_run c a (failing_attempts m k))) = Suc (m + k)"
  using assms(2)
proof (induction k)
  case 0
  then show ?case using assms by (simp add: failing_attempts_def)
next
  case (Suc k)
  then have ih: "attempting (n + k) (app_run c a (failing_attempts m k))"
    "Suc (m + k) = length (a_socks (app_run c a (failing_attempts m k)))" by simp_all
  have more: "failing_attempts m (Suc k) = failing_attempts m k @ [Sk_close (m + k), Reconnect_timer 0]"
    by (simp add: failing_attempts_def)
  have "n + k < RECONNECT_MAX_ATTEMPTS" using Suc.prems by simp
  from attempt_fails [OF ih(1) this ih(2), of c] show ?case unfolding more run_append by simp
qed


subsection \<open>Closed examples\<close>

definition demo_ctx :: pairing_ctx where
  "demo_ctx = \<lparr>pc_wc = demo_crypto, pc_engine = demo_engine, pc_base = ''https://q.example/''\<rparr>"

theorem paired_session_complete_witness:
  "\<exists>role direction epoch. 0 \<le> epoch \<and>
    u_role (a_ui (app_run demo_ctx (initPairing True []) (host_run ''Ab-_9'' (replicate 32 200)))) = Some role \<and>
    u_transferRole (a_ui (app_run demo_ctx (initPairing True []) (host_run ''Ab-_9'' (replicate 32 200)))) = Some direction \<and>
    u_epoch (a_ui (app_run demo_ctx (initPairing True []) (host_run ''Ab-_9'' (replicate 32 200)))) = Some epoch"
proof (rule paired_session_complete)
  show "u_screen (a_ui (app_run demo_ctx (initPairing True []) (host_run ''Ab-_9'' (replicate 32 200)))) = Paired_screen"
    using host_paired [of demo_ctx "''Ab-_9''" "replicate 32 200"] by (simp add: Let_def paired_ui_def)
qed

theorem qr_pairing_agrees_witness:
  "let waiting = app_run demo_ctx (initPairing True []) (take 3 (host_run ''Ab-_9'' (replicate 32 200)));
       url = buildPairingURL (pc_base demo_ctx) ''Ab-_9'' (replicate 32 200);
       host = app_run demo_ctx (initPairing True []) (host_run ''Ab-_9'' (replicate 32 200));
       guest = app_run demo_ctx (initPairing True []) (guest_run url)
   in u_url (a_ui waiting) = Some url \<and>
      a_ui host = paired_ui (Some ''Ab-_9'') (Some (replicate 32 200)) Host \<and>
      a_ui guest = paired_ui (Some ''Ab-_9'') (Some (replicate 32 200)) Guest \<and>
      map k_out (a_socks host) = [[env_frame Create_session]] \<and>
      map k_out (a_socks guest) = [[env_frame (Join ''Ab-_9'')]] \<and>
      a_tokens host = a_tokens guest"
  by (rule qr_pairing_agrees) (simp_all add: url_chars_def demo_ctx_def)


end
