(* ===== verification/PairingLoss.thy ===== *)
theory PairingLoss
  imports PairingFlows
begin

section \<open>Lost connections and leaving a session\<close>

text \<open>
  What the client does when its connection is lost for good, what leaving a session cleans up, and
  what events that were under way when the user left still do; at the end two paired clients as
  closed examples for these and the swap and reconnection properties.
\<close>

lemma lost_attempting:
  assumes "paired_on a i" "u_reconnectToken (a_ui a) = Some tok" "a_reconnectTimers a = []"
  shows "attempting 1 (app_step c a (Sk_close i))"
    "length (a_socks (app_step c a (Sk_close i))) = Suc (length (a_socks a))"
  using assms by (auto simp: paired_on_def attempting_def sk_close_def flow_close_defs wired_close_def attemptReconnect_def
      connect_def map_sock_def Let_def split: purpose.split)

text \<open>C18. A connection that does not come back: when the socket of a paired session closes and every new
  one fails too, the client makes RECONNECT_MAX_ATTEMPTS attempts, one socket each, staying on the
  paired screen meanwhile, and then stops on the error screen with \<open>connection_lost\<close>.\<close>

theorem reconnect_gives_up:
  assumes "paired_on a i" "u_reconnectToken (a_ui a) = Some tok" "a_reconnectTimers a = []"
  shows "let m = length (a_socks a);
      trying = app_run c a (Sk_close i # failing_attempts m (RECONNECT_MAX_ATTEMPTS - 1));
      over = app_step c trying (Sk_close (m + RECONNECT_MAX_ATTEMPTS - 1))
    in u_screen (a_ui trying) = Paired_screen \<and> length (a_socks trying) = m + RECONNECT_MAX_ATTEMPTS \<and>
       a_ui over = ui_error (Some ''connection_lost'') \<and> length (a_socks over) = m + RECONNECT_MAX_ATTEMPTS \<and>
       a_reconnectTimers over = [] \<and> a_active over = None"
proof -
  define m where "m = length (a_socks a)"
  define trying where "trying = app_run c a (Sk_close i # failing_attempts m 14)"
  note first = lost_attempting [OF assms, of c]
  have t: "attempting 15 trying" "length (a_socks trying) = m + 15"
    using attempts_fail [OF first(1), of 14 m c] first(2) by (simp_all add: trying_def m_def RECONNECT_MAX_ATTEMPTS_def)
  then have l: "last (a_socks trying) = a_socks trying ! (m + 14)"
    by (simp add: attempting_def last_conv_nth add.commute)
  then have "app_step c trying (Sk_close (m + 14)) =
      fail_with ''connection_lost'' (map_sock (m + 14) (\<lambda>k. k\<lparr>k_ready := Closed_socket\<rparr>) trying)"
    using t by (auto simp: attempting_def sk_close_def flow_close_defs RECONNECT_MAX_ATTEMPTS_def Let_def)
  moreover have "length (a_socks (fail_with code a)) = length (a_socks a)" "a_active (fail_with code a) = None" for code a
    by (simp_all add: fail_with_def setState_def cleanupActive_def Let_def split: option.split)
  ultimately have "a_ui (app_step c trying (Sk_close (m + 14))) = ui_error (Some ''connection_lost'') \<and>
      length (a_socks (app_step c trying (Sk_close (m + 14)))) = m + 15 \<and>
      a_reconnectTimers (app_step c trying (Sk_close (m + 14))) = [] \<and> a_active (app_step c trying (Sk_close (m + 14))) = None"
    using t by (simp add: attempting_def)
  moreover have "RECONNECT_MAX_ATTEMPTS - 1 = 14" "m + RECONNECT_MAX_ATTEMPTS - 1 = m + 14" "RECONNECT_MAX_ATTEMPTS = 15"
    by (simp_all add: RECONNECT_MAX_ATTEMPTS_def)
  ultimately show ?thesis
    unfolding Let_def m_def [symmetric] using t by (simp add: trying_def [symmetric] attempting_def del: run_Cons app_step.simps)
qed

subsection \<open>Leaving\<close>

text \<open>C20. Disconnecting from a paired session: the relay is told \<open>end_session\<close> as the last message of the
  connection, the socket is closed, the transfer UI no longer listens, files waiting for a
  connection are forgotten, and nothing of the session is left in the state.\<close>

theorem disconnect_cleans_up:
  assumes "paired_on a i" "a_handle a = Some h" "h < length (a_uis a)"
  shows "let a' = app_step c a Click_disconnect
    in a_ui a' = ui_at Role_select \<and> a_active a' = None \<and> a_handle a' = None \<and> a_pending a' = None \<and>
       k_out (a_socks a' ! i) = k_out (a_socks a ! i) @ [env_frame End_session] \<and>
       k_ready (a_socks a' ! i) = Closing \<and> t_detached (a_uis a' ! h) \<and>
       a_uis (map_ui h (\<lambda>t. t\<lparr>t_detached := True\<rparr>) a) = a_uis a'"
  using assms
  by (auto simp: paired_on_def disconnectSession_def on_screen_def setState_def cleanupActive_def detachActiveTransfer_def
      app_send_def map_sock_def map_ui_def k_send_def k_close_def stop_scan_def advance_def render_def ui_at_def Let_def
      split: option.split)

text \<open>The close event of a socket the user has left (here after Back on the receiver's waiting screen,
  and after Disconnect) still reaches the listener of its flow, which tests only the screen: the
  start screen is replaced by the error \<open>connection_lost\<close>.\<close>

theorem leaving_shows_connection_lost:
  "let waiting = take 3 (host_run sid key)
   in a_ui (app_run c (initPairing True []) (waiting @ [Click_back])) = ui_at Role_select \<and>
      a_ui (app_run c (initPairing True []) (waiting @ [Click_back, Sk_close 0])) = ui_error (Some ''connection_lost'') \<and>
      a_ui (app_run c (initPairing True []) (host_run sid key @ [Click_disconnect])) = ui_at Role_select \<and>
      a_ui (app_run c (initPairing True []) (host_run sid key @ [Click_disconnect, Sk_close 0])) = ui_error (Some ''connection_lost'')"
  by (simp add: host_run_def run_defs disconnectSession_def Let_def)

text \<open>Disconnecting while an attempt to reconnect is under way does not abandon it: its socket is not
  closed, still presents the reconnect token when it opens, and when the relay accepts it becomes
  the active, wired socket of a client that shows the start screen.\<close>

theorem disconnect_does_not_stop_reconnect:
  assumes "attempting n a" "Suc m = length (a_socks a)" "k_ready (last (a_socks a)) = Connecting"
  shows "let left = app_step c a Click_disconnect;
      back = app_run c left [Sk_open m, Sk_message m (env_frame Reconnected) r]
    in a_ui left = ui_at Role_select \<and> k_ready (a_socks left ! m) = Connecting \<and>
       u_screen (a_ui back) = Role_select \<and> a_active back = Some m \<and> k_ready (a_socks back ! m) = Open \<and>
       k_wired (a_socks back ! m) = 1 \<and>
       k_out (a_socks back ! m) = k_out (a_socks a ! m) @ [open_frame (k_purpose (a_socks a ! m))]"
proof -
  have l: "last (a_socks a) = a_socks a ! m" "m < length (a_socks a)"
    using assms by (simp_all add: attempting_def last_conv_nth flip: assms(2))
  have left: "a_ui (app_step c a Click_disconnect) = ui_at Role_select" "a_socks (app_step c a Click_disconnect) = a_socks a"
    using assms(1) by (simp_all add: attempting_def on_screen_def disconnectSession_def setState_def cleanupActive_def Let_def
        split: option.split)
  define b where "b = app_step c a Click_disconnect"
  have b: "a_ui b = ui_at Role_select" "a_socks b = a_socks a" using left by (simp_all add: b_def)
  obtain sid role token where p: "k_purpose (a_socks a ! m) = P_reconnect n sid role token"
    using assms(1) by (auto simp: attempting_def l)
  have w: "k_wired (a_socks a ! m) = 0" using assms(1) by (simp add: attempting_def l)
  show ?thesis
    unfolding Let_def b_def [symmetric]
    using b l p w assms(3)
    by (simp add: sk_open_def sk_message_def flow_message_defs next_epoch_def app_send_def map_sock_def k_send_def render_def
        ui_at_def Let_def)
qed

text \<open>When the paired screen is rendered again before the promise of its first transfer UI has resolved,
  only the last UI that becomes ready can ever be detached: the one of the old epoch stays attached
  to the same socket beside it.\<close>

theorem stale_transfer_ui_stays_attached:
  assumes "length key = 32"
  shows "let a = app_run c (initPairing True [])
        (host_run sid key @ [Sk_message 0 (env_frame Peer_reconnected) [], Ui_ready 0, Ui_ready 1])
    in map t_epoch (a_uis a) = [0, 1] \<and> map t_socket (a_uis a) = [Some 0, Some 0] \<and>
       map t_ready (a_uis a) = [True, True] \<and> map t_detached (a_uis a) = [False, False] \<and> a_handle a = Some 1"
  using assms by (simp add: host_run_def run_defs next_epoch_def ui_ready_def Let_def)

subsection \<open>Closed examples\<close>

definition demo_host :: app where
  "demo_host = app_run demo_ctx (initPairing True [])
     (host_run ''Ab-_9'' (replicate 32 200) @ [Ui_ready 0, Token_settles 0])"

definition demo_guest :: app where
  "demo_guest = app_run demo_ctx (initPairing True [])
     (guest_run (buildPairingURL ''https://q.example/'' ''Ab-_9'' (replicate 32 200)) @ [Ui_ready 0, Token_settles 0])"

lemma demo_link: "parsePairingText (buildPairingURL ''https://q.example/'' ''Ab-_9'' (replicate 32 200)) = Some (''Ab-_9'', replicate 32 200)"
  by (rule link_read) (simp_all add: url_chars_def)

lemma demo_host:
  "paired_on demo_host 0" "a_handle demo_host = Some 0" "length (a_uis demo_host) = 1" "a_reconnectTimers demo_host = []"
  "\<not> transfer_active demo_host" "\<not> a_swapAwaiting demo_host" "\<not> a_swapDisabled demo_host" "length (a_socks demo_host) = 1"
  "u_transferRole (a_ui demo_host) = Some Receiving" "u_epoch (a_ui demo_host) = Some 0"
  by (simp_all add: demo_host_def host_run_def run_defs ui_ready_def token_settles_def paired_on_def transfer_active_def Let_def
      split: sum.split)

lemma demo_guest:
  "paired_on demo_guest 0" "a_handle demo_guest = Some 0" "length (a_uis demo_guest) = 1" "a_reconnectTimers demo_guest = []"
  "\<not> transfer_active demo_guest" "\<not> a_swapAwaiting demo_guest" "\<not> a_swapDisabled demo_guest" "length (a_socks demo_guest) = 1"
  "u_transferRole (a_ui demo_guest) = Some Sending" "u_epoch (a_ui demo_guest) = Some 0"
  by (simp_all add: demo_guest_def guest_run_def demo_link run_defs ui_ready_def token_settles_def paired_on_def transfer_active_def
      Let_def split: sum.split)

lemma demo_token: "\<exists>tok. u_reconnectToken (a_ui demo_host) = Some tok"
  by (simp add: demo_host_def host_run_def run_defs ui_ready_def token_settles_def Let_def demo_ctx_def deriveReconnectToken_def
     demo_crypto_def split: sum.split)

lemma demo_trying:
  "attempting 1 (app_step demo_ctx demo_host (Sk_close 0))" "length (a_socks (app_step demo_ctx demo_host (Sk_close 0))) = 2"
  using demo_token demo_host lost_attempting [of demo_host 0 _ demo_ctx] by auto

definition demo_back :: app where
  "demo_back = app_run demo_ctx demo_host [Sk_close 0, Sk_open 1]"

lemma demo_back:
  "u_screen (a_ui demo_back) = Paired_screen" "u_epoch (a_ui demo_back) = Some 0" "1 < length (a_socks demo_back)"
  "k_ready (a_socks demo_back ! 1) = Open" "k_wired (a_socks demo_back ! 1) = 0" "a_handle demo_back = Some 0"
  "0 < length (a_uis demo_back)"
  "\<exists>sid role token. k_purpose (a_socks demo_back ! 1) = P_reconnect 1 sid role token"
  "k_ready (last (a_socks (app_step demo_ctx demo_host (Sk_close 0)))) = Connecting"
  by (simp_all add: demo_back_def demo_host_def host_run_def run_defs ui_ready_def token_settles_def Let_def demo_ctx_def
      deriveReconnectToken_def demo_crypto_def attemptReconnect_def split: sum.split)

theorem role_swap_keeps_opposite_witness:
  "let busy = transfer_active demo_host \<or> a_swapAwaiting demo_host;
      a1 = app_step demo_ctx demo_guest Click_swap;
      b' = app_step demo_ctx demo_host (Sk_message 0 (env_frame Role_swap_request) []);
      a' = app_step demo_ctx a1 (Sk_message 0 (env_frame (Role_swap_response (\<not> busy))) [])
    in k_out (a_socks a1 ! 0) = k_out (a_socks demo_guest ! 0) @ [env_frame Role_swap_request] \<and>
       k_out (a_socks b' ! 0) = k_out (a_socks demo_host ! 0) @ [env_frame (Role_swap_response (\<not> busy))] \<and>
       (u_transferRole (a_ui a'), u_transferRole (a_ui b')) =
         (if busy then (Some Sending, Some Receiving) else (Some Receiving, Some Sending)) \<and>
       \<not> a_swapAwaiting a' \<and> \<not> a_swapDisabled a' \<and>
       a_swapStatus a' = (if busy then Some ''swapRejected'' else None)"
  by (rule role_swap_keeps_opposite) (simp_all add: demo_host demo_guest)

theorem simultaneous_swaps_rejected_witness:
  "let a' = app_run demo_ctx demo_guest [Click_swap, Sk_message 0 (env_frame Role_swap_request) [],
             Sk_message 0 (env_frame (Role_swap_response False)) []]
    in k_out (a_socks (app_run demo_ctx demo_guest [Click_swap, Sk_message 0 (env_frame Role_swap_request) []]) ! 0) =
         k_out (a_socks demo_guest ! 0) @ [env_frame Role_swap_request, env_frame (Role_swap_response False)] \<and>
       u_transferRole (a_ui a') = u_transferRole (a_ui demo_guest) \<and> \<not> a_swapAwaiting a' \<and> \<not> a_swapDisabled a' \<and>
       a_swapStatus a' = Some ''swapRejected''"
  by (rule simultaneous_swaps_rejected) (simp_all add: demo_guest)

theorem late_acceptance_splits_roles_witness:
  "let b' = app_step demo_ctx demo_host (Sk_message 0 (env_frame Role_swap_request) []);
      a' = app_run demo_ctx demo_guest [Click_swap, Swap_timeout, Sk_message 0 (env_frame (Role_swap_response True)) []]
    in k_out (a_socks b' ! 0) = k_out (a_socks demo_host ! 0) @ [env_frame (Role_swap_response True)] \<and>
       u_transferRole (a_ui a') = Some Sending \<and> u_transferRole (a_ui b') = Some Sending"
  by (rule late_acceptance_splits_roles [where y = Receiving]) (simp_all add: demo_host demo_guest)

theorem reconnect_keeps_epochs_witness:
  "let a' = app_step demo_ctx demo_back (Sk_message 1 (env_frame Reconnected) []);
      b' = app_step demo_ctx demo_guest (Sk_message 0 (env_frame Peer_reconnected) [])
    in a_ui a' = (a_ui demo_back)\<lparr>u_epoch := Some (0 + 1)\<rparr> \<and> a_ui b' = (a_ui demo_guest)\<lparr>u_epoch := Some (0 + 1)\<rparr> \<and>
       paired_on a' 1 \<and> paired_on b' 0 \<and>
       t_epoch (last (a_uis a')) = 0 + 1 \<and> t_epoch (last (a_uis b')) = 0 + 1 \<and>
       t_socket (last (a_uis a')) = Some 1 \<and> t_socket (last (a_uis b')) = Some 0 \<and>
       t_key (last (a_uis a')) = u_sessionKey (a_ui demo_back) \<and> t_key (last (a_uis b')) = u_sessionKey (a_ui demo_guest) \<and>
       t_role (last (a_uis a')) = u_transferRole (a_ui demo_back) \<and> t_role (last (a_uis b')) = u_transferRole (a_ui demo_guest) \<and>
       t_detached (a_uis a' ! 0) \<and> t_detached (a_uis b' ! 0) \<and> a_reconnectStatus a' = None \<and> a_reconnectStatus b' = None"
proof -
  obtain sid role token where "k_purpose (a_socks demo_back ! 1) = P_reconnect 1 sid role token" using demo_back(8) by blast
  then show ?thesis
    using demo_back(1-7) demo_guest(1-3,10)
    by (intro reconnect_keeps_epochs) simp_all
qed

theorem reconnect_gives_up_witness:
  "let m = length (a_socks demo_host);
      trying = app_run demo_ctx demo_host (Sk_close 0 # failing_attempts m (RECONNECT_MAX_ATTEMPTS - 1));
      over = app_step demo_ctx trying (Sk_close (m + RECONNECT_MAX_ATTEMPTS - 1))
    in u_screen (a_ui trying) = Paired_screen \<and> length (a_socks trying) = m + RECONNECT_MAX_ATTEMPTS \<and>
       a_ui over = ui_error (Some ''connection_lost'') \<and> length (a_socks over) = m + RECONNECT_MAX_ATTEMPTS \<and>
       a_reconnectTimers over = [] \<and> a_active over = None"
proof -
  obtain tok where "u_reconnectToken (a_ui demo_host) = Some tok" using demo_token by blast
  from reconnect_gives_up [OF demo_host(1) this demo_host(4)] show ?thesis .
qed

theorem disconnect_cleans_up_witness:
  "let a' = app_step demo_ctx demo_host Click_disconnect
    in a_ui a' = ui_at Role_select \<and> a_active a' = None \<and> a_handle a' = None \<and> a_pending a' = None \<and>
       k_out (a_socks a' ! 0) = k_out (a_socks demo_host ! 0) @ [env_frame End_session] \<and>
       k_ready (a_socks a' ! 0) = Closing \<and> t_detached (a_uis a' ! 0) \<and>
       a_uis (map_ui 0 (\<lambda>t. t\<lparr>t_detached := True\<rparr>) demo_host) = a_uis a'"
  by (rule disconnect_cleans_up) (simp_all add: demo_host)

theorem disconnect_does_not_stop_reconnect_witness:
  "let left = app_step demo_ctx (app_step demo_ctx demo_host (Sk_close 0)) Click_disconnect;
      back = app_run demo_ctx left [Sk_open 1, Sk_message 1 (env_frame Reconnected) []]
    in a_ui left = ui_at Role_select \<and> k_ready (a_socks left ! 1) = Connecting \<and>
       u_screen (a_ui back) = Role_select \<and> a_active back = Some 1 \<and> k_ready (a_socks back ! 1) = Open \<and>
       k_wired (a_socks back ! 1) = 1 \<and>
       k_out (a_socks back ! 1) = k_out (a_socks (app_step demo_ctx demo_host (Sk_close 0)) ! 1) @
         [open_frame (k_purpose (a_socks (app_step demo_ctx demo_host (Sk_close 0)) ! 1))]"
  by (rule disconnect_does_not_stop_reconnect [OF demo_trying(1) _ demo_back(9)])
    (use demo_trying(2) in linarith)

theorem stale_transfer_ui_stays_attached_witness:
  "let a = app_run demo_ctx (initPairing True [])
        (host_run ''Ab-_9'' (replicate 32 200) @ [Sk_message 0 (env_frame Peer_reconnected) [], Ui_ready 0, Ui_ready 1])
    in map t_epoch (a_uis a) = [0, 1] \<and> map t_socket (a_uis a) = [Some 0, Some 0] \<and>
       map t_ready (a_uis a) = [True, True] \<and> map t_detached (a_uis a) = [False, False] \<and> a_handle a = Some 1"
  by (rule stale_transfer_ui_stays_attached) simp

end
