(* ===== verification/PairingByCode.thy ===== *)
theory PairingByCode
  imports PairingFlows
begin

section \<open>Pairing by code, end to end\<close>

text \<open>
  The two clients that pair by a six-digit code, each with the key exchange of theory Pake running
  on its socket: the events each sees when the relay forwards what the other sends.
\<close>

definition code_host_run :: "string \<Rightarrow> string option \<Rightarrow> string \<Rightarrow> bytes \<Rightarrow> app_event list" where
  "code_host_run code sid peer tag =
     [Click_code_link, Click_code_receive, Sk_open 0,
      Sk_message 0 (env_frame (Code_session_created code ''expires'')) [],
      Sk_message 0 (env_frame (Paired sid)) [],
      Exchange_settles 0 0, Sk_message 0 (env_frame (Pake_msg peer)) [],
      Exchange_settles 0 0, Exchange_settles 0 0, Exchange_settles 0 0,
      Sk_message 0 (env_frame (Pake_confirm (toHex tag))) [], Exchange_settles 0 0, Exchange_settles 0 0]"

definition code_guest_run :: "string \<Rightarrow> string option \<Rightarrow> string \<Rightarrow> bytes \<Rightarrow> app_event list" where
  "code_guest_run typed sid peer tag =
     [Click_code_link, Click_code_send, Submit_code typed, Sk_open 0,
      Sk_message 0 (env_frame (Paired sid)) [],
      Exchange_settles 0 0, Sk_message 0 (env_frame (Pake_msg peer)) [],
      Exchange_settles 0 0, Exchange_settles 0 0, Exchange_settles 0 0,
      Sk_message 0 (env_frame (Pake_confirm (toHex tag))) [], Exchange_settles 0 0, Exchange_settles 0 0]"

lemma engine_calls:
  "pk_init en code role = Inr x \<Longrightarrow> pake_init en code role = Inr x"
  "pk_update en h m = Inr x \<Longrightarrow> pake_update en h m = Inr x"
  by (simp_all add: pake_init_def pake_update_def engine_res_def)

lemma confirm_calls:
  assumes "k \<noteq> []"
  shows "computeConfirmTag wc k = Inr (confirm_tag wc k)" "verifyConfirmTag wc k t = Inr (confirm_tag wc k = t)"
  using assms by (auto simp: computeConfirmTag_def confirm_tag_def verifyConfirmTag_def bytesEqual_def diff_zero zip_eq_all)

lemmas exchange_defs = exchange_settles_def x_resume_def x_go_def x_send_def x_onMessage_def x_start_def start_exchange_def

lemma code_host_ends:
  assumes "pk_init (pc_engine c) code 0 = Inr (h, m)" "pk_update (pc_engine c) h peer = Inr (h', m')"
    "pk_sessionKey (pc_engine c) h' = Inr (toHex k)" "k \<noteq> []"
  shows "let a = app_run c (initPairing True []) (code_host_run code sid peer tag)
    in a_ui a = (if confirm_tag (pc_wc c) k = tag then paired_ui sid (Some k) Host else ui_error (Some ''code_mismatch'')) \<and>
       map k_out (a_socks a) = [map env_frame [Create_code_session, Pake_msg m, Pake_confirm (toHex (confirm_tag (pc_wc c) k))]]"
  using engine_calls(1) [OF assms(1)] engine_calls(2) [OF assms(2)] pake_sessionKey_hex [OF assms(3)] confirm_calls [OF assms(4)]
  by (simp add: code_host_run_def run_defs startReceiverCodeFlow_def exchange_defs paired_ui_def Let_def)

lemma code_guest_ends:
  assumes "pk_init (pc_engine c) code 1 = Inr (h, m)" "pk_update (pc_engine c) h peer = Inr (h', m')"
    "pk_sessionKey (pc_engine c) h' = Inr (toHex k)" "k \<noteq> []" "code_submitted typed = Some code"
  shows "let a = app_run c (initPairing True []) (code_guest_run typed sid peer tag)
    in a_ui a = (if confirm_tag (pc_wc c) k = tag then paired_ui sid (Some k) Guest else ui_error (Some ''code_mismatch'')) \<and>
       map k_out (a_socks a) = [map env_frame [Join_by_code code, Pake_msg m', Pake_confirm (toHex (confirm_tag (pc_wc c) k))]]"
proof -
  have "pake_init (pc_engine c) code (Suc 0) = Inr (h, m)" using engine_calls(1) [OF assms(1)] by simp
  then show ?thesis
    using engine_calls(2) [OF assms(2)] pake_sessionKey_hex [OF assms(3)] confirm_calls [OF assms(4)] assms(5)
    by (simp add: code_guest_run_def run_defs submit_code_def startJoinByCode_def exchange_defs paired_ui_def Let_def)
qed

text \<open>C14. Pairing by code, end to end: the receiver's client asks for a code, the sender types it (with or
  without the dash), and the relay forwards what the two key exchanges send. If the confirmation
  tags of the two derived keys agree, both clients are on the paired screen with the relay's session
  id and the key they derived, as host and guest; if not, both show \<open>code_mismatch\<close>. Neither sends
  anything but its request, its protocol message and its tag, so never the key.\<close>

theorem code_pairing_agrees:
  assumes "pk_init (pc_engine c) code 0 = Inr (h, m)" "pk_init (pc_engine c) typed_code 1 = Inr (g, n)"
    and "pk_update (pc_engine c) g m = Inr (g', m')" "pk_update (pc_engine c) h m' = Inr (h', n')"
    and "pk_sessionKey (pc_engine c) h' = Inr (toHex kh)" "pk_sessionKey (pc_engine c) g' = Inr (toHex kg)"
    and "kh \<noteq> []" "kg \<noteq> []" "code_submitted typed = Some typed_code"
  shows "let tag = wc_hmac (pc_wc c);
      host = app_run c (initPairing True []) (code_host_run code sid m' (tag kg CONFIRM_INFO));
      guest = app_run c (initPairing True []) (code_guest_run typed sid m (tag kh CONFIRM_INFO))
    in (a_ui host, a_ui guest) = (if tag kh CONFIRM_INFO = tag kg CONFIRM_INFO
          then (paired_ui sid (Some kh) Host, paired_ui sid (Some kg) Guest)
          else (ui_error (Some ''code_mismatch''), ui_error (Some ''code_mismatch''))) \<and>
       map k_out (a_socks host) = [map env_frame
         [Create_code_session, Pake_msg m, Pake_confirm (toHex (tag kh CONFIRM_INFO))]] \<and>
       map k_out (a_socks guest) = [map env_frame
         [Join_by_code typed_code, Pake_msg m', Pake_confirm (toHex (tag kg CONFIRM_INFO))]]"
  using code_host_ends [OF assms(1,4,5,7), of sid "wc_hmac (pc_wc c) kg CONFIRM_INFO"]
    code_guest_ends [OF assms(2,3,6,8,9), of sid "wc_hmac (pc_wc c) kh CONFIRM_INFO"]
  unfolding Let_def confirm_tag_def by auto

lemma utf8_123456: "utf8_encode ''123456'' = [49, 50, 51, 52, 53, 54]"
  by (simp add: utf8_encode_def utf8_unit_def)

theorem code_pairing_agrees_witness:
  "let tag = wc_hmac (pc_wc demo_ctx);
      host = app_run demo_ctx (initPairing True [])
        (code_host_run ''123456'' (Some ''S'') ''r'' (tag [49, 50, 51, 52, 53, 54] CONFIRM_INFO));
      guest = app_run demo_ctx (initPairing True [])
        (code_guest_run ''123-456'' (Some ''S'') ''m'' (tag [49, 50, 51, 52, 53, 54] CONFIRM_INFO))
    in (a_ui host, a_ui guest) = (if tag [49, 50, 51, 52, 53, 54] CONFIRM_INFO = tag [49, 50, 51, 52, 53, 54] CONFIRM_INFO
          then (paired_ui (Some ''S'') (Some [49, 50, 51, 52, 53, 54]) Host, paired_ui (Some ''S'') (Some [49, 50, 51, 52, 53, 54]) Guest)
          else (ui_error (Some ''code_mismatch''), ui_error (Some ''code_mismatch''))) \<and>
       map k_out (a_socks host) = [map env_frame
         [Create_code_session, Pake_msg ''m'', Pake_confirm (toHex (tag [49, 50, 51, 52, 53, 54] CONFIRM_INFO))]] \<and>
       map k_out (a_socks guest) = [map env_frame
         [Join_by_code ''123456'', Pake_msg ''r'', Pake_confirm (toHex (tag [49, 50, 51, 52, 53, 54] CONFIRM_INFO))]]"
  by (rule code_pairing_agrees [where c = demo_ctx and code = "''123456''" and typed_code = "''123456''" and h = "''123456''" and m = "''m''"
      and g = "''123456''" and n = "''m''" and g' = "''123456''" and m' = "''r''" and h' = "''123456''" and n' = "''r''"])
    (simp_all add: demo_ctx_def demo_engine_def utf8_123456 code_submitted_def digits_only_def is_digit_def)

end
