(* ===== verification/FileWriter.thy ===== *)
theory FileWriter
  imports Prelude
begin

section \<open>Saving received files (web/file-writer.js)\<close>

text \<open>
  A sink takes the bytes of one file, either through the File System Access API or into an array
  of parts that becomes a Blob download. Of the browser the model has what a sink changes: the
  files on the user's disk, the downloads that were started and the object URLs that are alive. A
  writable stream writes to a copy, which takes the place of the file when the stream closes.
  What the platform and the user decide (permissions, the choice in a picker) is an argument.

  The interface \<open>file_sink\<close> is what the receiving side relies on, whichever sink it got; it is
  interpreted for both kinds.
\<close>

subsection \<open>The browser\<close>

datatype location = In_folder nat string | Picked string

record browser =
  b_files :: "location \<Rightarrow> bytes option"
  b_downloads :: "(string \<times> string \<times> bytes) list"
  b_urls :: "nat \<Rightarrow> bytes option"
  b_nextUrl :: nat

definition browser_init :: browser where
  "browser_init = \<lparr>b_files = (\<lambda>_. None), b_downloads = [], b_urls = (\<lambda>_. None), b_nextUrl = 0\<rparr>"

text \<open>What becomes of \<open>getFileHandle\<close> and \<open>createWritable\<close> in the chosen folder; whether there is a
  save dialog, and the file picked in it with whether it can be written.\<close>

datatype dir_try = Name_rejected | Not_writable | Writable

record save_env =
  se_dir :: dir_try
  se_hasPicker :: bool
  se_picked :: "(string \<times> bool) option"

definition BLOB_FALLBACK_WARN_BYTES :: int where
  "BLOB_FALLBACK_WARN_BYTES = 200 * 1024 * 1024"

text \<open>\<open>chooseSaveDirectory\<close>: the folder picked, if the API is there and the user did not cancel.\<close>

definition chooseSaveDirectory :: "bool \<Rightarrow> nat option \<Rightarrow> nat option" where
  "chooseSaveDirectory hasDirectoryAccess picked = (if \<not> hasDirectoryAccess then None else picked)"

subsection \<open>Sinks\<close>

datatype sink_mode = Fsa | Blob

text \<open>A stream with its target, what was written and whether it is still open; the name, type, parts
  and preview URL of a Blob sink.\<close>

datatype sink =
    Fsa_sink location bytes bool
  | Blob_sink string string "bytes list" "nat option"

definition sink_mode :: "sink \<Rightarrow> sink_mode" where
  "sink_mode s = (case s of Fsa_sink _ _ _ \<Rightarrow> Fsa | Blob_sink _ _ _ _ \<Rightarrow> Blob)"

text \<open>\<open>getFileHandle\<close> with \<open>create\<close> makes an empty file where there is none; the save dialog empties the
  file picked.\<close>

definition create_file :: "location \<Rightarrow> browser \<Rightarrow> browser" where
  "create_file l b = (case b_files b l of
     None \<Rightarrow> b\<lparr>b_files := (b_files b)(l := Some [])\<rparr> | Some _ \<Rightarrow> b)"

definition empty_file :: "location \<Rightarrow> browser \<Rightarrow> browser" where
  "empty_file l b = b\<lparr>b_files := (b_files b)(l := Some [])\<rparr>"

definition folder_sink :: "save_env \<Rightarrow> string \<Rightarrow> nat option \<Rightarrow> browser \<Rightarrow> sink option \<times> browser" where
  "folder_sink env name dirHandle b = (case dirHandle of
     None \<Rightarrow> (None, b)
   | Some d \<Rightarrow>
       (let l = In_folder d name in case se_dir env of
          Name_rejected \<Rightarrow> (None, b)
        | Not_writable \<Rightarrow> (None, create_file l b)
        | Writable \<Rightarrow> (Some (Fsa_sink l [] True), create_file l b)))"

definition picker_sink :: "save_env \<Rightarrow> browser \<Rightarrow> sink option \<times> browser" where
  "picker_sink env b =
     (if \<not> se_hasPicker env then (None, b)
      else case se_picked env of
        None \<Rightarrow> (None, b)
      | Some (path, writable) \<Rightarrow>
          (if writable then Some (Fsa_sink (Picked path) [] True) else None, empty_file (Picked path) b))"

definition createFileSink :: "save_env \<Rightarrow> string \<Rightarrow> string \<Rightarrow> nat option \<Rightarrow> browser \<Rightarrow> sink \<times> browser" where
  "createFileSink env name mime dirHandle b = (case folder_sink env name dirHandle b of
     (Some s, b1) \<Rightarrow> (s, b1)
   | (None, b1) \<Rightarrow>
       (case picker_sink env b1 of
          (Some s, b2) \<Rightarrow> (s, b2)
        | (None, b2) \<Rightarrow> (Blob_sink name mime [] None, b2)))"

definition sink_write :: "bytes \<Rightarrow> sink \<Rightarrow> sink res" where
  "sink_write chunk s = (case s of
     Fsa_sink l buf open' \<Rightarrow> if open' then Inr (Fsa_sink l (buf @ chunk) True) else Inl Type_error
   | Blob_sink name mime parts url \<Rightarrow> Inr (Blob_sink name mime (parts @ [chunk]) url))"

text \<open>A write or close that fails on the disk leaves the stream unusable.\<close>

definition sink_broken :: "sink \<Rightarrow> sink" where
  "sink_broken s = (case s of Fsa_sink l buf _ \<Rightarrow> Fsa_sink l buf False | _ \<Rightarrow> s)"

text \<open>\<open>close()\<close>: the download starts at once; a stream puts its copy in place when its promise
  fulfils (\<open>sink_committed\<close>).\<close>

definition sink_close :: "sink \<Rightarrow> browser \<Rightarrow> (sink \<times> browser) res" where
  "sink_close s b = (case s of
     Fsa_sink l buf open' \<Rightarrow> if open' then Inr (Fsa_sink l buf False, b) else Inl Type_error
   | Blob_sink name mime parts _ \<Rightarrow>
       (let n = b_nextUrl b; type' = (if mime = [] then ''application/octet-stream'' else mime)
        in Inr (Blob_sink name mime parts (Some n),
             b\<lparr>b_urls := (b_urls b)(n := Some (concat parts)), b_nextUrl := n + 1,
               b_downloads := b_downloads b @ [(name, type', concat parts)]\<rparr>)))"

definition sink_committed :: "sink \<Rightarrow> browser \<Rightarrow> browser" where
  "sink_committed s b = (case s of
     Fsa_sink l buf _ \<Rightarrow> b\<lparr>b_files := (b_files b)(l := Some buf)\<rparr>
   | _ \<Rightarrow> b)"

definition revoke :: "nat option \<Rightarrow> browser \<Rightarrow> browser" where
  "revoke url b = (case url of None \<Rightarrow> b | Some n \<Rightarrow> b\<lparr>b_urls := (b_urls b)(n := None)\<rparr>)"

definition sink_abort :: "sink \<Rightarrow> browser \<Rightarrow> sink \<times> browser" where
  "sink_abort s b = (case s of
     Fsa_sink l buf _ \<Rightarrow> (Fsa_sink l buf False, b)
   | Blob_sink name mime parts url \<Rightarrow> (Blob_sink name mime [] None, revoke url b))"

text \<open>The timer of \<open>close()\<close>.\<close>

definition preview_expires :: "sink \<Rightarrow> browser \<Rightarrow> sink \<times> browser" where
  "preview_expires s b = (case s of
     Blob_sink name mime parts url \<Rightarrow> (Blob_sink name mime parts None, revoke url b)
   | _ \<Rightarrow> (s, b))"

definition getPreviewUrl :: "sink \<Rightarrow> nat option" where
  "getPreviewUrl s = (case s of Blob_sink _ _ _ url \<Rightarrow> url | _ \<Rightarrow> None)"

subsection \<open>The interface of a sink\<close>

text \<open>
  \<open>contents s\<close> is what was written to \<open>s\<close>, \<open>ready s\<close> that it still takes bytes, and \<open>published s b\<close>
  the file the user has from it in \<open>b\<close>. Writing appends and publishes nothing; finishing publishes
  all that was written; aborting publishes nothing.
\<close>

locale file_sink =
  fixes put :: "bytes \<Rightarrow> 's \<Rightarrow> 's res"
    and complete :: "'s \<Rightarrow> 'w \<Rightarrow> ('s \<times> 'w) res"
    and abort :: "'s \<Rightarrow> 'w \<Rightarrow> 's \<times> 'w"
    and ready :: "'s \<Rightarrow> bool"
    and contents :: "'s \<Rightarrow> bytes"
    and published :: "'s \<Rightarrow> 'w \<Rightarrow> bytes option"
  assumes write_ready: "ready s \<Longrightarrow> \<exists>s'. put c s = Inr s' \<and> ready s' \<and> contents s' = contents s @ c \<and>
      (\<forall>b. published s' b = published s b)"
    and finish_publishes: "ready s \<Longrightarrow> \<exists>s' b'. complete s b = Inr (s', b') \<and> published s' b' = Some (contents s)"
    and abort_publishes_nothing: "published (fst (abort s b)) (snd (abort s b)) = published s b"
begin

fun write_all :: "bytes list \<Rightarrow> 's \<Rightarrow> 's res" where
  "write_all [] s = Inr s"
| "write_all (c # cs) s = res_bind (put c s) (write_all cs)"

lemma write_all_ready:
  "ready s \<Longrightarrow> \<exists>s'. write_all cs s = Inr s' \<and> ready s' \<and> contents s' = contents s @ concat cs \<and>
    (\<forall>b. published s' b = published s b)"
proof (induction cs arbitrary: s)
  case Nil
  then show ?case by simp
next
  case (Cons c cs)
  obtain s1 where s1: "put c s = Inr s1" "ready s1" "contents s1 = contents s @ c"
    "\<forall>b. published s1 b = published s b" using write_ready [OF Cons.prems] by blast
  then show ?case using Cons.IH [OF s1(2)] by auto
qed

lemma saves_all:
  assumes "ready s"
  shows "\<exists>s1 s2 b2. write_all cs s = Inr s1 \<and> complete s1 b = Inr (s2, b2) \<and>
    published s2 b2 = Some (contents s @ concat cs)"
  using write_all_ready [OF assms] finish_publishes by metis

lemma abandons_all:
  assumes "ready s"
  shows "\<exists>s1. write_all cs s = Inr s1 \<and> published (fst (abort s1 b)) (snd (abort s1 b)) = published s b"
  using write_all_ready [OF assms] abort_publishes_nothing by metis

end

definition sink_finish :: "sink \<Rightarrow> browser \<Rightarrow> (sink \<times> browser) res" where
  "sink_finish s b = res_bind (sink_close s b) (\<lambda>(s', b'). Inr (s', sink_committed s' b'))"

fun sink_contents :: "sink \<Rightarrow> bytes" where
  "sink_contents (Fsa_sink l buf _) = buf"
| "sink_contents (Blob_sink _ _ parts _) = concat parts"

fun stream_open :: "sink \<Rightarrow> bool" where
  "stream_open (Fsa_sink l buf open') = open'"
| "stream_open (Blob_sink _ _ _ _) = False"

fun stream_file :: "sink \<Rightarrow> browser \<Rightarrow> bytes option" where
  "stream_file (Fsa_sink l _ _) b = b_files b l"
| "stream_file (Blob_sink _ _ _ _) b = None"

definition is_blob :: "sink \<Rightarrow> bool" where
  "is_blob s \<longleftrightarrow> sink_mode s = Blob"

fun last_download :: "sink \<Rightarrow> browser \<Rightarrow> bytes option" where
  "last_download (Blob_sink _ _ _ _) b =
     (if b_downloads b = [] then None else Some (snd (snd (last (b_downloads b)))))"
| "last_download (Fsa_sink _ _ _) b = None"

lemmas sink_defs = sink_write_def sink_close_def sink_committed_def sink_abort_def sink_finish_def revoke_def
  sink_mode_def is_blob_def

interpretation fsa: file_sink sink_write sink_finish sink_abort stream_open sink_contents stream_file
proof unfold_locales
  fix s c b
  show "stream_open s \<Longrightarrow> \<exists>s'. sink_write c s = Inr s' \<and> stream_open s' \<and> sink_contents s' = sink_contents s @ c \<and>
      (\<forall>b. stream_file s' b = stream_file s b)" by (cases s) (simp_all add: sink_defs)
  show "stream_open s \<Longrightarrow> \<exists>s' b'. sink_finish s b = Inr (s', b') \<and> stream_file s' b' = Some (sink_contents s)"
    by (cases s) (simp_all add: sink_defs)
  show "stream_file (fst (sink_abort s b)) (snd (sink_abort s b)) = stream_file s b"
    by (cases s) (simp_all add: sink_defs)
qed

interpretation blob: file_sink sink_write sink_finish sink_abort is_blob sink_contents last_download
proof unfold_locales
  fix s c b
  show "is_blob s \<Longrightarrow> \<exists>s'. sink_write c s = Inr s' \<and> is_blob s' \<and> sink_contents s' = sink_contents s @ c \<and>
      (\<forall>b. last_download s' b = last_download s b)" by (cases s) (simp_all add: sink_defs)
  show "is_blob s \<Longrightarrow> \<exists>s' b'. sink_finish s b = Inr (s', b') \<and> last_download s' b' = Some (sink_contents s)"
    by (cases s) (simp_all add: sink_defs Let_def)
  show "last_download (fst (sink_abort s b)) (snd (sink_abort s b)) = last_download s b"
    by (cases s) (simp_all add: sink_defs split: option.split)
qed

lemma sink_cases_ready: "stream_open s \<or> is_blob s \<or> (\<exists>l buf. s = Fsa_sink l buf False)"
  by (cases s) (auto simp: sink_defs)

subsection \<open>What the user gets\<close>

fun sink_writes :: "bytes list \<Rightarrow> sink \<Rightarrow> sink res" where
  "sink_writes [] s = Inr s"
| "sink_writes (c # cs) s = res_bind (sink_write c s) (sink_writes cs)"

lemma sink_writes_fsa: "sink_writes cs s = fsa.write_all cs s"
proof (induction cs arbitrary: s)
  case (Cons c cs)
  then show ?case by (cases "sink_write c s") simp_all
qed simp

text \<open>Where a file goes: into the folder, to the place picked, or (\<open>None\<close>) to the downloads.\<close>

definition save_target :: "save_env \<Rightarrow> string \<Rightarrow> nat option \<Rightarrow> location option" where
  "save_target env name dirHandle =
     (if se_dir env = Writable \<and> dirHandle \<noteq> None then Some (In_folder (the dirHandle) name)
      else if se_hasPicker env then
        (case se_picked env of Some (path, True) \<Rightarrow> Some (Picked path) | _ \<Rightarrow> None)
      else None)"

lemma createFileSink_target:
  "fst (createFileSink env name mime dirHandle b) = (case save_target env name dirHandle of
     Some l \<Rightarrow> Fsa_sink l [] True | None \<Rightarrow> Blob_sink name mime [] None)"
  "b_downloads (snd (createFileSink env name mime dirHandle b)) = b_downloads b"
  by (auto simp: createFileSink_def folder_sink_def picker_sink_def save_target_def create_file_def empty_file_def Let_def
      split: option.splits dir_try.splits bool.splits prod.splits if_splits)

lemma writes_fsa: "sink_writes cs (Fsa_sink l buf True) = Inr (Fsa_sink l (buf @ concat cs) True)"
  by (induction cs arbitrary: buf) (simp_all add: sink_write_def)

lemma writes_blob: "sink_writes cs (Blob_sink n m parts u) = Inr (Blob_sink n m (parts @ cs) u)"
  by (induction cs arbitrary: parts) (simp_all add: sink_write_def)

text \<open>The files that an attempt leaves empty although the file goes elsewhere: one that the folder made and
  does not let be written, and one picked in the dialog that turns out not to be writable.\<close>

definition folder_leftover :: "save_env \<Rightarrow> string \<Rightarrow> nat option \<Rightarrow> location option" where
  "folder_leftover env name dirHandle = (case dirHandle of
     None \<Rightarrow> None | Some d \<Rightarrow> if se_dir env = Not_writable then Some (In_folder d name) else None)"

definition picked_leftover :: "save_env \<Rightarrow> nat option \<Rightarrow> location option" where
  "picked_leftover env dirHandle =
     (if (se_dir env = Writable \<and> dirHandle \<noteq> None) \<or> \<not> se_hasPicker env then None
      else case se_picked env of Some (path, False) \<Rightarrow> Some (Picked path) | _ \<Rightarrow> None)"

definition files_after :: "save_env \<Rightarrow> string \<Rightarrow> nat option \<Rightarrow> bytes \<Rightarrow> (location \<Rightarrow> bytes option) \<Rightarrow> location \<Rightarrow> bytes option" where
  "files_after env name dirHandle content files l =
     (if save_target env name dirHandle = Some l then Some content
      else if picked_leftover env dirHandle = Some l then Some []
      else if folder_leftover env name dirHandle = Some l \<and> files l = None then Some []
      else files l)"

lemmas leftover_defs = files_after_def save_target_def picked_leftover_def folder_leftover_def

lemma createFileSink_browser:
  "b_urls (snd (createFileSink env name mime dirHandle b)) = b_urls b"
  "b_nextUrl (snd (createFileSink env name mime dirHandle b)) = b_nextUrl b"
  by (auto simp: createFileSink_def folder_sink_def picker_sink_def create_file_def empty_file_def Let_def
      split: option.splits dir_try.splits bool.splits prod.splits if_splits)

lemma createFileSink_files:
  "save_target env name dirHandle = Some l \<Longrightarrow>
     (b_files (snd (createFileSink env name mime dirHandle b)))(l := Some content) = files_after env name dirHandle content (b_files b)"
  "save_target env name dirHandle = None \<Longrightarrow>
     b_files (snd (createFileSink env name mime dirHandle b)) = files_after env name dirHandle content (b_files b)"
  by (rule ext; auto simp: createFileSink_def folder_sink_def picker_sink_def create_file_def empty_file_def leftover_defs Let_def
      split: option.splits dir_try.splits bool.splits prod.splits if_splits)+

text \<open>C25. Whatever \<open>createFileSink\<close> has to fall back to, the file the user ends up with consists of the
  bytes written and nothing else: in the chosen folder under the given name, at the place picked, or
  as a download with a preview of the same bytes. Measured from the files before the sink was
  created, at most two other files change, and only when an attempt failed on the way: a file that
  the folder made but does not let be written stays there empty if there was none before, and a file
  that was picked but cannot be written has been emptied. Every other file, every earlier download
  and every earlier preview stays as it was.\<close>

theorem sink_saves_what_was_written:
  "let sb = createFileSink env name mime dirHandle b; s = fst sb; b1 = snd sb
   in \<exists>s1 s2 b2. sink_writes cs s = Inr s1 \<and> sink_finish s1 b1 = Inr (s2, b2) \<and>
     b_files b2 = (\<lambda>l.
       if save_target env name dirHandle = Some l then Some (concat cs)
       else if picked_leftover env dirHandle = Some l then Some []
       else if folder_leftover env name dirHandle = Some l \<and> b_files b l = None then Some []
       else b_files b l) \<and>
     (case save_target env name dirHandle of
        Some l \<Rightarrow> sink_mode s = Fsa \<and> b_downloads b2 = b_downloads b \<and> b_urls b2 = b_urls b \<and> getPreviewUrl s2 = None
      | None \<Rightarrow> sink_mode s = Blob \<and>
          b_downloads b2 = b_downloads b @ [(name, if mime = [] then ''application/octet-stream'' else mime, concat cs)] \<and>
          b_urls b2 = (b_urls b)(b_nextUrl b := Some (concat cs)) \<and> getPreviewUrl s2 = Some (b_nextUrl b))"
proof (cases "save_target env name dirHandle")
  case None
  then show ?thesis
    unfolding Let_def createFileSink_target files_after_def [symmetric]
    by (simp add: writes_blob sink_defs getPreviewUrl_def createFileSink_target createFileSink_browser
        createFileSink_files(2) [OF None, where content = "concat cs"] Let_def)
next
  case (Some l)
  then show ?thesis
    unfolding Let_def createFileSink_target files_after_def [symmetric]
    by (simp add: writes_fsa sink_defs getPreviewUrl_def createFileSink_target createFileSink_browser
        createFileSink_files(1) [OF Some])
qed

text \<open>A file that was picked in the dialog and cannot be written is emptied before the fallback takes
  over, and its old contents are lost while the received bytes go to the downloads.\<close>

theorem unwritable_pick_is_emptied:
  "let env = \<lparr>se_dir = Writable, se_hasPicker = True, se_picked = Some (''old.txt'', False)\<rparr>;
       b = browser_init\<lparr>b_files := (\<lambda>_. None)(Picked ''old.txt'' := Some [1, 2, 3])\<rparr>;
       sb = createFileSink env ''new.txt'' [] None b
   in b_files (snd sb) (Picked ''old.txt'') = Some [] \<and> sink_mode (fst sb) = Blob"
  by (simp add: createFileSink_def folder_sink_def picker_sink_def empty_file_def sink_mode_def)

text \<open>A sink that is aborted after any writes leaves the user without a new download and without a
  live preview; a file in the chosen folder keeps what it had, or is empty if it was not there.\<close>

lemma aborted_sink_saves_nothing:
  assumes "createFileSink env name mime dirHandle b = (s, b1)" "sink_writes cs s = Inr s1"
  shows "b_downloads (snd (sink_abort s1 b1)) = b_downloads b \<and> b_files (snd (sink_abort s1 b1)) = b_files b1 \<and>
    getPreviewUrl (fst (sink_abort s1 b1)) = None"
proof -
  have "s = (case save_target env name dirHandle of Some l \<Rightarrow> Fsa_sink l [] True | None \<Rightarrow> Blob_sink name mime [] None)"
    "b_downloads b1 = b_downloads b"
    using createFileSink_target [of env name mime dirHandle b] assms(1) by simp_all
  then show ?thesis
    using assms(2) by (auto simp: writes_fsa writes_blob sink_defs getPreviewUrl_def split: option.splits)
qed

end
