(* ===== verification/FileNames.thy ===== *)
theory FileNames
  imports Prelude
begin

section \<open>Names, sizes and texts of transferred files (web/transfer-ui.js)\<close>

text \<open>
  The pure functions of the transfer screen: the status text of a cancelled file, a size as it is
  shown, and the name under which a file is saved in a chosen folder. Sizes are shown by
  \<open>toFixed\<close>, which rounds the exact value of the quotient to the nearest decimal, up if two are
  equally near; a number of bytes divided by a power of two is exact.
\<close>

definition abortStatusText :: "string option \<Rightarrow> string" where
  "abortStatusText reason =
     (if reason = Some ''size_limit_exceeded'' then ''transferTooLarge'' else ''transferCanceled'')"

subsection \<open>formatBytes\<close>

text \<open>\<open>(n / d).toFixed(1)\<close> and \<open>(n / d).toFixed(2)\<close>.\<close>

definition fixed1 :: "nat \<Rightarrow> nat \<Rightarrow> nat" where
  "fixed1 n d = (20 * n + d) div (2 * d)"

definition fixed2 :: "nat \<Rightarrow> nat \<Rightarrow> nat" where
  "fixed2 n d = (200 * n + d) div (2 * d)"

definition show_fixed1 :: "nat \<Rightarrow> string" where
  "show_fixed1 t = num_string (t div 10) @ ''.'' @ num_string (t mod 10)"

definition show_fixed2 :: "nat \<Rightarrow> string" where
  "show_fixed2 t = num_string (t div 100) @ ''.'' @ num_string (t mod 100 div 10) @ num_string (t mod 10)"

definition formatBytes :: "nat \<Rightarrow> string" where
  "formatBytes n =
     (if n < 1024 then num_string n @ '' B''
      else if n < 1024 * 1024 then show_fixed1 (fixed1 n 1024) @ '' KB''
      else if n < 1024 * 1024 * 1024 then show_fixed1 (fixed1 n (1024 * 1024)) @ '' MB''
      else show_fixed2 (fixed2 n (1024 * 1024 * 1024)) @ '' GB'')"

lemma rounded:
  fixes d :: nat
  assumes "d > 0"
  shows "\<bar>2 * int d * int ((2 * m + d) div (2 * d)) - 2 * int m\<bar> \<le> int d"
proof -
  define q r where "q = (2 * m + d) div (2 * d)" and "r = (2 * m + d) mod (2 * d)"
  have "2 * d * q + r = 2 * m + d" by (simp add: q_def r_def)
  then have "int (2 * d * q + r) = int (2 * m + d)" by simp
  then have "2 * int d * int q + int r = 2 * int m + int d" by simp
  moreover have "r < 2 * d" using assms by (simp add: r_def)
  ultimately show ?thesis unfolding q_def [symmetric] abs_le_iff by linarith
qed

subsection \<open>dedupeFilename\<close>

text \<open>\<open>name.lastIndexOf(".")\<close>.\<close>

definition last_dot :: "string \<Rightarrow> nat option" where
  "last_dot name = (if CHR ''.'' \<in> set name
     then Some (length name - 1 - length (takeWhile (\<lambda>c. c \<noteq> CHR ''.'') (rev name))) else None)"

definition base_ext :: "string \<Rightarrow> string \<times> string" where
  "base_ext name = (case last_dot name of
     None \<Rightarrow> (name, [])
   | Some dot \<Rightarrow> if dot > 0 then (take dot name, drop dot name) else (name, []))"

definition candidate :: "string \<Rightarrow> nat \<Rightarrow> string" where
  "candidate name i = fst (base_ext name) @ '' ('' @ num_string i @ '')'' @ snd (base_ext name)"

lemma candidate_inj: "candidate name i = candidate name j \<longleftrightarrow> i = j"
  by (simp add: candidate_def)

lemma finite_taken: "finite {j. i \<le> j \<and> candidate name j \<in> set used}"
proof (rule finite_subset)
  show "{j. i \<le> j \<and> candidate name j \<in> set used} \<subseteq> candidate name -` set used" by blast
  show "finite (candidate name -` set used)"
    by (rule finite_vimageI) (simp_all add: inj_on_def candidate_inj)
qed

text \<open>The loop: \<open>usedNames\<close> is a Set, so only finitely many candidates are taken.\<close>

function free_name :: "string list \<Rightarrow> string \<Rightarrow> nat \<Rightarrow> string" where
  "free_name usedNames name i =
     (if candidate name i \<in> set usedNames then free_name usedNames name (i + 1) else candidate name i)"
  by pat_completeness auto

termination
proof (relation "measure (\<lambda>(used, name, i). card {j. i \<le> j \<and> candidate name j \<in> set used})", simp)
  fix used name i
  assume "candidate name i \<in> set used"
  then have "i \<in> {j. i \<le> j \<and> candidate name j \<in> set used}" "i \<notin> {j. i + 1 \<le> j \<and> candidate name j \<in> set used}"
    "{j. i + 1 \<le> j \<and> candidate name j \<in> set used} \<subseteq> {j. i \<le> j \<and> candidate name j \<in> set used}" by auto
  then have "{j. i + 1 \<le> j \<and> candidate name j \<in> set used} \<subset> {j. i \<le> j \<and> candidate name j \<in> set used}" by blast
  then show "((used, name, i + 1), used, name, i) \<in>
      measure (\<lambda>(used, name, i). card {j. i \<le> j \<and> candidate name j \<in> set used})"
    using psubset_card_mono [OF finite_taken] by simp
qed

declare free_name.simps [simp del]

definition dedupeFilename :: "string list \<Rightarrow> string \<Rightarrow> string \<times> string list" where
  "dedupeFilename usedNames name =
     (if name \<notin> set usedNames then (name, usedNames @ [name])
      else let cand = free_name usedNames name 1 in (cand, usedNames @ [cand]))"

lemma free_name_least:
  "\<exists>k \<ge> i. free_name used name i = candidate name k \<and> candidate name k \<notin> set used \<and>
    (\<forall>j. i \<le> j \<and> j < k \<longrightarrow> candidate name j \<in> set used)"
proof (induction used name i rule: free_name.induct)
  case (1 used name i)
  show ?case
  proof (cases "candidate name i \<in> set used")
    case True
    then obtain k where k: "k \<ge> i + 1" "free_name used name (i + 1) = candidate name k" "candidate name k \<notin> set used"
      "\<forall>j. i + 1 \<le> j \<and> j < k \<longrightarrow> candidate name j \<in> set used" using 1 by blast
    have "candidate name j \<in> set used" if "i \<le> j" "j < k" for j
      using k(4) that True by (cases "j = i") auto
    then show ?thesis using k True by (subst free_name.simps) (auto intro!: exI [of _ k])
  next
    case False
    then show ?thesis by (subst free_name.simps) auto
  qed
qed

lemma dedupe_fresh:
  "fst (dedupeFilename used name) \<notin> set used"
  "snd (dedupeFilename used name) = used @ [fst (dedupeFilename used name)]"
  using free_name_least [of 1 used name] by (auto simp: dedupeFilename_def Let_def)

text \<open>The names of several files saved one after the other in the same folder.\<close>

fun dedupe_all :: "string list \<Rightarrow> string list \<Rightarrow> string list" where
  "dedupe_all used [] = []"
| "dedupe_all used (n # ns) = fst (dedupeFilename used n) # dedupe_all (snd (dedupeFilename used n)) ns"

lemma dedupe_all_new: "x \<in> set (dedupe_all used names) \<Longrightarrow> x \<notin> set used"
proof (induction names arbitrary: used)
  case (Cons n ns)
  then show ?case using dedupe_fresh [of used n] by fastforce
qed simp

lemma dedupe_all_distinct: "distinct (dedupe_all used names)"
  by (induction names arbitrary: used) (auto simp: dedupe_fresh(2) dest: dedupe_all_new)

text \<open>C26. Files saved in a folder never replace one another: whatever names arrive, and whatever names are
  already taken, the names given are new and different from each other. A name not yet taken is kept;
  one that is taken gets the first free number before its extension; the search for it ends for
  every set of taken names.\<close>

theorem dedupe_never_overwrites:
  "distinct (dedupe_all used names) \<and> set (dedupe_all used names) \<inter> set used = {} \<and>
   (if name \<in> set used
    then \<exists>k \<ge> 1. fst (dedupeFilename used name) = candidate name k \<and>
      candidate name ` {1..<k} \<subseteq> set used \<and> candidate name k \<notin> set used
    else fst (dedupeFilename used name) = name)"
proof -
  obtain k where "k \<ge> 1" "free_name used name 1 = candidate name k" "candidate name k \<notin> set used"
    "\<forall>j. 1 \<le> j \<and> j < k \<longrightarrow> candidate name j \<in> set used" using free_name_least [of 1 used name] by auto
  then show ?thesis
    using dedupe_all_distinct dedupe_all_new by (auto simp: dedupeFilename_def Let_def intro!: exI [of _ k])
qed

end
