(* ===== verification/ReceiverUI.thy ===== *)
theory ReceiverUI
  imports Receiver FileWriter FileNames
begin

section \<open>The receiver's transfer screen (renderReceiverTransfer of web/transfer-ui.js)\<close>

text \<open>
  The handlers that the screen gives to \<open>attachReceiver\<close>, and the two together: \<open>rclient\<close> has the
  receiver of theory Receiver and the screen, which runs its handlers on the calls the receiver
  makes. \<open>onFileStart\<close> and \<open>onChunk\<close> are awaited by the receiver; \<open>v_pending\<close> is what the handler
  itself awaits then. \<open>onFileComplete\<close> is not, and goes on when the sink has closed (\<open>v_closing\<close>).

  \<open>rows\<close> maps a file id to an entry that the handlers keep and mutate; an entry is its position
  in \<open>v_rows\<close>, where none is removed, and \<open>v_byId\<close> says which one the object has for an id (no id is
  taken to be the name of a member of \<open>Object.prototype\<close>). Progress bars are left out. Metadata that is not what \<open>sendFile\<close> sends is shown and compared as JavaScript
  converts it (the parameters of \<open>screen_ctx\<close>); a name that is no string is deduplicated as its text.
\<close>

record screen_ctx =
  uc_recv :: recv_ctx
  uc_string :: "json \<Rightarrow> string"
  uc_large :: "json \<Rightarrow> bool"

definition name_text :: "screen_ctx \<Rightarrow> json option \<Rightarrow> string" where
  "name_text c v = (case v of None \<Rightarrow> ''undefined'' | Some (JStr s) \<Rightarrow> s | Some j \<Rightarrow> uc_string c j)"

definition mime_text :: "screen_ctx \<Rightarrow> json option \<Rightarrow> string" where
  "mime_text c v = (case v of
     None \<Rightarrow> [] | Some (JStr s) \<Rightarrow> s
   | Some j \<Rightarrow> if j \<in> {JNull, JBool False, JInt 0} then [] else uc_string c j)"

definition is_large :: "screen_ctx \<Rightarrow> json option \<Rightarrow> bool" where
  "is_large c v = (case v of
     None \<Rightarrow> False | Some (JInt n) \<Rightarrow> n > BLOB_FALLBACK_WARN_BYTES | Some j \<Rightarrow> uc_large c j)"

subsection \<open>State\<close>

record frow =
  fr_id :: string
  fr_sink :: sink
  fr_received :: nat
  fr_done :: bool
  fr_status :: "string option"
  fr_cancelHidden :: bool
  fr_armed :: bool
  fr_open :: "nat option"

datatype pending =
    H_none
  | H_sink string string string "json option" "nat option"
  | H_write nat bytes bool
  | H_return

record rui =
  v_saveDir :: "nat option"
  v_usedNames :: "string list"
  v_rows :: "frow list"
  v_byId :: "string \<Rightarrow> nat option"
  v_receiving :: bool
  v_status :: string
  v_pending :: pending
  v_closing :: "nat list"
  v_browser :: browser

definition rui_init :: "browser \<Rightarrow> rui" where
  "rui_init b = \<lparr>v_saveDir = None, v_usedNames = [], v_rows = [], v_byId = (\<lambda>_. None), v_receiving = False,
     v_status = ''transferWaitingForFiles'', v_pending = H_none, v_closing = [], v_browser = b\<rparr>"

definition upd_row :: "nat \<Rightarrow> (frow \<Rightarrow> frow) \<Rightarrow> rui \<Rightarrow> rui" where
  "upd_row k f u = (if k < length (v_rows u) then u\<lparr>v_rows := (v_rows u)[k := f (v_rows u ! k)]\<rparr> else u)"

text \<open>The click on the folder button, once the user has picked one.\<close>

definition folder_chosen :: "nat option \<Rightarrow> rui \<Rightarrow> rui" where
  "folder_chosen picked u = (case picked of
     None \<Rightarrow> u | Some d \<Rightarrow> u\<lparr>v_saveDir := Some d, v_usedNames := []\<rparr>)"

subsection \<open>The handlers\<close>

definition onFileStart :: "screen_ctx \<Rightarrow> string \<Rightarrow> json option \<Rightarrow> json option \<Rightarrow> json option \<Rightarrow> rui \<Rightarrow> rui" where
  "onFileStart c fileId name size' mime u =
     (let n = name_text c name;
          saved = (if v_saveDir u \<noteq> None then dedupeFilename (v_usedNames u) n else (n, v_usedNames u))
      in u\<lparr>v_receiving := True, v_status := ''transferReceivingFiles'', v_usedNames := snd saved,
           v_pending := H_sink fileId (fst saved) (mime_text c mime) size' (v_saveDir u)\<rparr>)"

text \<open>The rest of \<open>onFileStart\<close>, when the sink is there.\<close>

definition sink_created :: "screen_ctx \<Rightarrow> save_env \<Rightarrow> rui \<Rightarrow> rui" where
  "sink_created c env u = (case v_pending u of
     H_sink fileId saveName mime size' dir \<Rightarrow>
       (let sb = createFileSink env saveName mime dir (v_browser u); s = fst sb;
            row = \<lparr>fr_id = fileId, fr_sink = s, fr_received = 0, fr_done = False,
                   fr_status = (if sink_mode s = Blob \<and> is_large c size' then Some ''transferLargeFileWarning'' else None),
                   fr_cancelHidden = False, fr_armed = True, fr_open = None\<rparr>
        in u\<lparr>v_rows := v_rows u @ [row], v_byId := (v_byId u)(fileId := Some (length (v_rows u))),
             v_browser := snd sb, v_pending := H_none\<rparr>)
   | _ \<Rightarrow> u)"

definition onChunk :: "string \<Rightarrow> bytes \<Rightarrow> rui \<Rightarrow> rui" where
  "onChunk fileId plaintext u = (case v_byId u fileId of
     None \<Rightarrow> u\<lparr>v_pending := H_return\<rparr>
   | Some k \<Rightarrow>
       (if fr_done (v_rows u ! k) then u\<lparr>v_pending := H_return\<rparr>
        else case sink_write plaintext (fr_sink (v_rows u ! k)) of
          Inl e \<Rightarrow> u\<lparr>v_pending := H_write k plaintext False\<rparr>
        | Inr s \<Rightarrow> (upd_row k (\<lambda>r. r\<lparr>fr_sink := s\<rparr>) u)\<lparr>v_pending := H_write k plaintext True\<rparr>))"

text \<open>The promise of the awaited handler: what it does when \<open>createFileSink\<close> or \<open>write\<close> is over, and
  the error it rejects with, if any. Only a stream can fail.\<close>

definition write_over :: "nat \<Rightarrow> bytes \<Rightarrow> bool \<Rightarrow> rui \<Rightarrow> rui \<times> js_error option" where
  "write_over k plaintext ok u =
     (if ok \<or> is_blob (fr_sink (v_rows u ! k))
      then ((upd_row k (\<lambda>r. r\<lparr>fr_received := fr_received r + length plaintext\<rparr>) u)\<lparr>v_pending := H_none\<rparr>, None)
      else ((upd_row k (\<lambda>r. r\<lparr>fr_sink := sink_broken (fr_sink r)\<rparr>) u)\<lparr>v_pending := H_none\<rparr>,
            Some (Error_msg ''write failed'')))"

definition handler_over :: "screen_ctx \<Rightarrow> save_env \<Rightarrow> bool \<Rightarrow> rui \<Rightarrow> rui \<times> js_error option" where
  "handler_over c env ok u = (case v_pending u of
     H_sink _ _ _ _ _ \<Rightarrow> (sink_created c env u, None)
   | H_write k plaintext True \<Rightarrow> write_over k plaintext ok u
   | H_write k plaintext False \<Rightarrow> (u\<lparr>v_pending := H_none\<rparr>, Some Type_error)
   | _ \<Rightarrow> (u\<lparr>v_pending := H_none\<rparr>, None))"

definition onFileComplete :: "string \<Rightarrow> rui \<Rightarrow> rui" where
  "onFileComplete fileId u =
     (let u0 = u\<lparr>v_receiving := False\<rparr>
      in case v_byId u fileId of
           None \<Rightarrow> u0
         | Some k \<Rightarrow>
             (let u1 = upd_row k (\<lambda>r. r\<lparr>fr_done := True, fr_cancelHidden := True\<rparr>) u0
              in case sink_close (fr_sink (v_rows u ! k)) (v_browser u) of
                   Inl e \<Rightarrow> u1
                 | Inr (s, b) \<Rightarrow>
                     (upd_row k (\<lambda>r. r\<lparr>fr_sink := s\<rparr>) u1)\<lparr>v_browser := b, v_closing := v_closing u @ [k]\<rparr>))"

definition close_over :: "nat \<Rightarrow> bool \<Rightarrow> rui \<Rightarrow> rui" where
  "close_over k ok u =
     (if k \<in> set (v_closing u) then
        (let s = fr_sink (v_rows u ! k); u1 = u\<lparr>v_closing := remove1 k (v_closing u)\<rparr>
         in if ok \<or> is_blob s
            then (upd_row k (\<lambda>r. r\<lparr>fr_status := Some (if sink_mode s = Fsa then ''transferSavedToDisk'' else ''transferDownloaded''),
                                   fr_open := getPreviewUrl s\<rparr>) u1)\<lparr>v_browser := sink_committed s (v_browser u)\<rparr>
            else u1)
      else u)"

definition give_up_row :: "string \<Rightarrow> nat \<Rightarrow> rui \<Rightarrow> rui" where
  "give_up_row text' k u =
     (let sb = sink_abort (fr_sink (v_rows u ! k)) (v_browser u)
      in (upd_row k (\<lambda>r. r\<lparr>fr_done := True, fr_cancelHidden := True, fr_status := Some text', fr_sink := fst sb\<rparr>) u)
           \<lparr>v_browser := snd sb\<rparr>)"

definition onAborted :: "string \<Rightarrow> string option \<Rightarrow> rui \<Rightarrow> rui" where
  "onAborted fileId reason u =
     (let u0 = u\<lparr>v_receiving := False, v_status := ''transferWaitingForFiles''\<rparr>
      in case v_byId u fileId of
           None \<Rightarrow> u0
         | Some k \<Rightarrow> give_up_row (abortStatusText reason) k u0)"

definition fail_row :: "nat \<Rightarrow> rui \<Rightarrow> rui" where
  "fail_row k u =
     (if v_byId u (fr_id (v_rows u ! k)) = Some k \<and> \<not> fr_done (v_rows u ! k)
      then give_up_row ''transferError'' k u else u)"

definition onError :: "rui \<Rightarrow> rui" where
  "onError u = fold fail_row [0..<length (v_rows u)] (u\<lparr>v_receiving := False, v_status := ''transferError''\<rparr>)"

fun handle_call :: "screen_ctx \<Rightarrow> r_call \<Rightarrow> rui \<Rightarrow> rui" where
  "handle_call c (OnFileStart fileId name size' mime) u = onFileStart c fileId name size' mime u"
| "handle_call c (OnChunk fileId index isLast plaintext) u = onChunk fileId plaintext u"
| "handle_call c (OnFileComplete fileId) u = onFileComplete fileId u"
| "handle_call c (OnAborted fileId reason) u = onAborted fileId reason u"
| "handle_call c (OnError e) u = onError u"

subsection \<open>The receiving client\<close>

record rclient =
  rcl_recv :: receiver
  rcl_ui :: rui

fun run_output :: "screen_ctx \<Rightarrow> r_out \<Rightarrow> rui \<Rightarrow> rui" where
  "run_output c (Call cl) u = handle_call c cl u"
| "run_output c (Sent fr) u = u"

text \<open>An event of the receiver, and the handlers it calls.\<close>

definition recv_event :: "screen_ctx \<Rightarrow> r_event \<Rightarrow> rclient \<Rightarrow> rclient" where
  "recv_event c e x =
     (let r' = r_step (uc_recv c) (rcl_recv x) e
      in \<lparr>rcl_recv = r',
          rcl_ui = fold (run_output c) (drop (length (r_log (rcl_recv x))) (r_log r')) (rcl_ui x)\<rparr>)"

datatype rcl_event =
    Net_frame frame | Crypto_settles | Handler_settles save_env bool
  | Net_closes | Cancel_click nat | Detach | Folder_picked "nat option" | Sink_closed nat bool

fun in_handler :: "r_phase \<Rightarrow> bool" where
  "in_handler Meta_starting = True"
| "in_handler (Chunk_handling _ _) = True"
| "in_handler _ = False"

definition handler_settles :: "screen_ctx \<Rightarrow> save_env \<Rightarrow> bool \<Rightarrow> rclient \<Rightarrow> rclient" where
  "handler_settles c env ok x =
     (case handler_over c env ok (rcl_ui x) of
        (u, None) \<Rightarrow> recv_event c R_settle (x\<lparr>rcl_ui := u\<rparr>)
      | (u, Some e) \<Rightarrow> recv_event c (R_reject e) (x\<lparr>rcl_ui := u\<rparr>))"

fun rcl_step :: "screen_ctx \<Rightarrow> rclient \<Rightarrow> rcl_event \<Rightarrow> rclient" where
  "rcl_step c x (Net_frame fr) = recv_event c (R_frame fr) x"
| "rcl_step c x Crypto_settles = (if in_handler (r_phase (rcl_recv x)) then x else recv_event c R_settle x)"
| "rcl_step c x (Handler_settles env ok) =
     (if in_handler (r_phase (rcl_recv x)) then handler_settles c env ok x else x)"
| "rcl_step c x Net_closes = recv_event c R_close x"
| "rcl_step c x (Cancel_click k) =
     (if k < length (v_rows (rcl_ui x)) \<and> \<not> fr_cancelHidden (v_rows (rcl_ui x) ! k) \<and> fr_armed (v_rows (rcl_ui x) ! k)
      then recv_event c R_abortCurrent (x\<lparr>rcl_ui := upd_row k (\<lambda>r. r\<lparr>fr_armed := False\<rparr>) (rcl_ui x)\<rparr>)
      else x)"
| "rcl_step c x Detach = recv_event c R_detach x"
| "rcl_step c x (Folder_picked d) = x\<lparr>rcl_ui := folder_chosen d (rcl_ui x)\<rparr>"
| "rcl_step c x (Sink_closed k ok) = x\<lparr>rcl_ui := close_over k ok (rcl_ui x)\<rparr>"

definition rcl_init :: "browser \<Rightarrow> rclient" where
  "rcl_init b = \<lparr>rcl_recv = r_init, rcl_ui = rui_init b\<rparr>"

end
