(* ===== verification/ReceiverUIProps.thy ===== *)
theory ReceiverUIProps
  imports ReceiverUI EndToEnd
begin

section \<open>Properties of the receiving client\<close>

text \<open>
  What the user has in the end: the file as it was sent when the frames of a transfer arrive and
  the disk works; and, whatever arrives, no file that is not all the receiver was given of it,
  as long as no error was reported.
\<close>

subsection \<open>A file that arrives\<close>

definition rcl_chunk_events :: "send_ctx \<Rightarrow> save_env \<Rightarrow> nat \<Rightarrow> rcl_event list" where
  "rcl_chunk_events c env i = [Net_frame (chunk_frame_of c i), Crypto_settles, Handler_settles env True]"

definition rcl_file_events :: "send_ctx \<Rightarrow> save_env \<Rightarrow> nat \<Rightarrow> rcl_event list" where
  "rcl_file_events c env n =
     [Net_frame (meta_frame c), Crypto_settles, Crypto_settles, Handler_settles env True] @
     concat (map (rcl_chunk_events c env) [0..<n])"

lemma rcl_meta_run:
  assumes "good_ctx c" "uc_recv uc = rctx c"
  shows "run (rcl_step uc) \<lparr>rcl_recv = r_init, rcl_ui = u\<rparr>
      [Net_frame (meta_frame c), Crypto_settles, Crypto_settles, Handler_settles env True] =
    \<lparr>rcl_recv = awaiting c 0 [Call (file_start c)],
      rcl_ui = sink_created uc env (handle_call uc (file_start c) u)\<rparr>"
  by (simp add: assms(2) recv_event_def handler_settles_def handler_over_def r_init_def tasks_of_meta meta_start_def
      r_resume_def meta_derived_sent [OF assms(1)] meta_decrypted_sent [OF assms(1)] r_call_def r_done_def awaiting_def
      file_start_def onFileStart_def sink_created_def Let_def)

lemma recv_event_new:
  assumes "r_step (uc_recv c) r e = r'" "r_log r' = r_log r @ new"
  shows "recv_event c e \<lparr>rcl_recv = r, rcl_ui = u\<rparr> = \<lparr>rcl_recv = r', rcl_ui = fold (run_output c) new u\<rparr>"
  using assms by (simp add: recv_event_def Let_def)

definition wrote :: "nat \<Rightarrow> sink \<Rightarrow> bytes \<Rightarrow> rui \<Rightarrow> rui" where
  "wrote k s pt u = (upd_row k (\<lambda>r. r\<lparr>fr_sink := s, fr_received := fr_received r + length pt\<rparr>) u)\<lparr>v_pending := H_none\<rparr>"

lemma rcl_chunk_run:
  assumes "good_ctx c" "uc_recv uc = rctx c" "i < 2 ^ 64"
    and row: "v_byId u (fileIdHex c) = Some k" "k < length (v_rows u)" "\<not> fr_done (v_rows u ! k)"
    and s: "sink_write (chunk_plaintext (sc_file c) i) (fr_sink (v_rows u ! k)) = Inr s"
  shows "run (rcl_step uc) \<lparr>rcl_recv = awaiting c i L, rcl_ui = u\<rparr> (rcl_chunk_events c env i) =
    (let u' = wrote k s (chunk_plaintext (sc_file c) i) u in
     if isLast_chunk (sc_file c) i
     then \<lparr>rcl_recv = r_init\<lparr>r_log := L @ chunk_outs c i @ [Call (OnFileComplete (fileIdHex c))]\<rparr>,
           rcl_ui = onFileComplete (fileIdHex c) u'\<rparr>
     else \<lparr>rcl_recv = awaiting c (Suc i) (L @ chunk_outs c i), rcl_ui = u'\<rparr>)"
proof -
  let ?dec = "(awaiting c i L)\<lparr>r_phase := Chunk_decrypting (chunk_record c i) (the_key c)\<rparr>"
  let ?han = "(r_call (chunk_call c i) (awaiting c i L))\<lparr>r_phase := Chunk_handling (chunk_record c i) i\<rparr>"
  let ?pt = "chunk_plaintext (sc_file c) i"
  have "r_step (rctx c) (awaiting c i L) (R_frame (chunk_frame_of c i)) = ?dec"
    by (simp add: awaiting_def r_init_def chunk_frame_of_def chunk_start_sent [OF assms(1,3)] del: r_start.simps)
      (simp add: rfile_of_def)
  then have 1: "rcl_step uc \<lparr>rcl_recv = awaiting c i L, rcl_ui = u\<rparr> (Net_frame (chunk_frame_of c i)) = \<lparr>rcl_recv = ?dec, rcl_ui = u\<rparr>"
    by (simp add: recv_event_def assms(2))
  have "r_step (rctx c) ?dec R_settle = ?han"
    by (simp add: r_resume_def chunk_decrypted_sent [OF assms(1)])
      (simp add: awaiting_def r_init_def rfile_of_def r_call_def chunk_call_def)
  moreover have "onChunk (fileIdHex c) ?pt u = (upd_row k (\<lambda>r. r\<lparr>fr_sink := s\<rparr>) u)\<lparr>v_pending := H_write k ?pt True\<rparr>"
    using row s by (simp add: onChunk_def)
  ultimately have 2: "rcl_step uc \<lparr>rcl_recv = ?dec, rcl_ui = u\<rparr> Crypto_settles =
      \<lparr>rcl_recv = ?han, rcl_ui = (upd_row k (\<lambda>r. r\<lparr>fr_sink := s\<rparr>) u)\<lparr>v_pending := H_write k ?pt True\<rparr>\<rparr>"
    by (simp add: recv_event_def assms(2)) (simp add: r_call_def chunk_call_def)
  have w: "handler_over uc env True ((upd_row k (\<lambda>r. r\<lparr>fr_sink := s\<rparr>) u)\<lparr>v_pending := H_write k ?pt True\<rparr>) = (wrote k s ?pt u, None)"
    using row by (simp add: handler_over_def write_over_def wrote_def upd_row_def)
  have r: "r_step (rctx c) ?han R_settle = (if isLast_chunk (sc_file c) i
     then r_init\<lparr>r_log := L @ chunk_outs c i @ [Call (OnFileComplete (fileIdHex c))]\<rparr>
     else awaiting c (Suc i) (L @ chunk_outs c i))"
    by (simp add: r_resume_def chunk_handled_def Let_def fileIdHex_def [symmetric] awaiting_def r_init_def
        r_call_def r_done_def r_send_def chunk_outs_def ack_out_def rfile_of_def)
  have h: "in_handler (r_phase ?han)" by simp
  have l: "r_log ?han = L @ [Call (chunk_call c i)]" by (simp add: r_call_def awaiting_def)
  have out: "run_output uc (ack_out f j) v = v" for f j v by (simp add: ack_out_def)
  have 3: "rcl_step uc \<lparr>rcl_recv = ?han, rcl_ui = (upd_row k (\<lambda>r. r\<lparr>fr_sink := s\<rparr>) u)\<lparr>v_pending := H_write k ?pt True\<rparr>\<rparr> (Handler_settles env True) =
    (if isLast_chunk (sc_file c) i
     then \<lparr>rcl_recv = r_init\<lparr>r_log := L @ chunk_outs c i @ [Call (OnFileComplete (fileIdHex c))]\<rparr>,
           rcl_ui = onFileComplete (fileIdHex c) (wrote k s ?pt u)\<rparr>
     else \<lparr>rcl_recv = awaiting c (Suc i) (L @ chunk_outs c i), rcl_ui = wrote k s ?pt u\<rparr>)"
  proof (cases "isLast_chunk (sc_file c) i")
    case True
    have "recv_event uc R_settle \<lparr>rcl_recv = ?han, rcl_ui = wrote k s ?pt u\<rparr> =
        \<lparr>rcl_recv = r_init\<lparr>r_log := L @ chunk_outs c i @ [Call (OnFileComplete (fileIdHex c))]\<rparr>,
          rcl_ui = fold (run_output uc) [ack_out (fileIdHex c) i, Call (OnFileComplete (fileIdHex c))] (wrote k s ?pt u)\<rparr>"
      by (rule recv_event_new) (simp_all only: assms(2) r l True, simp_all add: chunk_outs_def)
    then show ?thesis using True h w by (simp only: rcl_step.simps) (simp add: handler_settles_def out)
  next
    case False
    have "recv_event uc R_settle \<lparr>rcl_recv = ?han, rcl_ui = wrote k s ?pt u\<rparr> =
        \<lparr>rcl_recv = awaiting c (Suc i) (L @ chunk_outs c i), rcl_ui = fold (run_output uc) [ack_out (fileIdHex c) i] (wrote k s ?pt u)\<rparr>"
      by (rule recv_event_new) (simp_all only: assms(2) r l False, simp_all add: chunk_outs_def awaiting_def)
    then show ?thesis using False h w by (simp only: rcl_step.simps) (simp add: handler_settles_def out)
  qed
  show ?thesis unfolding rcl_chunk_events_def run_Cons run_Nil 1 2 3 Let_def by (rule refl)
qed

text \<open>The screen while file \<open>c\<close> is written to the sink in row \<open>0\<close>.\<close>

definition receiving_ui :: "send_ctx \<Rightarrow> sink \<Rightarrow> rui \<Rightarrow> bool" where
  "receiving_ui c s u \<longleftrightarrow> v_byId u (fileIdHex c) = Some 0 \<and> length (v_rows u) = 1 \<and> \<not> fr_done (v_rows u ! 0) \<and>
     fr_sink (v_rows u ! 0) = s \<and> v_pending u = H_none \<and> v_closing u = []"

lemma wrote_receiving:
  "receiving_ui c s u \<Longrightarrow> receiving_ui c s' (wrote 0 s' pt u) \<and> v_browser (wrote 0 s' pt u) = v_browser u"
  by (auto simp: receiving_ui_def wrote_def upd_row_def)

lemma writes_snoc: "sink_writes (cs @ [c]) s = res_bind (sink_writes cs s) (sink_write c)"
proof (induction cs arbitrary: s)
  case Nil
  then show ?case by (cases "sink_write c s") simp_all
next
  case (Cons d cs)
  then show ?case by (cases "sink_write d s") simp_all
qed

lemma rcl_chunks_run:
  assumes good: "good_ctx c" "uc_recv uc = rctx c" "total c \<le> 2 ^ 64" "k \<le> total c - 1"
    and u: "receiving_ui c s u" "stream_open s \<or> is_blob s"
  shows "\<exists>s' u'. run (rcl_step uc) \<lparr>rcl_recv = awaiting c 0 [Call (file_start c)], rcl_ui = u\<rparr>
      (concat (map (rcl_chunk_events c env) [0..<k])) =
        \<lparr>rcl_recv = awaiting c k (Call (file_start c) # concat (map (chunk_outs c) [0..<k])), rcl_ui = u'\<rparr> \<and>
      receiving_ui c s' u' \<and> v_browser u' = v_browser u \<and> (stream_open s' \<or> is_blob s') \<and>
      sink_writes (map (chunk_plaintext (sc_file c)) [0..<k]) s = Inr s'"
  using good(4)
proof (induction k)
  case 0
  then show ?case using u by simp
next
  case (Suc k)
  let ?L = "Call (file_start c) # concat (map (chunk_outs c) [0..<k])"
  obtain s' u' where IH: "run (rcl_step uc) \<lparr>rcl_recv = awaiting c 0 [Call (file_start c)], rcl_ui = u\<rparr>
      (concat (map (rcl_chunk_events c env) [0..<k])) = \<lparr>rcl_recv = awaiting c k ?L, rcl_ui = u'\<rparr>"
    "receiving_ui c s' u'" "v_browser u' = v_browser u" "stream_open s' \<or> is_blob s'"
    "sink_writes (map (chunk_plaintext (sc_file c)) [0..<k]) s = Inr s'" using Suc by auto
  obtain s2 where s2: "sink_write (chunk_plaintext (sc_file c) k) s' = Inr s2" "stream_open s2 \<or> is_blob s2"
    using IH(4) fsa.write_ready [of s'] blob.write_ready [of s'] by blast
  have k: "k < 2 ^ 64" using Suc.prems assms(3) total_pos [of c] by linarith
  have row: "v_byId u' (fileIdHex c) = Some 0" "0 < length (v_rows u')" "\<not> fr_done (v_rows u' ! 0)" "fr_sink (v_rows u' ! 0) = s'"
    using IH(2) by (simp_all add: receiving_ui_def)
  have "run (rcl_step uc) \<lparr>rcl_recv = awaiting c k ?L, rcl_ui = u'\<rparr> (rcl_chunk_events c env k) =
      \<lparr>rcl_recv = awaiting c (Suc k) (?L @ chunk_outs c k), rcl_ui = wrote 0 s2 (chunk_plaintext (sc_file c) k) u'\<rparr>"
    using rcl_chunk_run [OF good(1,2) k row(1-3), of s2 ?L env] s2 not_last_yet [OF Suc.prems] by (simp add: Let_def row(4))
  moreover have "concat (map (rcl_chunk_events c env) [0..<Suc k]) = concat (map (rcl_chunk_events c env) [0..<k]) @ rcl_chunk_events c env k"
    by simp
  ultimately have "run (rcl_step uc) \<lparr>rcl_recv = awaiting c 0 [Call (file_start c)], rcl_ui = u\<rparr>
      (concat (map (rcl_chunk_events c env) [0..<Suc k])) =
      \<lparr>rcl_recv = awaiting c (Suc k) (?L @ chunk_outs c k), rcl_ui = wrote 0 s2 (chunk_plaintext (sc_file c) k) u'\<rparr>"
    by (simp only: run_append IH(1))
  moreover have "sink_writes (map (chunk_plaintext (sc_file c)) [0..<Suc k]) s = Inr s2"
    using IH(5) s2(1) by (simp add: writes_snoc)
  ultimately show ?case using wrote_receiving [OF IH(2), of s2] IH(3) s2(2) by auto
qed

lemma rcl_file_run:
  assumes good: "good_ctx c" "uc_recv uc = rctx c" "total c \<le> 2 ^ 64"
    and u: "receiving_ui c s u" "stream_open s \<or> is_blob s"
  shows "\<exists>s' u'. run (rcl_step uc) \<lparr>rcl_recv = awaiting c 0 [Call (file_start c)], rcl_ui = u\<rparr>
      (concat (map (rcl_chunk_events c env) [0..<total c])) =
        \<lparr>rcl_recv = r_init\<lparr>r_log := Call (file_start c) # concat (map (chunk_outs c) [0..<total c]) @
            [Call (OnFileComplete (fileIdHex c))]\<rparr>,
          rcl_ui = onFileComplete (fileIdHex c) u'\<rparr> \<and>
      receiving_ui c s' u' \<and> v_browser u' = v_browser u \<and>
      sink_writes (map (chunk_plaintext (sc_file c)) [0..<total c]) s = Inr s'"
proof -
  obtain k where k: "total c = Suc k" using total_pos_ctx [of c] gr0_implies_Suc by blast
  let ?L = "Call (file_start c) # concat (map (chunk_outs c) [0..<k])"
  obtain s' u' where pre: "run (rcl_step uc) \<lparr>rcl_recv = awaiting c 0 [Call (file_start c)], rcl_ui = u\<rparr>
      (concat (map (rcl_chunk_events c env) [0..<k])) = \<lparr>rcl_recv = awaiting c k ?L, rcl_ui = u'\<rparr>"
    "receiving_ui c s' u'" "v_browser u' = v_browser u" "stream_open s' \<or> is_blob s'"
    "sink_writes (map (chunk_plaintext (sc_file c)) [0..<k]) s = Inr s'"
    using rcl_chunks_run [OF good, of k s u env] u k by auto
  obtain s2 where s2: "sink_write (chunk_plaintext (sc_file c) k) s' = Inr s2"
    using pre(4) fsa.write_ready [of s'] blob.write_ready [of s'] by blast
  have "k < 2 ^ 64" "isLast_chunk (sc_file c) k" using k assms(3) by (simp_all add: isLast_chunk_def)
  moreover have row: "v_byId u' (fileIdHex c) = Some 0" "0 < length (v_rows u')" "\<not> fr_done (v_rows u' ! 0)" "fr_sink (v_rows u' ! 0) = s'"
    using pre(2) by (simp_all add: receiving_ui_def)
  ultimately have "run (rcl_step uc) \<lparr>rcl_recv = awaiting c k ?L, rcl_ui = u'\<rparr> (rcl_chunk_events c env k) =
      \<lparr>rcl_recv = r_init\<lparr>r_log := ?L @ chunk_outs c k @ [Call (OnFileComplete (fileIdHex c))]\<rparr>,
        rcl_ui = onFileComplete (fileIdHex c) (wrote 0 s2 (chunk_plaintext (sc_file c) k) u')\<rparr>"
    using rcl_chunk_run [OF good(1,2) _ row(1-3), of k s2 ?L env] s2 by (simp add: Let_def row(4))
  moreover have "concat (map (rcl_chunk_events c env) [0..<Suc k]) = concat (map (rcl_chunk_events c env) [0..<k]) @ rcl_chunk_events c env k"
    by simp
  ultimately have "run (rcl_step uc) \<lparr>rcl_recv = awaiting c 0 [Call (file_start c)], rcl_ui = u\<rparr>
      (concat (map (rcl_chunk_events c env) [0..<total c])) =
      \<lparr>rcl_recv = r_init\<lparr>r_log := ?L @ chunk_outs c k @ [Call (OnFileComplete (fileIdHex c))]\<rparr>,
        rcl_ui = onFileComplete (fileIdHex c) (wrote 0 s2 (chunk_plaintext (sc_file c) k) u')\<rparr>"
    unfolding k by (simp only: run_append pre(1))
  moreover have "sink_writes (map (chunk_plaintext (sc_file c)) [0..<total c]) s = Inr s2"
    using pre(5) s2 by (simp add: k writes_snoc)
  ultimately show ?thesis using wrote_receiving [OF pre(2), of s2] pre(3) by (auto simp: k)
qed

definition file_mime :: "js_file \<Rightarrow> string" where
  "file_mime f = (if f_type f = [] then ''application/octet-stream'' else f_type f)"

lemma file_start_mime:
  "file_start c = OnFileStart (fileIdHex c) (Some (JStr (f_name (sc_file c))))
     (Some (JInt (int (f_size (sc_file c))))) (Some (JStr (file_mime (sc_file c))))"
  by (simp only: file_start_def file_mime_def)

lemma dedupe_first: "dedupeFilename [] n = (n, [n])"
  by (simp add: dedupeFilename_def)

lemma start_row:
  fixes uc env name mime dir b fileId size'
  defines "sb \<equiv> createFileSink env name mime dir b"
  defines "u \<equiv> sink_created uc env (handle_call uc (OnFileStart fileId (Some (JStr name)) size' (Some (JStr mime))) (folder_chosen dir (rui_init b)))"
  shows "v_byId u fileId = Some 0" "length (v_rows u) = 1" "v_rows u \<noteq> []" "fr_done (v_rows u ! 0) = False"
    "fr_sink (v_rows u ! 0) = fst sb" "v_pending u = H_none" "v_closing u = []" "v_browser u = snd sb"
  by (cases dir; simp add: u_def sb_def onFileStart_def sink_created_def name_text_def mime_text_def folder_chosen_def
      rui_init_def dedupe_first Let_def)+

text \<open>The run up to the first chunk, and the receiver's log after each chunk.\<close>

lemma meta_prefix_run:
  fixes c uc env dir b
  assumes good: "good_ctx c" "uc_recv uc = rctx c"
  defines "sb \<equiv> createFileSink env (f_name (sc_file c)) (file_mime (sc_file c)) dir b"
  shows "\<exists>u1. run (rcl_step uc) (rcl_init b) (Folder_picked dir # rcl_file_events c env 0) =
      \<lparr>rcl_recv = awaiting c 0 [Call (file_start c)], rcl_ui = u1\<rparr> \<and>
    receiving_ui c (fst sb) u1 \<and> v_browser u1 = snd sb \<and> (stream_open (fst sb) \<or> is_blob (fst sb))"
proof -
  let ?f = "sc_file c"
  define u1 where "u1 = sink_created uc env (handle_call uc (file_start c) (folder_chosen dir (rui_init b)))"
  have sink: "fst sb = (case save_target env (f_name ?f) dir of
     Some l \<Rightarrow> Fsa_sink l [] True | None \<Rightarrow> Blob_sink (f_name ?f) (file_mime ?f) [] None)"
    unfolding sb_def by (rule createFileSink_target)
  note start = start_row [where uc = uc and env = env and name = "f_name ?f" and mime = "file_mime ?f" and dir = dir and b = b
        and fileId = "fileIdHex c" and size' = "Some (JInt (int (f_size ?f)))",
      folded file_start_mime, folded u1_def, folded sb_def]
  have "receiving_ui c (fst sb) u1" "v_browser u1 = snd sb"
    using start by (simp_all add: receiving_ui_def)
  moreover have "run (rcl_step uc) (rcl_init b) (Folder_picked dir # rcl_file_events c env 0) =
      \<lparr>rcl_recv = awaiting c 0 [Call (file_start c)], rcl_ui = u1\<rparr>"
    using rcl_meta_run [OF good, of "folder_chosen dir (rui_init b)" env]
    by (simp add: rcl_file_events_def rcl_init_def u1_def)
  moreover have "stream_open (fst sb) \<or> is_blob (fst sb)" by (simp add: sink sink_defs split: option.split)
  ultimately show ?thesis by blast
qed

lemma rcl_file_events_add:
  "rcl_file_events c env n = rcl_file_events c env 0 @ concat (map (rcl_chunk_events c env) [0..<n])"
  by (simp add: rcl_file_events_def)

definition arrived :: "send_ctx \<Rightarrow> screen_ctx \<Rightarrow> save_env \<Rightarrow> nat option \<Rightarrow> browser \<Rightarrow> nat \<Rightarrow> rclient" where
  "arrived c uc env dir b n = run (rcl_step uc) (rcl_init b) (Folder_picked dir # rcl_file_events c env n)"

lemma arrived_Suc: "arrived c uc env dir b (Suc n) = run (rcl_step uc) (arrived c uc env dir b n) (rcl_chunk_events c env n)"
proof -
  have "rcl_file_events c env (Suc n) = rcl_file_events c env n @ rcl_chunk_events c env n"
    by (simp add: rcl_file_events_def)
  then show ?thesis by (simp only: arrived_def append_Cons [symmetric] run_append)
qed

text \<open>The whole run, up to the sink that has all the contents and is being closed.\<close>

lemma arrived_all:
  fixes c uc env dir b
  assumes good: "good_ctx c" "uc_recv uc = rctx c" "total c \<le> 2 ^ 64"
  defines "sb \<equiv> createFileSink env (f_name (sc_file c)) (file_mime (sc_file c)) dir b"
  shows "\<exists>s' u'. arrived c uc env dir b (total c) =
      \<lparr>rcl_recv = r_init\<lparr>r_log := Call (file_start c) # concat (map (chunk_outs c) [0..<total c]) @ [Call (OnFileComplete (fileIdHex c))]\<rparr>,
        rcl_ui = onFileComplete (fileIdHex c) u'\<rparr> \<and>
    receiving_ui c s' u' \<and> v_browser u' = snd sb \<and>
    sink_writes (map (chunk_plaintext (sc_file c)) [0..<total c]) (fst sb) = Inr s'"
proof -
  obtain u1 where meta: "run (rcl_step uc) (rcl_init b) (Folder_picked dir # rcl_file_events c env 0) =
      \<lparr>rcl_recv = awaiting c 0 [Call (file_start c)], rcl_ui = u1\<rparr>"
    and u1: "receiving_ui c (fst sb) u1" "v_browser u1 = snd sb" "stream_open (fst sb) \<or> is_blob (fst sb)"
    using meta_prefix_run [OF good(1,2)] unfolding sb_def by blast
  have "arrived c uc env dir b (total c) = run (rcl_step uc) \<lparr>rcl_recv = awaiting c 0 [Call (file_start c)], rcl_ui = u1\<rparr>
      (concat (map (rcl_chunk_events c env) [0..<total c]))"
    unfolding arrived_def rcl_file_events_add [of _ _ "total c"] append_Cons [symmetric] run_append meta by (rule refl)
  then show ?thesis using rcl_file_run [OF good u1(1,3), of env] unfolding u1(2) by metis
qed

lemma arrived_log:
  assumes good: "good_ctx c" "uc_recv uc = rctx c" "total c \<le> 2 ^ 64" and n: "n \<le> total c"
  shows "r_log (rcl_recv (arrived c uc env dir b n)) = Call (file_start c) # concat (map (chunk_outs c) [0..<n]) @
    (if n = total c then [Call (OnFileComplete (fileIdHex c))] else [])"
proof (cases "n = total c")
  case True
  then show ?thesis using arrived_all [OF good, of env dir b] by auto
next
  case False
  then have "n \<le> total c - 1" using n by simp
  obtain u1 where meta: "run (rcl_step uc) (rcl_init b) (Folder_picked dir # rcl_file_events c env 0) =
      \<lparr>rcl_recv = awaiting c 0 [Call (file_start c)], rcl_ui = u1\<rparr>"
    and u1: "receiving_ui c (fst (createFileSink env (f_name (sc_file c)) (file_mime (sc_file c)) dir b)) u1"
      "stream_open (fst (createFileSink env (f_name (sc_file c)) (file_mime (sc_file c)) dir b)) \<or>
       is_blob (fst (createFileSink env (f_name (sc_file c)) (file_mime (sc_file c)) dir b))"
    using meta_prefix_run [OF good(1,2)] by blast
  have "arrived c uc env dir b n = run (rcl_step uc) \<lparr>rcl_recv = awaiting c 0 [Call (file_start c)], rcl_ui = u1\<rparr>
      (concat (map (rcl_chunk_events c env) [0..<n]))"
    unfolding arrived_def rcl_file_events_add [of _ _ n] append_Cons [symmetric] run_append meta by (rule refl)
  then have "\<exists>u'. arrived c uc env dir b n = \<lparr>rcl_recv = awaiting c n (Call (file_start c) # concat (map (chunk_outs c) [0..<n])), rcl_ui = u'\<rparr>"
    using rcl_chunks_run [OF good \<open>n \<le> total c - 1\<close> u1, of env] by metis
  then show ?thesis using False by (auto simp: awaiting_def)
qed

lemma whole_file_run:
  fixes c uc env dir b
  assumes good: "good_ctx c" "uc_recv uc = rctx c" "total c \<le> 2 ^ 64"
  defines "sb \<equiv> createFileSink env (f_name (sc_file c)) (file_mime (sc_file c)) dir b"
  shows "\<exists>s' u'. run (rcl_step uc) (rcl_init b) (Folder_picked dir # rcl_file_events c env (total c) @ [Sink_closed 0 True]) =
      \<lparr>rcl_recv = r_init\<lparr>r_log := Call (file_start c) # concat (map (chunk_outs c) [0..<total c]) @ [Call (OnFileComplete (fileIdHex c))]\<rparr>,
        rcl_ui = close_over 0 True (onFileComplete (fileIdHex c) u')\<rparr> \<and>
    receiving_ui c s' u' \<and> v_browser u' = snd sb \<and>
    sink_writes (map (chunk_plaintext (sc_file c)) [0..<total c]) (fst sb) = Inr s'"
proof -
  have "run (rcl_step uc) (rcl_init b) (Folder_picked dir # rcl_file_events c env (total c) @ [Sink_closed 0 True]) =
      rcl_step uc (arrived c uc env dir b (total c)) (Sink_closed 0 True)"
    unfolding arrived_def append_Cons [symmetric] run_append by simp
  then show ?thesis using arrived_all [OF good, of env dir b, folded sb_def] by auto
qed

lemma file_saved:
  assumes "webcrypto_lawful (sc_wc c)" "length (sc_epochKey c) = 32" "length (sc_fileId c) = 16"
    and "totalChunks (sc_file c) \<le> 2 ^ 64" and "uc_recv uc = rctx c"
  shows "let file = sc_file c;
      x = run (rcl_step uc) (rcl_init b)
        (Folder_picked dir # rcl_file_events c env (totalChunks file) @ [Sink_closed 0 True]);
      saved = v_browser (rcl_ui x); row = v_rows (rcl_ui x) ! 0;
      b1 = snd (createFileSink env (f_name file) (file_mime file) dir b)
    in v_receiving (rcl_ui x) = False \<and> length (v_rows (rcl_ui x)) = 1 \<and>
      (case save_target env (f_name file) dir of
         Some l \<Rightarrow> b_files saved = (b_files b1)(l := Some (f_content file)) \<and> b_downloads saved = b_downloads b \<and>
           fr_status row = Some ''transferSavedToDisk'' \<and> fr_open row = None
       | None \<Rightarrow> b_downloads saved = b_downloads b @ [(f_name file, file_mime file, f_content file)] \<and> b_files saved = b_files b1 \<and>
           fr_status row = Some ''transferDownloaded'' \<and>
           (case fr_open row of Some u \<Rightarrow> b_urls saved u = Some (f_content file) | None \<Rightarrow> False))"
proof -
  let ?f = "sc_file c"
  have good: "good_ctx c" using assms(1-3) by (simp add: good_ctx_def)
  define sb where "sb = createFileSink env (f_name ?f) (file_mime ?f) dir b"
  have sink: "fst sb = (case save_target env (f_name ?f) dir of
     Some l \<Rightarrow> Fsa_sink l [] True | None \<Rightarrow> Blob_sink (f_name ?f) (file_mime ?f) [] None)" "b_downloads (snd sb) = b_downloads b"
    unfolding sb_def by (rule createFileSink_target)+
  obtain s' u' where run: "run (rcl_step uc) (rcl_init b) (Folder_picked dir # rcl_file_events c env (total c) @ [Sink_closed 0 True]) =
      \<lparr>rcl_recv = r_init\<lparr>r_log := Call (file_start c) # concat (map (chunk_outs c) [0..<total c]) @ [Call (OnFileComplete (fileIdHex c))]\<rparr>,
        rcl_ui = close_over 0 True (onFileComplete (fileIdHex c) u')\<rparr>"
    and whole: "receiving_ui c s' u'" "v_browser u' = snd sb" "sink_writes (map (chunk_plaintext ?f) [0..<total c]) (fst sb) = Inr s'"
    using whole_file_run [OF good assms(5,4), of b dir env, folded sb_def] by (elim exE conjE) (rule that)
  have s': "s' = (case save_target env (f_name ?f) dir of
     Some l \<Rightarrow> Fsa_sink l (f_content ?f) True
   | None \<Rightarrow> Blob_sink (f_name ?f) (file_mime ?f) (map (chunk_plaintext ?f) [0..<total c]) None)"
    using whole(3) by (auto simp: sink(1) writes_fsa writes_blob chunks_concat_content split: option.splits)
  have mime: "file_mime ?f \<noteq> []" by (simp add: file_mime_def)
  obtain row where rows: "v_rows u' = [row]" "fr_sink row = s'" "v_byId u' (fileIdHex c) = Some 0" "v_closing u' = []"
    using whole(1) by (cases "v_rows u'") (auto simp: receiving_ui_def)
  show ?thesis
    unfolding Let_def run using rows whole(2) sink(2) mime
    by (cases "save_target env (f_name ?f) dir")
      (simp_all add: s' onFileComplete_def close_over_def upd_row_def sink_defs getPreviewUrl_def chunks_concat_content
        Let_def sb_def)
qed

text \<open>C5. What the user has in the end. A receiving client with the sender's epoch key, which gets the frames
  of a file in order and whose disk works, saves exactly the contents of the file that was sent, under
  its name: in the chosen folder, at the place picked, or as a download that can also be opened; the
  row says so, and the client is ready for the next file or a role swap.\<close>

theorem received_file_is_saved:
  assumes "webcrypto_lawful (sc_wc c)" "length (sc_epochKey c) = 32" "length (sc_fileId c) = 16"
    and "totalChunks (sc_file c) \<le> 2 ^ 64" and "uc_recv uc = rctx c"
  shows "let file = sc_file c;
      x = run (rcl_step uc) (rcl_init b)
        (Folder_picked dir # rcl_file_events c env (totalChunks file) @ [Sink_closed 0 True]);
      saved = v_browser (rcl_ui x); row = v_rows (rcl_ui x) ! 0;
      b1 = snd (createFileSink env (f_name file) (file_mime file) dir b)
    in v_receiving (rcl_ui x) = False \<and> length (v_rows (rcl_ui x)) = 1 \<and>
      (case save_target env (f_name file) dir of
         Some l \<Rightarrow> b_files saved = (b_files b1)(l := Some (f_content file)) \<and> b_downloads saved = b_downloads b \<and>
           fr_status row = Some ''transferSavedToDisk'' \<and> fr_open row = None
       | None \<Rightarrow> b_downloads saved = b_downloads b @ [(f_name file, file_mime file, f_content file)] \<and> b_files saved = b_files b1 \<and>
           fr_status row = Some ''transferDownloaded'' \<and>
           (case fr_open row of Some u \<Rightarrow> b_urls saved u = Some (f_content file) | None \<Rightarrow> False))"
  by (rule file_saved [OF assms])

text \<open>The names that \<open>dedupeFilename\<close> avoids are those given in this session only: a file the folder
  already had under the same name is replaced.\<close>

theorem existing_file_replaced:
  assumes "webcrypto_lawful (sc_wc c)" "length (sc_epochKey c) = 32" "length (sc_fileId c) = 16"
    and "totalChunks (sc_file c) \<le> 2 ^ 64" and "uc_recv uc = rctx c"
    and "se_dir env = Writable" "b_files b (In_folder d (f_name (sc_file c))) = Some old"
  shows "b_files (v_browser (rcl_ui (run (rcl_step uc) (rcl_init b)
      (Folder_picked (Some d) # rcl_file_events c env (totalChunks (sc_file c)) @ [Sink_closed 0 True]))))
    (In_folder d (f_name (sc_file c))) = Some (f_content (sc_file c))"
  using file_saved [OF assms(1-5), of b "Some d" env] assms(6) by (simp add: Let_def save_target_def)

text \<open>The transfer of one file with one chunk, to a download.\<close>

definition demo_screen :: screen_ctx where
  "demo_screen = \<lparr>uc_recv = rctx one_chunk, uc_string = (\<lambda>_. []), uc_large = (\<lambda>_. False)\<rparr>"

theorem received_file_is_saved_witness:
  "let x = run (rcl_step demo_screen) (rcl_init browser_init)
     (Folder_picked (Some 7) # rcl_file_events one_chunk \<lparr>se_dir = Writable, se_hasPicker = False, se_picked = None\<rparr> 1 @ [Sink_closed 0 True])
   in b_files (v_browser (rcl_ui x)) (In_folder 7 (f_name (sc_file one_chunk))) = Some [104, 105]"
proof -
  have "uc_recv demo_screen = rctx one_chunk" by (simp add: demo_screen_def)
  note saved = received_file_is_saved [OF one_chunk_ctx this, of browser_init "Some 7"
      "\<lparr>se_dir = Writable, se_hasPicker = False, se_picked = None\<rparr>"]
  have "f_content (sc_file one_chunk) = [104, 105]" by (simp add: one_chunk_def demo_send_def)
  then show ?thesis using saved unfolding total_one_chunk Let_def by (simp add: save_target_def)
qed

end
