(* ===== verification/ReceiverUIInv.thy ===== *)
theory ReceiverUIInv
  imports ReceiverUIProps
begin

section \<open>No partial file is saved\<close>

text \<open>
  The invariant of the receiving client, for any messages, any events and any failures of the disk:
  as long as no error was reported, every download and every file written is empty, was there
  before, or has all the bytes the receiver was given of a file that is complete. What the receiver
  was given is read off the calls it made (\<open>given_files\<close>, \<open>completed_files\<close>).
\<close>

subsection \<open>Files as the calls tell them\<close>

fun note_out :: "(string \<times> bytes) list \<times> (string \<times> bytes) list \<Rightarrow> r_out \<Rightarrow> (string \<times> bytes) list \<times> (string \<times> bytes) list" where
  "note_out (G, C) (Call (OnFileStart f n s m)) = (G @ [(f, [])], C)"
| "note_out (G, C) (Call (OnChunk f i l pt)) =
     (if G = [] then G else butlast G @ [(fst (last G), snd (last G) @ pt)], C)"
| "note_out (G, C) (Call (OnFileComplete f)) = (G, if G = [] then C else C @ [last G])"
| "note_out (G, C) _ = (G, C)"

definition tally :: "r_out list \<Rightarrow> (string \<times> bytes) list \<times> (string \<times> bytes) list" where
  "tally L = foldl note_out ([], []) L"

definition given_files :: "r_out list \<Rightarrow> (string \<times> bytes) list" where
  "given_files L = fst (tally L)"

definition completed_files :: "r_out list \<Rightarrow> (string \<times> bytes) list" where
  "completed_files L = snd (tally L)"

lemma tally_snoc: "tally (L @ [x]) = note_out (tally L) x"
  by (simp add: tally_def)

lemma given_snoc [simp]:
  "given_files (L @ [Call (OnFileStart f n s m)]) = given_files L @ [(f, [])]"
  "given_files L \<noteq> [] \<Longrightarrow> given_files (L @ [Call (OnChunk f i l pt)]) =
     butlast (given_files L) @ [(fst (last (given_files L)), snd (last (given_files L)) @ pt)]"
  "given_files (L @ [Call (OnFileComplete f)]) = given_files L"
  "given_files (L @ [Call (OnAborted f r)]) = given_files L"
  "given_files (L @ [Sent fr]) = given_files L"
  by (cases "tally L"; simp add: given_files_def tally_snoc)+

lemma completed_snoc [simp]:
  "completed_files (L @ [Call (OnFileStart f n s m)]) = completed_files L"
  "completed_files (L @ [Call (OnChunk f i l pt)]) = completed_files L"
  "given_files L \<noteq> [] \<Longrightarrow> completed_files (L @ [Call (OnFileComplete f)]) = completed_files L @ [last (given_files L)]"
  "completed_files (L @ [Call (OnAborted f r)]) = completed_files L"
  "completed_files (L @ [Sent fr]) = completed_files L"
  by (cases "tally L"; simp add: completed_files_def given_files_def tally_snoc)+

definition no_error :: "r_out list \<Rightarrow> bool" where
  "no_error L \<longleftrightarrow> (\<forall>e. Call (OnError e) \<notin> set L)"

subsection \<open>The screen\<close>

definition writable :: "sink \<Rightarrow> bool" where
  "writable s \<longleftrightarrow> stream_open s \<or> is_blob s"

definition closing_ok :: "(string \<times> bytes) list \<Rightarrow> sink \<Rightarrow> bool" where
  "closing_ok C s = (case s of Fsa_sink l buf _ \<Rightarrow> buf \<in> snd ` set C | _ \<Rightarrow> True)"

text \<open>\<open>b\<close> is \<open>b0\<close> with complete files saved and empty files made.\<close>

definition saved_from :: "browser \<Rightarrow> (string \<times> bytes) list \<Rightarrow> browser \<Rightarrow> bool" where
  "saved_from b0 C b \<longleftrightarrow>
     (\<exists>ds. b_downloads b = b_downloads b0 @ ds \<and> (\<forall>d \<in> set ds. snd (snd d) \<in> snd ` set C)) \<and>
     (\<forall>l. b_files b l \<in> {b_files b0 l, Some []} \<union> Some ` snd ` set C)"

fun is_sink :: "pending \<Rightarrow> bool" where
  "is_sink (H_sink _ _ _ _ _) = True"
| "is_sink _ = False"

definition rows_ok :: "r_out list \<Rightarrow> rui \<Rightarrow> bool" where
  "rows_ok L u \<longleftrightarrow> (\<forall>k < length (v_rows u). fr_done (v_rows u ! k) \<or>
     (writable (fr_sink (v_rows u ! k)) \<and> sink_contents (fr_sink (v_rows u ! k)) = snd (given_files L ! k)))"

definition closings_ok :: "r_out list \<Rightarrow> rui \<Rightarrow> bool" where
  "closings_ok L u \<longleftrightarrow> (\<forall>k \<in> set (v_closing u). k < length (v_rows u) \<and> fr_done (v_rows u ! k) \<and>
     closing_ok (completed_files L) (fr_sink (v_rows u ! k)))"

definition ui_ok :: "browser \<Rightarrow> r_out list \<Rightarrow> rui \<Rightarrow> bool" where
  "ui_ok b0 L u \<longleftrightarrow>
     length (v_rows u) + (if is_sink (v_pending u) then 1 else 0) = length (given_files L) \<and>
     (is_sink (v_pending u) \<longrightarrow> snd (last (given_files L)) = []) \<and>
     (\<forall>f k. v_byId u f = Some k \<longrightarrow> k < length (v_rows u)) \<and>
     rows_ok L u \<and> closings_ok L u \<and> saved_from b0 (completed_files L) (v_browser u)"

lemma ui_ok_sent: "ui_ok b0 (L @ [Sent fr]) u = ui_ok b0 L u"
  by (simp add: ui_ok_def rows_ok_def closings_ok_def)

lemma upd_row_simps [simp]:
  "length (v_rows (upd_row k f u)) = length (v_rows u)" "v_byId (upd_row k f u) = v_byId u"
  "v_pending (upd_row k f u) = v_pending u" "v_closing (upd_row k f u) = v_closing u"
  "v_browser (upd_row k f u) = v_browser u" "v_rows (upd_row k f u) = [] \<longleftrightarrow> v_rows u = []"
  by (simp_all add: upd_row_def)

lemma upd_row_nth: "j < length (v_rows u) \<Longrightarrow> v_rows (upd_row k f u) ! j = (if j = k then f (v_rows u ! j) else v_rows u ! j)"
  by (auto simp: upd_row_def nth_list_update)

lemma closing_ok_more: "closing_ok C s \<Longrightarrow> closing_ok (C @ D) s"
  by (auto simp: closing_ok_def split: sink.splits)

lemma saved_from_more: "saved_from b0 C b \<Longrightarrow> saved_from b0 (C @ D) b"
  unfolding saved_from_def by (metis (no_types, lifting) Un_iff image_Un set_append)

lemma onFileStart_ok:
  assumes "ui_ok b0 L u" "\<not> is_sink (v_pending u)"
  shows "ui_ok b0 (L @ [Call (OnFileStart f n s m)]) (onFileStart c f n s m u)"
proof -
  have "rows_ok (L @ [Call (OnFileStart f n s m)]) (onFileStart c f n s m u)"
    using assms by (auto simp: ui_ok_def rows_ok_def onFileStart_def Let_def nth_append)
  then show ?thesis using assms by (auto simp: ui_ok_def closings_ok_def onFileStart_def Let_def)
qed

lemma create_saved:
  assumes "saved_from b0 C b"
  shows "saved_from b0 C (snd (createFileSink env n m d b))"
proof -
  have "saved_from b0 C (create_file l b)" "saved_from b0 C (empty_file l b)" if "saved_from b0 C b" for l b
    using that by (auto simp: saved_from_def create_file_def empty_file_def split: option.split)
  then show ?thesis
    using assms by (auto simp: createFileSink_def folder_sink_def picker_sink_def Let_def split: option.split dir_try.split prod.split)
qed

lemma create_writable: "writable (fst (createFileSink env n m d b)) \<and> sink_contents (fst (createFileSink env n m d b)) = []"
  by (simp add: createFileSink_target writable_def sink_defs split: option.split)

lemma last_nth: "length xs = Suc n \<Longrightarrow> last xs = xs ! n"
  by (metis diff_Suc_1 last_conv_nth list.size(3) nat.distinct(1))

lemma sink_created_ok:
  assumes ok: "ui_ok b0 L u" and p: "v_pending u = H_sink f n m s d"
  shows "ui_ok b0 L (sink_created c env u)" "v_pending (sink_created c env u) = H_none"
    "length (v_rows (sink_created c env u)) = Suc (length (v_rows u))"
    "v_byId (sink_created c env u) f = Some (length (v_rows u))" "\<not> fr_done (v_rows (sink_created c env u) ! length (v_rows u))"
proof -
  let ?u = "sink_created c env u"
  show 1: "v_pending ?u = H_none" "length (v_rows ?u) = Suc (length (v_rows u))" "v_byId ?u f = Some (length (v_rows u))"
    "\<not> fr_done (v_rows ?u ! length (v_rows u))"
    by (simp_all add: sink_created_def p Let_def)
  have G: "length (given_files L) = Suc (length (v_rows u))" "snd (last (given_files L)) = []" using ok p by (auto simp: ui_ok_def)
  then have "snd (given_files L ! length (v_rows u)) = []" using last_nth [OF G(1)] by simp
  moreover have "v_rows ?u ! k = v_rows u ! k" if "k < length (v_rows u)" for k
    using that by (simp add: sink_created_def p Let_def nth_append)
  moreover have "fr_sink (v_rows ?u ! length (v_rows u)) = fst (createFileSink env n m d (v_browser u))"
    by (simp add: sink_created_def p Let_def)
  ultimately have "rows_ok L ?u"
    using ok create_writable [of env n m d "v_browser u"] 1 by (auto simp: ui_ok_def rows_ok_def less_Suc_eq)
  moreover have "closings_ok L ?u"
    using ok 1 \<open>\<And>k. k < length (v_rows u) \<Longrightarrow> v_rows ?u ! k = v_rows u ! k\<close>
    by (auto simp: ui_ok_def closings_ok_def sink_created_def p Let_def)
  moreover have "saved_from b0 (completed_files L) (v_browser ?u)"
    using ok create_saved by (simp add: ui_ok_def sink_created_def p Let_def)
  ultimately show "ui_ok b0 L ?u"
    using ok G 1 by (auto simp: ui_ok_def sink_created_def p Let_def less_Suc_eq)
qed

text \<open>The row of the file that is received is the last one.\<close>

definition last_row :: "string \<Rightarrow> rui \<Rightarrow> bool" where
  "last_row f u \<longleftrightarrow> v_rows u \<noteq> [] \<and> v_byId u f = Some (length (v_rows u) - 1) \<and> \<not> fr_done (v_rows u ! (length (v_rows u) - 1))"

lemma write_writable:
  "writable s \<Longrightarrow> \<exists>s'. sink_write pt s = Inr s' \<and> writable s' \<and> sink_contents s' = sink_contents s @ pt"
  using fsa.write_ready [of s pt] blob.write_ready [of s pt] by (auto simp: writable_def)

lemma onChunk_ok:
  assumes ok: "ui_ok b0 L u" and p: "\<not> is_sink (v_pending u)" and f: "last_row f u"
  shows "ui_ok b0 (L @ [Call (OnChunk f i l pt)]) (onChunk f pt u)" "last_row g u \<Longrightarrow> last_row g (onChunk f pt u)"
    "\<exists>k. v_pending (onChunk f pt u) = H_write k pt True \<and> k < length (v_rows (onChunk f pt u))"
proof -
  define k where "k = length (v_rows u) - 1"
  have k: "k < length (v_rows u)" "v_byId u f = Some k" "\<not> fr_done (v_rows u ! k)" "length (v_rows u) = Suc k"
    using f by (auto simp: last_row_def k_def)
  then have w: "writable (fr_sink (v_rows u ! k))" "sink_contents (fr_sink (v_rows u ! k)) = snd (given_files L ! k)"
    using ok by (auto simp: ui_ok_def rows_ok_def)
  from write_writable [OF w(1), of pt] obtain s' where s': "sink_write pt (fr_sink (v_rows u ! k)) = Inr s'" "writable s'"
    "sink_contents s' = snd (given_files L ! k) @ pt" using w(2) by auto
  have G: "length (given_files L) = Suc k" using ok p k by (simp add: ui_ok_def)
  then have ne: "given_files L \<noteq> []" and last: "last (given_files L) = given_files L ! k" using last_nth [OF G] by auto
  let ?u = "(upd_row k (\<lambda>r. r\<lparr>fr_sink := s'\<rparr>) u)\<lparr>v_pending := H_write k pt True\<rparr>"
  have u: "onChunk f pt u = ?u" using k s' by (simp add: onChunk_def)
  have rows: "v_rows ?u ! j = (if j = k then (v_rows u ! j)\<lparr>fr_sink := s'\<rparr> else v_rows u ! j)" if "j < length (v_rows u)" for j
    using that by (simp add: upd_row_nth)
  have Gj: "given_files (L @ [Call (OnChunk f i l pt)]) ! j = (if j = k then (fst (given_files L ! k), snd (given_files L ! k) @ pt)
      else given_files L ! j)" if "j \<le> k" for j
    using that ne G last by (auto simp: nth_append nth_butlast)
  have "rows_ok (L @ [Call (OnChunk f i l pt)]) ?u"
    unfolding rows_ok_def using rows Gj ok k(4) s' by (auto simp: ui_ok_def rows_ok_def less_Suc_eq_le)
  moreover have "closings_ok (L @ [Call (OnChunk f i l pt)]) ?u"
    unfolding closings_ok_def using rows ok k by (auto simp: ui_ok_def closings_ok_def)
  ultimately show "ui_ok b0 (L @ [Call (OnChunk f i l pt)]) (onChunk f pt u)"
    using ok p ne unfolding u by (auto simp: ui_ok_def)
  show "last_row g u \<Longrightarrow> last_row g (onChunk f pt u)" using k unfolding u by (auto simp: last_row_def upd_row_nth)
  show "\<exists>k. v_pending (onChunk f pt u) = H_write k pt True \<and> k < length (v_rows (onChunk f pt u))"
    using k(1) unfolding u by simp
qed

lemma give_up_ok:
  assumes ok: "ui_ok b0 L u" and k: "k < length (v_rows u)"
  shows "ui_ok b0 L (give_up_row t k u)"
proof -
  let ?u = "give_up_row t k u"
  let ?s = "fr_sink (v_rows u ! k)"
  have rows: "v_rows ?u ! j = (if j = k then (v_rows u ! j)\<lparr>fr_done := True, fr_cancelHidden := True, fr_status := Some t,
      fr_sink := fst (sink_abort ?s (v_browser u))\<rparr> else v_rows u ! j)" if "j < length (v_rows u)" for j
    using that by (simp add: give_up_row_def Let_def upd_row_nth)
  have same: "length (v_rows ?u) = length (v_rows u)" "v_byId ?u = v_byId u" "v_pending ?u = v_pending u" "v_closing ?u = v_closing u"
    "v_browser ?u = snd (sink_abort ?s (v_browser u))" by (simp_all add: give_up_row_def Let_def)
  have "closing_ok C ?s \<Longrightarrow> closing_ok C (fst (sink_abort ?s b))" for C b
    by (cases ?s) (auto simp: closing_ok_def sink_abort_def)
  then have "closings_ok L ?u" using ok rows same by (auto simp: ui_ok_def closings_ok_def)
  moreover have "rows_ok L ?u" using ok rows same by (auto simp: ui_ok_def rows_ok_def)
  moreover have "saved_from b0 C (snd (sink_abort ?s b))" if "saved_from b0 C b" for C b
    using that by (cases ?s) (auto simp: saved_from_def sink_abort_def revoke_def split: option.split)
  ultimately show ?thesis using ok same by (auto simp: ui_ok_def)
qed

lemma ui_ok_text:
  assumes "ui_ok b0 L u" "v_rows u' = v_rows u" "v_byId u' = v_byId u" "v_pending u' = v_pending u" "v_closing u' = v_closing u"
    "v_browser u' = v_browser u"
  shows "ui_ok b0 L u'"
  using assms by (simp add: ui_ok_def rows_ok_def closings_ok_def)

lemma onAborted_ok:
  assumes "ui_ok b0 L u"
  shows "ui_ok b0 (L @ [Call (OnAborted f r)]) (onAborted f r u)" "v_pending (onAborted f r u) = v_pending u"
proof -
  let ?u = "u\<lparr>v_receiving := False, v_status := ''transferWaitingForFiles''\<rparr>"
  have "ui_ok b0 L ?u" by (rule ui_ok_text [OF assms]) simp_all
  then have "ui_ok b0 L (onAborted f r u)"
  proof (cases "v_byId u f")
    case (Some k)
    then have "k < length (v_rows ?u)" using assms by (simp add: ui_ok_def)
    with \<open>ui_ok b0 L ?u\<close> Some show ?thesis using give_up_ok by (simp add: onAborted_def)
  qed (simp add: onAborted_def)
  then show "ui_ok b0 (L @ [Call (OnAborted f r)]) (onAborted f r u)" by (simp add: ui_ok_def rows_ok_def closings_ok_def)
  show "v_pending (onAborted f r u) = v_pending u"
    by (simp add: onAborted_def give_up_row_def Let_def split: option.split)
qed

lemma finish_writable:
  assumes "writable s"
  shows "\<exists>s' b'. sink_close s b = Inr (s', b') \<and> closing_ok (C @ [(f, sink_contents s)]) s' \<and>
    (saved_from b0 C b \<longrightarrow> saved_from b0 (C @ [(f, sink_contents s)]) b')"
proof (cases s)
  case (Fsa_sink l buf o')
  then show ?thesis using assms saved_from_more
    by (auto simp: writable_def sink_defs closing_ok_def)
next
  case (Blob_sink n m parts u)
  have "saved_from b0 (C @ [(f, concat parts)])
     (b\<lparr>b_urls := us, b_nextUrl := k, b_downloads := b_downloads b @ [(n, t, concat parts)]\<rparr>)" if "saved_from b0 C b" for us k t
    using saved_from_more [OF that, of "[(f, concat parts)]"] by (auto simp: saved_from_def)
  with Blob_sink show ?thesis by (auto simp: sink_defs closing_ok_def Let_def)
qed

lemma onFileComplete_ok:
  assumes ok: "ui_ok b0 L u" and p: "\<not> is_sink (v_pending u)" and f: "last_row f u"
  shows "ui_ok b0 (L @ [Call (OnFileComplete f)]) (onFileComplete f u)" "v_pending (onFileComplete f u) = v_pending u"
proof -
  define k where "k = length (v_rows u) - 1"
  have k: "k < length (v_rows u)" "v_byId u f = Some k" "\<not> fr_done (v_rows u ! k)" "length (v_rows u) = Suc k"
    using f by (auto simp: last_row_def k_def)
  then have w: "writable (fr_sink (v_rows u ! k))" "sink_contents (fr_sink (v_rows u ! k)) = snd (given_files L ! k)"
    using ok by (auto simp: ui_ok_def rows_ok_def)
  have G: "length (given_files L) = Suc k" using ok p k by (simp add: ui_ok_def)
  then have ne: "given_files L \<noteq> []" and last: "last (given_files L) = given_files L ! k" using last_nth [OF G] by auto
  let ?L = "L @ [Call (OnFileComplete f)]"
  have C: "completed_files ?L = completed_files L @ [(fst (last (given_files L)), sink_contents (fr_sink (v_rows u ! k)))]"
    using ne w(2) last by simp
  have saved: "saved_from b0 (completed_files L) (v_browser u)" using ok by (simp add: ui_ok_def)
  obtain s' b' where s': "sink_close (fr_sink (v_rows u ! k)) (v_browser u) = Inr (s', b')" "closing_ok (completed_files ?L) s'"
    "saved_from b0 (completed_files ?L) b'"
    using finish_writable [OF w(1)] saved unfolding C by metis
  let ?u = "(upd_row k (\<lambda>r. r\<lparr>fr_sink := s'\<rparr>) (upd_row k (\<lambda>r. r\<lparr>fr_done := True, fr_cancelHidden := True\<rparr>) (u\<lparr>v_receiving := False\<rparr>)))
      \<lparr>v_browser := b', v_closing := v_closing u @ [k]\<rparr>"
  have u: "onFileComplete f u = ?u" using k s' by (simp add: onFileComplete_def Let_def)
  have rows: "v_rows ?u ! j = (if j = k then (v_rows u ! j)\<lparr>fr_done := True, fr_cancelHidden := True, fr_sink := s'\<rparr> else v_rows u ! j)"
    if "j < length (v_rows u)" for j
    using that by (simp add: upd_row_nth)
  have "rows_ok ?L ?u" unfolding rows_ok_def using rows ok by (auto simp: ui_ok_def rows_ok_def)
  moreover have "closings_ok ?L ?u"
    unfolding closings_ok_def using rows ok k s'(2) closing_ok_more C by (auto simp: ui_ok_def closings_ok_def)
  ultimately show "ui_ok b0 ?L (onFileComplete f u)"
    using ok p ne s'(3) unfolding u by (auto simp: ui_ok_def)
  show "v_pending (onFileComplete f u) = v_pending u" unfolding u by simp
qed

text \<open>Events of the screen alone.\<close>

definition quiet :: "(frow \<Rightarrow> frow) \<Rightarrow> bool" where
  "quiet g \<longleftrightarrow> (\<forall>r. fr_sink (g r) = fr_sink r \<and> fr_done (g r) = fr_done r)"

lemma upd_row_ok:
  assumes ok: "ui_ok b0 L u" and f: "quiet f"
  shows "ui_ok b0 L (upd_row k f u)" "last_row g (upd_row k f u) = last_row g u"
proof -
  have "rows_ok L (upd_row k f u)" "closings_ok L (upd_row k f u)"
    using ok f by (auto simp: ui_ok_def rows_ok_def closings_ok_def upd_row_nth quiet_def)
  then show "ui_ok b0 L (upd_row k f u)" using ok by (auto simp: ui_ok_def)
  show "last_row g (upd_row k f u) = last_row g u"
    by (cases "v_rows u = []") (use f in \<open>auto simp: last_row_def upd_row_nth quiet_def\<close>)
qed

lemma close_over_form:
  "close_over k ok' u = u \<or> (k \<in> set (v_closing u) \<and> (\<exists>g b. quiet g \<and>
      close_over k ok' u = (upd_row k g u)\<lparr>v_closing := remove1 k (v_closing u), v_browser := b\<rparr> \<and>
      (b = v_browser u \<or> b = sink_committed (fr_sink (v_rows u ! k)) (v_browser u))))"
proof (cases "k \<in> set (v_closing u)")
  case True
  let ?s = "fr_sink (v_rows u ! k)"
  show ?thesis
  proof (cases "ok' \<or> is_blob ?s")
    case True
    define g :: "frow \<Rightarrow> frow" where "g = (\<lambda>r. r\<lparr>fr_status := Some (if sink_mode ?s = Fsa then ''transferSavedToDisk'' else ''transferDownloaded''),
        fr_open := getPreviewUrl ?s\<rparr>)"
    have "quiet g" by (simp add: quiet_def g_def)
    moreover have "close_over k ok' u = (upd_row k g u)\<lparr>v_closing := remove1 k (v_closing u), v_browser := sink_committed ?s (v_browser u)\<rparr>"
      using \<open>k \<in> set (v_closing u)\<close> True by (simp add: close_over_def upd_row_def Let_def g_def)
    ultimately show ?thesis using \<open>k \<in> set (v_closing u)\<close> by blast
  next
    case False
    then have "close_over k ok' u = (upd_row k id u)\<lparr>v_closing := remove1 k (v_closing u), v_browser := v_browser u\<rparr>"
      using \<open>k \<in> set (v_closing u)\<close> by (simp add: close_over_def upd_row_def Let_def)
    moreover have "quiet id" by (simp add: quiet_def)
    ultimately show ?thesis using \<open>k \<in> set (v_closing u)\<close> by blast
  qed
qed (simp add: close_over_def)

lemma close_over_ok:
  assumes ok: "ui_ok b0 L u"
  shows "ui_ok b0 L (close_over k ok' u)" "v_pending (close_over k ok' u) = v_pending u" "last_row f (close_over k ok' u) = last_row f u"
proof -
  have "ui_ok b0 L (close_over k ok' u) \<and> v_pending (close_over k ok' u) = v_pending u \<and> last_row f (close_over k ok' u) = last_row f u"
  proof (cases "close_over k ok' u = u")
    case False
    then obtain g b where k: "k \<in> set (v_closing u)" and g: "quiet g"
      and b: "b = v_browser u \<or> b = sink_committed (fr_sink (v_rows u ! k)) (v_browser u)"
      and u: "close_over k ok' u = (upd_row k g u)\<lparr>v_closing := remove1 k (v_closing u), v_browser := b\<rparr>"
      using close_over_form [of k ok' u] by blast
    have c: "closing_ok (completed_files L) (fr_sink (v_rows u ! k))" using ok k by (auto simp: ui_ok_def closings_ok_def)
    then have s: "saved_from b0 (completed_files L) (sink_committed (fr_sink (v_rows u ! k)) (v_browser u))"
      using ok by (cases "fr_sink (v_rows u ! k)") (auto simp: ui_ok_def saved_from_def sink_committed_def closing_ok_def)
    have up: "ui_ok b0 L (upd_row k g u)" "last_row f (upd_row k g u) = last_row f u" using upd_row_ok [OF ok g] by blast+
    have "closings_ok L ((upd_row k g u)\<lparr>v_closing := remove1 k (v_closing u), v_browser := b\<rparr>)"
      using up(1) set_remove1_subset [of k "v_closing u"] unfolding closings_ok_def ui_ok_def
      by (auto simp: upd_row_def)
    moreover have "saved_from b0 (completed_files L) b" using b s ok by (auto simp: ui_ok_def)
    ultimately have "ui_ok b0 L (close_over k ok' u)" using up(1) unfolding u by (simp add: ui_ok_def rows_ok_def)
    then show ?thesis using up(2) unfolding u by (simp add: last_row_def)
  qed (use ok in simp)
  then show "ui_ok b0 L (close_over k ok' u)" "v_pending (close_over k ok' u) = v_pending u" "last_row f (close_over k ok' u) = last_row f u"
    by simp_all
qed

lemma pending_ok:
  assumes "ui_ok b0 L u" "is_sink p = is_sink (v_pending u)"
  shows "ui_ok b0 L (u\<lparr>v_pending := p\<rparr>)"
  using assms by (simp add: ui_ok_def rows_ok_def closings_ok_def)

end
