(* ===== verification/ReceiverUISaved.thy ===== *)
theory ReceiverUISaved
  imports ReceiverUIInv
begin

section \<open>The receiving client keeps the invariant\<close>

text \<open>
  The receiver and its screen together: \<open>linked\<close> says what the screen awaits in each phase of the
  receiver and which row its current file has. Every operation of the receiver carries it over
  the handlers it calls (\<open>goes\<close>), so every reachable state has it (\<open>saving\<close>).
\<close>

subsection \<open>The invariant\<close>

definition cur_row :: "receiver \<Rightarrow> rui \<Rightarrow> bool" where
  "cur_row r u \<longleftrightarrow> (\<forall>cur. r_current r = Some cur \<longrightarrow> last_row (rf_fileIdHex cur) u)"

definition linked :: "receiver \<Rightarrow> rui \<Rightarrow> bool" where
  "linked r u \<longleftrightarrow> (case r_phase r of
     Meta_starting \<Rightarrow> (\<exists>f n m s d. v_pending u = H_sink f n m s d \<and>
       (\<forall>cur. r_current r = Some cur \<longrightarrow> rf_fileIdHex cur = f))
   | Chunk_handling fr i \<Rightarrow> (\<exists>k pt. v_pending u = H_write k pt True \<and> k < length (v_rows u)) \<and> cur_row r u
   | _ \<Rightarrow> v_pending u = H_none \<and> cur_row r u)"

definition client_ok :: "browser \<Rightarrow> receiver \<Rightarrow> rui \<Rightarrow> bool" where
  "client_ok b0 r u \<longleftrightarrow> no_error (r_log r) \<longrightarrow> ui_ok b0 (r_log r) u \<and> linked r u"

text \<open>The screen when no handler is awaited.\<close>

definition calm_ok :: "browser \<Rightarrow> receiver \<Rightarrow> rui \<Rightarrow> bool" where
  "calm_ok b0 r u \<longleftrightarrow> no_error (r_log r) \<longrightarrow> ui_ok b0 (r_log r) u \<and> v_pending u = H_none \<and> cur_row r u"

lemma client_ok_calm: "\<not> in_handler (r_phase r) \<Longrightarrow> client_ok b0 r u = calm_ok b0 r u"
  by (cases "r_phase r") (simp_all add: client_ok_def calm_ok_def linked_def)

lemma no_error_snoc [simp]: "no_error (L @ [x]) = (no_error L \<and> (\<forall>e. x \<noteq> Call (OnError e)))"
  by (auto simp: no_error_def)

lemma client_ok_cong:
  "r_log r' = r_log r \<Longrightarrow> r_phase r' = r_phase r \<Longrightarrow> r_current r' = r_current r \<Longrightarrow> client_ok b0 r' u = client_ok b0 r u"
  by (cases "r_phase r") (simp_all add: client_ok_def linked_def cur_row_def)

subsection \<open>An operation and the handlers it calls\<close>

definition goes :: "screen_ctx \<Rightarrow> browser \<Rightarrow> rui \<Rightarrow> receiver \<Rightarrow> receiver \<Rightarrow> bool" where
  "goes c b0 u r r' \<longleftrightarrow> (\<exists>new. r_log r' = r_log r @ new \<and> client_ok b0 r' (fold (run_output c) new u))"

lemma goes_silent: "r_log r' = r_log r \<Longrightarrow> client_ok b0 r' u \<Longrightarrow> goes c b0 u r r'"
  by (auto simp: goes_def)

lemma goes_call: "r_log r' = r_log r @ [x] \<Longrightarrow> client_ok b0 r' (run_output c x u) \<Longrightarrow> goes c b0 u r r'"
  by (auto simp: goes_def intro!: exI [of _ "[x]"])

lemma goes_error: "r_log r' = r_log r @ xs @ [Call (OnError e)] \<Longrightarrow> goes c b0 u r r'"
  by (auto simp: goes_def client_ok_def no_error_def intro!: exI [of _ "xs @ [Call (OnError e)]"])

lemma goes_fail [simp]: "goes c b0 u r (r_fail e r)"
  by (rule goes_error [where xs = "[]"]) simp

lemma goes_trans:
  assumes "goes c b0 u r r1" "\<And>u1. client_ok b0 r1 u1 \<Longrightarrow> goes c b0 u1 r1 r2"
  shows "goes c b0 u r r2"
proof -
  obtain new where new: "r_log r1 = r_log r @ new" "client_ok b0 r1 (fold (run_output c) new u)"
    using assms(1) by (auto simp: goes_def)
  from assms(2) [OF new(2)] obtain more where "r_log r2 = r_log r1 @ more"
    "client_ok b0 r2 (fold (run_output c) more (fold (run_output c) new u))" by (auto simp: goes_def)
  then show ?thesis using new(1) by (auto simp: goes_def intro!: exI [of _ "new @ more"])
qed

lemma goes_done: "calm_ok b0 r u \<Longrightarrow> goes c b0 u r (r_done r)"
  by (rule goes_silent) (simp_all add: client_ok_calm calm_ok_def cur_row_def)

subsection \<open>The steps on the chain\<close>

lemma meta_start_goes: "calm_ok b0 r u \<Longrightarrow> goes c b0 u r (meta_start p r)"
  by (auto simp: meta_start_def client_ok_calm calm_ok_def cur_row_def intro!: goes_silent split: option.split)

lemma meta_derived_goes: "calm_ok b0 r u \<Longrightarrow> goes c b0 u r (meta_derived rc f ct r)"
  by (auto simp: meta_derived_def client_ok_calm calm_ok_def cur_row_def intro!: goes_silent split: sum.split)

lemma onFileStart_pending: "\<exists>n' m'. v_pending (onFileStart c f n s m u) = H_sink f n' m' s (v_saveDir u)"
  by (simp add: onFileStart_def Let_def)

lemma meta_decrypted_goes:
  assumes ok: "calm_ok b0 r u"
  shows "goes c b0 u r (meta_decrypted rc f key ct r)"
proof -
  let ?r = "r\<lparr>r_current := Some \<lparr>rf_fileIdHex = f, rf_fileKey = key, rf_expectedIndex = 0\<rparr>\<rparr>"
  have "goes c b0 u r (r_fail Type_error ?r)" by (rule goes_error [where xs = "[]"]) simp
  moreover have "goes c b0 u r ((r_call (OnFileStart f n s m) ?r)\<lparr>r_phase := Meta_starting\<rparr>)" for n s m
  proof (rule goes_call)
    show "client_ok b0 ((r_call (OnFileStart f n s m) ?r)\<lparr>r_phase := Meta_starting\<rparr>) (run_output c (Call (OnFileStart f n s m)) u)"
      using ok onFileStart_ok [of b0 "r_log r" u f n s m c] onFileStart_pending [of c f n s m u]
      by (auto simp: client_ok_def calm_ok_def linked_def)
  qed simp
  ultimately show ?thesis by (auto simp: meta_decrypted_def Let_def split: sum.split)
qed

lemma chunk_start_goes: "calm_ok b0 r u \<Longrightarrow> goes c b0 u r (chunk_start buffer r)"
  by (auto simp: chunk_start_def client_ok_calm calm_ok_def cur_row_def intro!: goes_silent goes_done split: option.split)

lemma chunk_decrypted_goes:
  assumes ok: "calm_ok b0 r u" and p: "\<And>cur. r_current r = Some cur \<Longrightarrow> rf_fileIdHex cur = toHex (cf_fileId fr)"
  shows "goes c b0 u r (chunk_decrypted rc fr key r)"
proof -
  have "goes c b0 u r ((r_call (OnChunk f i l pt) r)\<lparr>r_phase := Chunk_handling fr i\<rparr>)"
    if cur: "r_current r = Some cur" and f: "f = toHex (cf_fileId fr)" for cur f i l pt
  proof (rule goes_call)
    have "client_ok b0 ((r_call (OnChunk f i l pt) r)\<lparr>r_phase := Chunk_handling fr i\<rparr>) (onChunk f pt u)"
      if u: "ui_ok b0 (r_log r) u" "v_pending u = H_none" "last_row f u"
    proof -
      have "\<not> is_sink (v_pending u)" using u(2) by simp
      note on = onChunk_ok [OF u(1) this u(3)]
      show ?thesis using on(1) [of i l pt] on(2) [of f pt] on(3) [of pt] u(3) cur f p [OF cur]
        by (auto simp: client_ok_def linked_def cur_row_def)
    qed
    then show "client_ok b0 ((r_call (OnChunk f i l pt) r)\<lparr>r_phase := Chunk_handling fr i\<rparr>) (run_output c (Call (OnChunk f i l pt)) u)"
      using ok cur f p [OF cur] by (cases "no_error (r_log r)") (auto simp: calm_ok_def cur_row_def client_ok_def)
  qed simp
  then show ?thesis by (auto simp: chunk_decrypted_def Let_def split: sum.split option.split)
qed

lemma goes_sent:
  assumes "calm_ok b0 r u" "\<And>r1. calm_ok b0 r1 u \<Longrightarrow> r_current r1 = r_current r \<Longrightarrow> goes c b0 u r1 (op r1)"
  shows "goes c b0 u r (op (r_send env r))"
proof -
  have "calm_ok b0 (r_send env r) u"
    using assms(1) by (simp add: calm_ok_def r_send_def ui_ok_sent cur_row_def)
  then have g: "goes c b0 u (r_send env r) (op (r_send env r))" by (rule assms(2)) simp
  show ?thesis
  proof (cases "r_open r")
    case True
    then obtain new where "r_log (op (r_send env r)) = r_log r @ Sent (env_frame env) # new"
      "client_ok b0 (op (r_send env r)) (fold (run_output c) new u)" using g by (auto simp: goes_def r_send_def)
    then show ?thesis by (auto simp: goes_def intro!: exI [of _ "Sent (env_frame env) # new"])
  next
    case False
    then show ?thesis using g by (simp add: r_send_def)
  qed
qed

lemma chunk_handled_goes:
  assumes ok: "calm_ok b0 r u" and p: "\<And>cur. r_current r = Some cur \<Longrightarrow> rf_fileIdHex cur = toHex (cf_fileId fr)"
  shows "goes c b0 u r (chunk_handled fr i r)"
proof -
  let ?f = "toHex (cf_fileId fr)"
  define op where "op r1 = (case r_current r1 of
      None \<Rightarrow> r_fail Type_error r1
    | Some cur \<Rightarrow>
        if cf_isLast fr then r_done (r_call (OnFileComplete ?f) (r1\<lparr>r_current := None\<rparr>))
        else r_done (r1\<lparr>r_current := Some (cur\<lparr>rf_expectedIndex := rf_expectedIndex cur + 1\<rparr>)\<rparr>))" for r1
  have "goes c b0 u r1 (op r1)" if ok1: "calm_ok b0 r1 u" and cur1: "r_current r1 = r_current r" for r1
  proof (cases "r_current r1")
    case (Some cur)
    then have f: "rf_fileIdHex cur = ?f" using p cur1 by simp
    have "goes c b0 u r1 (r_done (r_call (OnFileComplete ?f) (r1\<lparr>r_current := None\<rparr>)))"
    proof (rule goes_call)
      show "client_ok b0 (r_done (r_call (OnFileComplete ?f) (r1\<lparr>r_current := None\<rparr>))) (run_output c (Call (OnFileComplete ?f)) u)"
        using ok1 Some f onFileComplete_ok [of b0 "r_log r1" u ?f]
        by (auto simp: client_ok_calm calm_ok_def cur_row_def)
    qed simp
    moreover have "goes c b0 u r1 (r_done (r1\<lparr>r_current := Some (cur\<lparr>rf_expectedIndex := rf_expectedIndex cur + 1\<rparr>)\<rparr>))"
      by (rule goes_silent) (use ok1 Some in \<open>auto simp: client_ok_calm calm_ok_def cur_row_def\<close>)
    ultimately show ?thesis using Some by (simp add: op_def)
  qed (simp add: op_def)
  then have "goes c b0 u r (op (r_send (Chunk_ack ?f (int i)) r))" by (rule goes_sent [OF ok])
  then show ?thesis by (simp add: chunk_handled_def op_def Let_def)
qed

lemma abort_start_goes:
  assumes ok: "calm_ok b0 r u"
  shows "goes c b0 u r (abort_start payload r)"
proof -
  have "goes c b0 u r (r_done (r_call (OnAborted f reason) (r\<lparr>r_current := None\<rparr>)))" for f reason
  proof (rule goes_call)
    show "client_ok b0 (r_done (r_call (OnAborted f reason) (r\<lparr>r_current := None\<rparr>))) (run_output c (Call (OnAborted f reason)) u)"
      using ok onAborted_ok [of b0 "r_log r" u f reason] by (auto simp: client_ok_calm calm_ok_def cur_row_def)
  qed simp
  then show ?thesis using ok by (auto simp: abort_start_def goes_done split: option.split)
qed

lemma r_start_goes: "calm_ok b0 r u \<Longrightarrow> goes c b0 u r (r_start t r)"
  by (cases t) (simp_all add: meta_start_goes abort_start_goes chunk_start_goes)

lemma drain_goes: "client_ok b0 r u \<Longrightarrow> goes c b0 u r (drain ts r)"
proof (induction ts arbitrary: r u)
  case Nil
  then show ?case by (auto intro!: goes_silent simp: client_ok_cong [of "r\<lparr>r_queue := []\<rparr>" r])
next
  case (Cons t ts)
  show ?case
  proof (cases "r_phase r = Idle")
    case True
    then have "goes c b0 u r (r_start t r)" using Cons.prems by (simp add: client_ok_calm r_start_goes)
    then show ?thesis using True by (auto intro: goes_trans Cons.IH)
  next
    case False
    then show ?thesis using Cons.prems by (auto intro!: goes_silent simp: client_ok_cong [of "r\<lparr>r_queue := t # ts\<rparr>" r])
  qed
qed

subsection \<open>What wakes the receiver\<close>

text \<open>A promise of the receiver's own, and the end of the handler that it awaits.\<close>

lemma crypto_goes:
  assumes ok: "client_ok b0 r u" and r: "r_ok r" and h: "\<not> in_handler (r_phase r)"
  shows "goes c b0 u r (r_resume rc r)"
proof (cases "r_phase r")
  case (Chunk_decrypting fr key)
  then have "rf_fileIdHex cur = toHex (cf_fileId fr)" if "r_current r = Some cur" for cur
    using r that by (simp add: r_ok_def parked_ok_def)
  then show ?thesis using ok h Chunk_decrypting by (simp add: r_resume_def client_ok_calm chunk_decrypted_goes)
qed (use ok h in \<open>simp_all add: r_resume_def client_ok_calm meta_derived_goes meta_decrypted_goes goes_silent\<close>)

lemma handler_calm:
  assumes ok: "client_ok b0 r u" and h: "in_handler (r_phase r)" and fin: "handler_over c env good u = (u', None)"
  shows "calm_ok b0 r u'"
proof (cases "no_error (r_log r)")
  case True
  show ?thesis
  proof (cases "r_phase r")
    case Meta_starting
    then obtain f n m s d where p: "v_pending u = H_sink f n m s d" and cur: "\<And>cur. r_current r = Some cur \<Longrightarrow> rf_fileIdHex cur = f"
      and "ui_ok b0 (r_log r) u" using ok True by (auto simp: client_ok_def linked_def)
    moreover have "u' = sink_created c env u" using fin p by (simp add: handler_over_def)
    moreover from this have "last_row f u'" using sink_created_ok(3-5) [OF \<open>ui_ok b0 (r_log r) u\<close> p, of c env]
      by (auto simp: last_row_def)
    ultimately show ?thesis using sink_created_ok(1,2) by (auto simp: calm_ok_def cur_row_def)
  next
    case (Chunk_handling fr i)
    then obtain k pt where p: "v_pending u = H_write k pt True" and cur: "cur_row r u" and U: "ui_ok b0 (r_log r) u"
      using ok True by (auto simp: client_ok_def linked_def)
    let ?g = "\<lambda>row. row\<lparr>fr_received := fr_received row + length pt\<rparr>"
    have u': "u' = (upd_row k ?g u)\<lparr>v_pending := H_none\<rparr>"
      using fin p by (auto simp: handler_over_def write_over_def split: if_splits)
    have "quiet ?g" by (simp add: quiet_def)
    from upd_row_ok [OF U this] have "ui_ok b0 (r_log r) (upd_row k ?g u)" "\<And>f. last_row f (upd_row k ?g u) = last_row f u" by auto
    then show ?thesis using p cur unfolding u' by (auto simp: calm_ok_def cur_row_def last_row_def intro!: pending_ok)
  qed (use h in simp_all)
qed (simp add: calm_ok_def)

lemma handler_goes:
  assumes ok: "calm_ok b0 r u" and r: "r_ok r" and h: "in_handler (r_phase r)"
  shows "goes c b0 u r (r_resume rc r)"
proof (cases "r_phase r")
  case (Chunk_handling fr i)
  then have "rf_fileIdHex cur = toHex (cf_fileId fr)" if "r_current r = Some cur" for cur
    using r that by (simp add: r_ok_def parked_ok_def)
  then show ?thesis using ok Chunk_handling by (simp add: r_resume_def chunk_handled_goes)
qed (use ok h in \<open>simp_all add: r_resume_def goes_done\<close>)

lemma rejected_goes: "in_handler (r_phase r) \<Longrightarrow> goes c b0 u r (r_rejected e r)"
  by (cases "r_phase r") (simp_all add: r_rejected_def)

text \<open>Abandoning the current file leaves the parked step and what it awaits.\<close>

lemma onClose_goes: "client_ok b0 r u \<Longrightarrow> goes c b0 u r (r_onClose r)"
  by (cases "r_current r") (simp_all add: r_onClose_def goes_silent goes_error [where xs = "[]"])

lemma linked_abandoned:
  assumes "linked r u" "r_phase r' = r_phase r" "r_current r' = None" "v_pending u' = v_pending u"
    "length (v_rows u') = length (v_rows u)"
  shows "linked r' u'"
  using assms by (cases "r_phase r") (auto simp: linked_def cur_row_def)

lemma onAborted_rows: "length (v_rows (onAborted f reason u)) = length (v_rows u)"
  by (simp add: onAborted_def give_up_row_def Let_def split: option.split)

lemma abortCurrent_goes:
  assumes ok: "client_ok b0 r u"
  shows "goes c b0 u r (abortCurrent r)"
proof (cases "r_current r")
  case (Some cur)
  let ?f = "rf_fileIdHex cur"
  let ?out = "(if r_open r then [Sent (env_frame (File_abort ?f None))] else []) @ [Call (OnAborted ?f None)]"
  have log: "r_log (abortCurrent r) = r_log r @ ?out" "r_current (abortCurrent r) = None"
    using Some by (simp_all add: abortCurrent_def r_send_def)
  have out: "fold (run_output c) ?out u = onAborted ?f None u" by simp
  have "client_ok b0 (abortCurrent r) (onAborted ?f None u)"
  proof (cases "no_error (r_log r)")
    case True
    then have u: "ui_ok b0 (r_log r) u" "linked r u" using ok by (simp_all add: client_ok_def)
    have "ui_ok b0 (r_log r @ ?out) (onAborted ?f None u)"
      using onAborted_ok(1) [of b0 "r_log r" u ?f None] onAborted_ok(1) [of b0 "r_log r @ [Sent (env_frame (File_abort ?f None))]" u ?f None] u(1)
      by (simp add: ui_ok_sent)
    moreover have "linked (abortCurrent r) (onAborted ?f None u)"
      by (rule linked_abandoned [OF u(2)]) (simp_all add: log(2) onAborted_ok(2) [OF u(1)] onAborted_rows)
    ultimately show ?thesis by (simp add: client_ok_def log(1))
  next
    case False
    then show ?thesis by (auto simp: client_ok_def log(1) no_error_def)
  qed
  then show ?thesis unfolding goes_def using log(1) out by metis
qed (use ok in \<open>simp add: abortCurrent_def goes_silent\<close>)

subsection \<open>Every reachable state\<close>

definition saving :: "browser \<Rightarrow> rclient \<Rightarrow> bool" where
  "saving b0 x \<longleftrightarrow> receiver_inv (rcl_recv x) \<and> client_ok b0 (rcl_recv x) (rcl_ui x)"

lemma recv_event_saving:
  assumes r: "receiver_inv (rcl_recv x)" and g: "goes c b0 (rcl_ui x) (rcl_recv x) (r_step (uc_recv c) (rcl_recv x) e)"
  shows "saving b0 (recv_event c e x)"
  using g r_step_inv [OF r, of "uc_recv c" e] by (auto simp: saving_def recv_event_def goes_def Let_def)

lemma close_goes:
  assumes "client_ok b0 r u"
  shows "goes c b0 u r (r_step rc r R_close)"
proof -
  have "goes c b0 u r (r\<lparr>r_open := False\<rparr>)"
    by (rule goes_silent) (simp_all add: assms client_ok_cong [of "r\<lparr>r_open := False\<rparr>" r])
  then show ?thesis by (auto simp: Let_def intro: goes_trans onClose_goes)
qed

lemma screen_saving:
  assumes x: "saving b0 x" and u: "\<And>L. ui_ok b0 L (rcl_ui x) \<Longrightarrow> ui_ok b0 L u'"
    and same: "v_pending u' = v_pending (rcl_ui x)" "length (v_rows u') = length (v_rows (rcl_ui x))"
      "\<And>f L. ui_ok b0 L (rcl_ui x) \<Longrightarrow> last_row f u' = last_row f (rcl_ui x)"
  shows "saving b0 (x\<lparr>rcl_ui := u'\<rparr>)"
proof -
  have "client_ok b0 (rcl_recv x) u'"
    using x u same by (cases "r_phase (rcl_recv x)") (auto simp: saving_def client_ok_def linked_def cur_row_def)
  then show ?thesis using x by (simp add: saving_def)
qed

lemma close_over_frame:
  "length (v_rows (close_over k good u)) = length (v_rows u)" "v_pending (close_over k good u) = v_pending u"
  by (simp_all add: close_over_def Let_def)

lemma rcl_step_saving:
  assumes x: "saving b0 x"
  shows "saving b0 (rcl_step c x e)"
proof -
  let ?r = "rcl_recv x" and ?u = "rcl_ui x"
  have r: "receiver_inv ?r" "r_ok ?r" and ok: "client_ok b0 ?r ?u" using x by (auto simp: saving_def receiver_inv_def)
  show ?thesis
  proof (cases e)
    case (Net_frame fr)
    have "goes c b0 ?u ?r ?r" using ok by (simp add: goes_silent)
    then have "goes c b0 ?u ?r (r_step (uc_recv c) ?r (R_frame fr))" using ok by (simp add: drain_goes)
    then show ?thesis unfolding Net_frame rcl_step.simps by (rule recv_event_saving [OF r(1)])
  next
    case Crypto_settles
    show ?thesis
    proof (cases "in_handler (r_phase ?r)")
      case False
      have "goes c b0 ?u ?r (drain (r_queue ?r) (r_resume (uc_recv c) ?r))"
        by (rule goes_trans [OF crypto_goes [OF ok r(2) False]]) (rule drain_goes)
      then have "saving b0 (recv_event c R_settle x)" by (intro recv_event_saving [OF r(1)]) simp
      then show ?thesis using Crypto_settles False by simp
    qed (simp add: Crypto_settles x)
  next
    case (Handler_settles env good)
    show ?thesis
    proof (cases "in_handler (r_phase ?r)")
      case True
      obtain u' res where h: "handler_over c env good ?u = (u', res)" by (cases "handler_over c env good ?u")
      show ?thesis
      proof (cases res)
        case None
        have "calm_ok b0 ?r u'" using handler_calm [OF ok True] h None by simp
        from goes_trans [OF handler_goes [OF this r(2) True] drain_goes]
        have "goes c b0 u' ?r (r_step (uc_recv c) ?r R_settle)" by simp
        then show ?thesis using Handler_settles True h None recv_event_saving [of "x\<lparr>rcl_ui := u'\<rparr>" c b0 R_settle] r(1)
          by (simp add: handler_settles_def)
      next
        case (Some err)
        from goes_trans [OF rejected_goes [OF True] drain_goes]
        have "goes c b0 u' ?r (r_step (uc_recv c) ?r (R_reject err))" by simp
        then show ?thesis using Handler_settles True h Some recv_event_saving [of "x\<lparr>rcl_ui := u'\<rparr>" c b0 "R_reject err"] r(1)
          by (simp add: handler_settles_def)
      qed
    qed (simp add: Handler_settles x)
  next
    case Net_closes
    show ?thesis unfolding Net_closes rcl_step.simps by (rule recv_event_saving [OF r(1) close_goes [OF ok]])
  next
    case (Cancel_click k)
    let ?u' = "upd_row k (\<lambda>row. row\<lparr>fr_armed := False\<rparr>) ?u"
    have "quiet (\<lambda>row. row\<lparr>fr_armed := False\<rparr>)" by (simp add: quiet_def)
    note q = upd_row_ok [OF _ this]
    have "saving b0 (x\<lparr>rcl_ui := ?u'\<rparr>)" by (rule screen_saving [OF x]) (auto simp: q)
    then have "client_ok b0 ?r ?u'" by (simp add: saving_def)
    then show ?thesis using Cancel_click x r(1) abortCurrent_goes [of b0 ?r ?u' c]
        recv_event_saving [of "x\<lparr>rcl_ui := ?u'\<rparr>" c b0 R_abortCurrent] by simp
  next
    case Detach
    have "goes c b0 ?u ?r (r_step (uc_recv c) ?r R_detach)"
      by (rule goes_silent) (simp_all add: ok client_ok_cong [of "?r\<lparr>r_attached := False\<rparr>" ?r])
    then show ?thesis unfolding Detach rcl_step.simps by (rule recv_event_saving [OF r(1)])
  next
    case (Folder_picked d)
    have "saving b0 (x\<lparr>rcl_ui := folder_chosen d ?u\<rparr>)"
      by (rule screen_saving [OF x]) (auto simp: folder_chosen_def last_row_def intro: ui_ok_text split: option.split)
    then show ?thesis using Folder_picked by simp
  next
    case (Sink_closed k good)
    have "saving b0 (x\<lparr>rcl_ui := close_over k good ?u\<rparr>)"
      by (rule screen_saving [OF x]) (simp_all add: close_over_ok close_over_frame)
    then show ?thesis using Sink_closed by simp
  qed
qed

lemma saving_init: "saving b (rcl_init b)"
  using r_init_inv by (simp add: saving_def rcl_init_def client_ok_calm r_init_def calm_ok_def rui_init_def ui_ok_def rows_ok_def
      closings_ok_def saved_from_def given_files_def tally_def completed_files_def cur_row_def)

interpretation saving_client: event_machine "\<lambda>_. True" "\<lambda>(c, b). rcl_init b" "\<lambda>(c, b). rcl_step c" "\<lambda>(c, b). saving b"
  by unfold_locales (auto simp: saving_init rcl_step_saving)

text \<open>C6. No partial file. Whatever frames arrive, in whatever order the user and the network act, and however
  the disk fails: as long as the receiver has reported no error, everything the screen saved is whole. A
  download is all the bytes the receiver decrypted of a file that was completed, and a file on the disk is
  such a file, is as it was before the page ran, or is the empty file that a new one starts from.\<close>

theorem saved_files_whole:
  assumes "\<forall>e. Call (OnError e) \<notin> set (r_log (rcl_recv (run (rcl_step c) (rcl_init b) evs)))"
  shows "let x = run (rcl_step c) (rcl_init b) evs; complete = snd ` set (completed_files (r_log (rcl_recv x)))
    in (\<exists>ds. b_downloads (v_browser (rcl_ui x)) = b_downloads b @ ds \<and> (\<forall>d \<in> set ds. snd (snd d) \<in> complete)) \<and>
       (\<forall>l. b_files (v_browser (rcl_ui x)) l \<in> {b_files b l, Some []} \<union> Some ` complete)"
  using assms saving_client.reach_inv [of "(c, b)" evs]
  by (simp add: saving_def client_ok_def no_error_def ui_ok_def saved_from_def)

text \<open>A run that completes a file.\<close>

definition demo_evs :: "rcl_event list" where
  "demo_evs = Folder_picked (Some 7) #
     rcl_file_events one_chunk \<lparr>se_dir = Writable, se_hasPicker = False, se_picked = None\<rparr> 1 @ [Sink_closed 0 True]"

lemma demo_log: "r_log (rcl_recv (run (rcl_step demo_screen) (rcl_init browser_init) demo_evs)) =
   [Call (file_start one_chunk)] @ chunk_outs one_chunk 0 @ [Call (OnFileComplete (fileIdHex one_chunk))]"
proof -
  have "good_ctx one_chunk" "uc_recv demo_screen = rctx one_chunk" "total one_chunk \<le> 2 ^ 64"
    using one_chunk_ctx by (simp_all add: good_ctx_def demo_screen_def)
  from whole_file_run [OF this, of browser_init "Some 7" "\<lparr>se_dir = Writable, se_hasPicker = False, se_picked = None\<rparr>"]
  show ?thesis unfolding demo_evs_def total_one_chunk by (elim exE conjE) simp
qed

theorem saved_files_whole_witness:
  "let x = run (rcl_step demo_screen) (rcl_init browser_init) demo_evs
   in \<forall>l. b_files (v_browser (rcl_ui x)) l \<in> {b_files browser_init l, Some []} \<union>
        Some ` snd ` set (completed_files (r_log (rcl_recv x)))"
proof -
  have "\<forall>e. Call (OnError e) \<notin> set (r_log (rcl_recv (run (rcl_step demo_screen) (rcl_init browser_init) demo_evs)))"
    unfolding demo_log by (simp add: file_start_def chunk_outs_def chunk_call_def ack_out_def)
  from saved_files_whole [OF this] show ?thesis by (simp only: Let_def) blast
qed

subsection \<open>After an error\<close>

text \<open>\<open>onError\<close> empties the sink of the file under way and closes its row, but a frame that is out of order
  (one a relay repeats) leaves the receiver's \<open>current\<close>, so the transfer goes on: its chunks are still
  acknowledged though \<open>onChunk\<close> drops them, and at its end \<open>onFileComplete\<close>, which does not test
  \<open>done\<close>, downloads an empty file and calls it downloaded.\<close>

theorem completed_after_error_saves_empty:
  assumes row: "v_rows u = [row]" "v_byId u f = Some 0" "fr_id row = f" "\<not> fr_done row" "fr_sink row = Blob_sink n m parts None"
    and "v_closing u = []" "m \<noteq> []"
  shows "let u1 = onError u; u2 = onChunk f pt u1; u3 = close_over 0 True (onFileComplete f (u2\<lparr>v_pending := H_none\<rparr>))
    in v_rows u2 = v_rows u1 \<and> v_pending u2 = H_return \<and>
       b_downloads (v_browser u3) = b_downloads (v_browser u) @ [(n, m, [])] \<and>
       fr_status (v_rows u3 ! 0) = Some ''transferDownloaded''"
    and "parseChunkFrame buffer = Some fr \<Longrightarrow> r_current r = Some cur \<Longrightarrow> cf_index fr \<noteq> int (rf_expectedIndex cur) \<Longrightarrow>
      r_current (chunk_start buffer r) = Some cur \<and> r_log (chunk_start buffer r) = r_log r @ [Call (OnError out_of_order)]"
proof -
  have "onError u = (u\<lparr>v_receiving := False, v_status := ''transferError'',
      v_rows := [row\<lparr>fr_done := True, fr_cancelHidden := True, fr_status := Some ''transferError'', fr_sink := Blob_sink n m [] None\<rparr>]\<rparr>)"
    using row by (cases u) (simp add: onError_def fail_row_def give_up_row_def upd_row_def sink_defs Let_def)
  then show "let u1 = onError u; u2 = onChunk f pt u1; u3 = close_over 0 True (onFileComplete f (u2\<lparr>v_pending := H_none\<rparr>))
    in v_rows u2 = v_rows u1 \<and> v_pending u2 = H_return \<and>
       b_downloads (v_browser u3) = b_downloads (v_browser u) @ [(n, m, [])] \<and>
       fr_status (v_rows u3 ! 0) = Some ''transferDownloaded''"
    using row assms(6,7)
    by (simp add: onChunk_def onFileComplete_def close_over_def upd_row_def sink_defs Let_def)
qed (simp add: chunk_start_def)

text \<open>A write that fails is shown to the receiving user, but nothing is sent: the chunk is never
  acknowledged, and the sender, who is not told, waits for it.\<close>

theorem failed_write_not_reported:
  assumes "r_phase r = Chunk_handling fr i" "r_queue r = []"
  shows "let r' = r_step rc r (R_reject e)
    in r_log r' = r_log r @ [Call (OnError e)] \<and> r_current r' = r_current r \<and> r_phase r' = Idle"
  using assms by (simp add: r_rejected_def)

end
