(* ===== verification/Strings.thy ===== *)
theory Strings
  imports Prelude
begin

section \<open>Texts of the user interface (web/strings.js and t of web/i18n.js)\<close>

text \<open>
  The two dictionaries, each text as its UTF-8 bytes, and the lookup of a key. A key that a
  dictionary lacks is shown itself, so that a key that is misspelt or was forgotten in one
  language shows up only on the screen that uses it; \<open>translated\<close> says that this does not happen.
\<close>

definition pl_strings :: "(string \<times> string) list" where
  "pl_strings =
    [(''langGroupLabel'', ''J'' @ [CHR 0xC4, CHR 0x99] @ ''zyk''),
     (''themeGroupLabel'', ''Motyw''),
     (''langAuto'', ''Auto''),
     (''langPl'', ''PL''),
     (''langEn'', ''EN''),
     (''themeSystem'', ''System''),
     (''themeLight'', ''Jasny''),
     (''themeDark'', ''Ciemny''),
     (''appTagline'', ''Wy'' @ [CHR 0xC5, CHR 0x9B] @ ''lij plik na inne urz'' @ [CHR 0xC4, CHR 0x85] @ ''dzenie w kilka sekund.''),
     (''startReceive'', [CHR 0xF0, CHR 0x9F, CHR 0x93, CHR 0xA5] @ '' Odbierz''),
     (''startSend'', [CHR 0xF0, CHR 0x9F, CHR 0x93, CHR 0xA4] @ '' Wy'' @ [CHR 0xC5, CHR 0x9B] @ ''lij''),
     (''remoteCodeLink'', ''Zdalnie? Sparuj kodem zamiast QR''),
     (''codeRoleChooseTitle'', ''Parowanie zdalne kodem''),
     (''roleReceive'', ''Odbierz''),
     (''roleSend'', ''Wy'' @ [CHR 0xC5, CHR 0x9B] @ ''lij''),
     (''backButton'', ''Wstecz''),
     (''receiverGenerating'', ''Generowanie sesji'' @ [CHR 0xE2, CHR 0x80, CHR 0xA6]),
     (''receiverWaiting'', ''Zeskanuj ten kod na drugim urz'' @ [CHR 0xC4, CHR 0x85] @ ''dzeniu''),
     (''receiverLinkLabel'', ''Lub wklej ten link na drugim urz'' @ [CHR 0xC4, CHR 0x85] @ ''dzeniu:''),
     (''shareSecurityWarning'', ''Ka'' @ [CHR 0xC5, CHR 0xBC] @ ''dy, kto ma ten link lub kod QR, mo'' @ [CHR 0xC5, CHR 0xBC] @ ''e do'' @ [CHR 0xC5, CHR 0x82, CHR 0xC4, CHR 0x85] @ ''czy'' @ [CHR 0xC4, CHR 0x87] @ '' do tego transferu. Udost'' @ [CHR 0xC4, CHR 0x99] @ ''pnij go tylko osobie, do kt'' @ [CHR 0xC3, CHR 0xB3] @ ''rej wysy'' @ [CHR 0xC5, CHR 0x82] @ ''asz plik.''),
     (''shareButton'', ''Udost'' @ [CHR 0xC4, CHR 0x99] @ ''pnij''),
     (''shareCopied'', ''Skopiowano do schowka''),
     (''shareCopyManually'', ''Zaznacz i skopiuj powy'' @ [CHR 0xC5, CHR 0xBC] @ ''szy tekst r'' @ [CHR 0xC4, CHR 0x99] @ ''cznie''),
     (''copyCodeButton'', ''Kopiuj kod''),
     (''pasteLinkInsteadButton'', ''Nie mo'' @ [CHR 0xC5, CHR 0xBC] @ ''esz zeskanowa'' @ [CHR 0xC4, CHR 0x87] @ ''? Wklej link r'' @ [CHR 0xC4, CHR 0x99] @ ''cznie''),
     (''senderPasteLabel'', ''Wklej link z drugiego urz'' @ [CHR 0xC4, CHR 0x85] @ ''dzenia''),
     (''senderPasteButton'', ''Do'' @ [CHR 0xC5, CHR 0x82, CHR 0xC4, CHR 0x85] @ ''cz''),
     (''senderScanHint'', ''Wyceluj kamer'' @ [CHR 0xC4, CHR 0x85] @ '' w kod QR''),
     (''senderCameraError'', ''Brak dost'' @ [CHR 0xC4, CHR 0x99] @ ''pu do kamery. U'' @ [CHR 0xC5, CHR 0xBC] @ ''yj wklejania linku.''),
     (''senderPasteInvalid'', ''To nie wygl'' @ [CHR 0xC4, CHR 0x85] @ ''da na poprawny link Quicksend.''),
     (''joinDetectedTitle'', ''Wykryto sesj'' @ [CHR 0xC4, CHR 0x99] @ '' parowania''),
     (''joinDetectedButton'', ''Do'' @ [CHR 0xC5, CHR 0x82, CHR 0xC4, CHR 0x85] @ ''cz do sesji''),
     (''joinDetectedCancel'', ''Anuluj''),
     (''codeReceiverWaiting'', ''Podaj ten kod drugiej osobie (dowolnym kana'' @ [CHR 0xC5, CHR 0x82] @ ''em)''),
     (''codeExpiryNote'', ''Kod jest wa'' @ [CHR 0xC5, CHR 0xBC] @ ''ny 5 minut i mo'' @ [CHR 0xC5, CHR 0xBC] @ ''na go u'' @ [CHR 0xC5, CHR 0xBC] @ ''y'' @ [CHR 0xC4, CHR 0x87] @ '' tylko raz.''),
     (''codeSenderLabel'', ''Wpisz kod otrzymany od drugiej osoby''),
     (''statusConnecting'', [CHR 0xC5, CHR 0x81, CHR 0xC4, CHR 0x85] @ ''czenie'' @ [CHR 0xE2, CHR 0x80, CHR 0xA6]),
     (''statusJoining'', ''Do'' @ [CHR 0xC5, CHR 0x82, CHR 0xC4, CHR 0x85] @ ''czanie'' @ [CHR 0xE2, CHR 0x80, CHR 0xA6]),
     (''statusVerifying'', ''Weryfikowanie kodu'' @ [CHR 0xE2, CHR 0x80, CHR 0xA6]),
     (''statusPaired'', ''Sparowano!''),
     (''statusPairedHost'', ''Sparowano! Drugie urz'' @ [CHR 0xC4, CHR 0x85] @ ''dzenie do'' @ [CHR 0xC5, CHR 0x82, CHR 0xC4, CHR 0x85] @ ''czy'' @ [CHR 0xC5, CHR 0x82] @ ''o.''),
     (''statusPairedGuest'', ''Sparowano z drugim urz'' @ [CHR 0xC4, CHR 0x85] @ ''dzeniem.''),
     (''errSessionNotFound'', ''Nie znaleziono sesji. Link mo'' @ [CHR 0xC5, CHR 0xBC] @ ''e by'' @ [CHR 0xC4, CHR 0x87] @ '' nieaktualny.''),
     (''errSessionFull'', ''Ta sesja ma ju'' @ [CHR 0xC5, CHR 0xBC] @ '' dwoje uczestnik'' @ [CHR 0xC3, CHR 0xB3] @ ''w.''),
     (''errTooManySessions'', ''Zbyt wiele aktywnych sesji z tego urz'' @ [CHR 0xC4, CHR 0x85] @ ''dzenia.''),
     (''errInvalidCode'', ''Nieprawid'' @ [CHR 0xC5, CHR 0x82] @ ''owy lub wygas'' @ [CHR 0xC5, CHR 0x82] @ ''y kod.''),
     (''errTooManyAttempts'', ''Zbyt wiele pr'' @ [CHR 0xC3, CHR 0xB3] @ ''b. Poczekaj chwil'' @ [CHR 0xC4, CHR 0x99] @ '' i spr'' @ [CHR 0xC3, CHR 0xB3] @ ''buj ponownie.''),
     (''errCodeMismatch'', ''Kod si'' @ [CHR 0xC4, CHR 0x99] @ '' nie zgadza po obu stronach. Spr'' @ [CHR 0xC3, CHR 0xB3] @ ''bujcie ponownie z nowym kodem.''),
     (''errConnectionLost'', ''Utracono po'' @ [CHR 0xC5, CHR 0x82, CHR 0xC4, CHR 0x85] @ ''czenie i nie uda'' @ [CHR 0xC5, CHR 0x82] @ ''o si'' @ [CHR 0xC4, CHR 0x99] @ '' go wznowi'' @ [CHR 0xC4, CHR 0x87] @ ''.''),
     (''errSessionEnded'', ''Sesja zako'' @ [CHR 0xC5, CHR 0x84] @ ''czona '' @ [CHR 0xE2, CHR 0x80, CHR 0x94] @ '' drugie urz'' @ [CHR 0xC4, CHR 0x85] @ ''dzenie nie wr'' @ [CHR 0xC3, CHR 0xB3] @ ''ci'' @ [CHR 0xC5, CHR 0x82] @ ''o na czas.''),
     (''errEndedByPeer'', ''Druga strona zako'' @ [CHR 0xC5, CHR 0x84] @ ''czy'' @ [CHR 0xC5, CHR 0x82] @ ''a sesj'' @ [CHR 0xC4, CHR 0x99] @ ''.''),
     (''errInactivityTimeout'', ''Sesja zako'' @ [CHR 0xC5, CHR 0x84] @ ''czona z powodu braku aktywno'' @ [CHR 0xC5, CHR 0x9B] @ ''ci.''),
     (''errGeneric'', ''Co'' @ [CHR 0xC5, CHR 0x9B] @ '' posz'' @ [CHR 0xC5, CHR 0x82] @ ''o nie tak. Spr'' @ [CHR 0xC3, CHR 0xB3] @ ''buj ponownie.''),
     (''tryAgain'', ''Spr'' @ [CHR 0xC3, CHR 0xB3] @ ''buj ponownie''),
     (''insecureContextTitle'', ''Brak bezpiecznego po'' @ [CHR 0xC5, CHR 0x82, CHR 0xC4, CHR 0x85] @ ''czenia''),
     (''insecureContextBody'', ''Ta strona jest otwarta pod zwyk'' @ [CHR 0xC5, CHR 0x82] @ ''ym http:// pod adresem innym ni'' @ [CHR 0xC5, CHR 0xBC] @ '' localhost, wi'' @ [CHR 0xC4, CHR 0x99] @ ''c przegl'' @ [CHR 0xC4, CHR 0x85] @ ''darka blokuje szyfrowanie (Web Crypto), kt'' @ [CHR 0xC3, CHR 0xB3] @ ''rego Quicksend wymaga do parowania i przesy'' @ [CHR 0xC5, CHR 0x82] @ ''ania plik'' @ [CHR 0xC3, CHR 0xB3] @ ''w. Otw'' @ [CHR 0xC3, CHR 0xB3] @ ''rz stron'' @ [CHR 0xC4, CHR 0x99] @ '' przez HTTPS '' @ [CHR 0xE2, CHR 0x80, CHR 0x94] @ '' np. uruchamiaj'' @ [CHR 0xC4, CHR 0x85] @ ''c docker-compose.yml z Caddy jako reverse proxy (ustaw QUICKSEND_DOMAIN na adres IP tego urz'' @ [CHR 0xC4, CHR 0x85] @ ''dzenia w sieci lokalnej i zaakceptuj ostrze'' @ [CHR 0xC5, CHR 0xBC] @ ''enie o certyfikacie na ka'' @ [CHR 0xC5, CHR 0xBC] @ ''dym urz'' @ [CHR 0xC4, CHR 0x85] @ ''dzeniu) '' @ [CHR 0xE2, CHR 0x80, CHR 0x94] @ '' albo testuj wy'' @ [CHR 0xC5, CHR 0x82, CHR 0xC4, CHR 0x85] @ ''cznie przez localhost.''),
     (''reconnecting'', ''Po'' @ [CHR 0xC5, CHR 0x82, CHR 0xC4, CHR 0x85] @ ''czenie przerwane, pr'' @ [CHR 0xC3, CHR 0xB3] @ ''ba wznowienia'' @ [CHR 0xE2, CHR 0x80, CHR 0xA6]),
     (''swapRolesButton'', ''Zamie'' @ [CHR 0xC5, CHR 0x84] @ '' si'' @ [CHR 0xC4, CHR 0x99] @ '' rolami''),
     (''swapRequesting'', ''Czekam na zgod'' @ [CHR 0xC4, CHR 0x99] @ '' drugiej strony'' @ [CHR 0xE2, CHR 0x80, CHR 0xA6]),
     (''swapRejected'', ''Druga strona odrzuci'' @ [CHR 0xC5, CHR 0x82] @ ''a zamian'' @ [CHR 0xC4, CHR 0x99] @ '' (trwa transfer). Spr'' @ [CHR 0xC3, CHR 0xB3] @ ''buj ponownie za chwil'' @ [CHR 0xC4, CHR 0x99] @ ''.''),
     (''swapBusyLocal'', ''Zaczekaj, a'' @ [CHR 0xC5, CHR 0xBC] @ '' bie'' @ [CHR 0xC5, CHR 0xBC, CHR 0xC4, CHR 0x85] @ ''cy transfer si'' @ [CHR 0xC4, CHR 0x99] @ '' zako'' @ [CHR 0xC5, CHR 0x84] @ ''czy.''),
     (''swapTimedOut'', ''Brak odpowiedzi. Spr'' @ [CHR 0xC3, CHR 0xB3] @ ''buj ponownie.''),
     (''disconnectButton'', ''Roz'' @ [CHR 0xC5, CHR 0x82, CHR 0xC4, CHR 0x85] @ ''cz''),
     (''transferSenderHint'', ''Wybierz pliki do wys'' @ [CHR 0xC5, CHR 0x82] @ ''ania''),
     (''dropHint'', ''albo przeci'' @ [CHR 0xC4, CHR 0x85] @ ''gnij i upu'' @ [CHR 0xC5, CHR 0x9B, CHR 0xC4, CHR 0x87] @ '' pliki tutaj''),
     (''transferWaitingForFiles'', ''Czekam na pliki'' @ [CHR 0xE2, CHR 0x80, CHR 0xA6]),
     (''chooseSaveFolderButton'', ''Wybierz folder zapisu''),
     (''changeSaveFolderButton'', ''Zmie'' @ [CHR 0xC5, CHR 0x84] @ '' folder zapisu''),
     (''saveFolderChosenPrefix'', ''Pliki b'' @ [CHR 0xC4, CHR 0x99] @ ''d'' @ [CHR 0xC4, CHR 0x85] @ '' zapisywane w folderze''),
     (''transferReceivingFiles'', ''Odbieranie plik'' @ [CHR 0xC3, CHR 0xB3] @ ''w'' @ [CHR 0xE2, CHR 0x80, CHR 0xA6]),
     (''transferSending'', ''Wysy'' @ [CHR 0xC5, CHR 0x82] @ ''anie'' @ [CHR 0xE2, CHR 0x80, CHR 0xA6]),
     (''transferSent'', ''Wys'' @ [CHR 0xC5, CHR 0x82] @ ''ano''),
     (''transferSavedToDisk'', ''Zapisano na dysku''),
     (''transferDownloaded'', ''Pobrano''),
     (''openFileLink'', ''Otw'' @ [CHR 0xC3, CHR 0xB3] @ ''rz''),
     (''transferError'', ''B'' @ [CHR 0xC5, CHR 0x82, CHR 0xC4, CHR 0x85] @ ''d transferu''),
     (''transferCanceled'', ''Anulowano''),
     (''transferTooLarge'', ''Plik zbyt du'' @ [CHR 0xC5, CHR 0xBC] @ ''y '' @ [CHR 0xE2, CHR 0x80, CHR 0x94] @ '' przekroczono limit rozmiaru''),
     (''transferLargeFileWarning'', ''Du'' @ [CHR 0xC5, CHR 0xBC] @ ''y plik bez wsparcia zapisu na dysk '' @ [CHR 0xE2, CHR 0x80, CHR 0x94] @ '' mo'' @ [CHR 0xC5, CHR 0xBC] @ ''e zu'' @ [CHR 0xC5, CHR 0xBC] @ ''y'' @ [CHR 0xC4, CHR 0x87] @ '' du'' @ [CHR 0xC5, CHR 0xBC] @ ''o pami'' @ [CHR 0xC4, CHR 0x99] @ ''ci przegl'' @ [CHR 0xC4, CHR 0x85] @ ''darki.''),
     (''cancelButton'', ''Anuluj'')]"

definition en_strings :: "(string \<times> string) list" where
  "en_strings =
    [(''langGroupLabel'', ''Language''),
     (''themeGroupLabel'', ''Theme''),
     (''langAuto'', ''Auto''),
     (''langPl'', ''PL''),
     (''langEn'', ''EN''),
     (''themeSystem'', ''System''),
     (''themeLight'', ''Light''),
     (''themeDark'', ''Dark''),
     (''appTagline'', ''Send a file to another device in seconds.''),
     (''startReceive'', [CHR 0xF0, CHR 0x9F, CHR 0x93, CHR 0xA5] @ '' Receive''),
     (''startSend'', [CHR 0xF0, CHR 0x9F, CHR 0x93, CHR 0xA4] @ '' Send''),
     (''remoteCodeLink'', ''Remote? Pair with a code instead of QR''),
     (''codeRoleChooseTitle'', ''Remote pairing by code''),
     (''roleReceive'', ''Receive''),
     (''roleSend'', ''Send''),
     (''backButton'', ''Back''),
     (''receiverGenerating'', ''Generating session'' @ [CHR 0xE2, CHR 0x80, CHR 0xA6]),
     (''receiverWaiting'', ''Scan this code on the other device''),
     (''receiverLinkLabel'', ''Or paste this link on the other device:''),
     (''shareSecurityWarning'', ''Anyone with this link or QR code can join this transfer. Only share it with the person you'' @ [CHR 0x27] @ ''re sending the file to.''),
     (''shareButton'', ''Share''),
     (''shareCopied'', ''Copied to clipboard''),
     (''shareCopyManually'', ''Select and copy the text above manually''),
     (''copyCodeButton'', ''Copy code''),
     (''pasteLinkInsteadButton'', ''Can'' @ [CHR 0x27] @ ''t scan? Paste link manually''),
     (''senderPasteLabel'', ''Paste the link from the other device''),
     (''senderPasteButton'', ''Join''),
     (''senderScanHint'', ''Point your camera at the QR code''),
     (''senderCameraError'', ''Camera access unavailable. Use paste instead.''),
     (''senderPasteInvalid'', ''That doesn'' @ [CHR 0x27] @ ''t look like a valid Quicksend link.''),
     (''joinDetectedTitle'', ''Pairing session detected''),
     (''joinDetectedButton'', ''Join session''),
     (''joinDetectedCancel'', ''Cancel''),
     (''codeReceiverWaiting'', ''Give this code to the other person (any channel)''),
     (''codeExpiryNote'', ''The code is valid for 5 minutes and can only be used once.''),
     (''codeSenderLabel'', ''Enter the code you got from the other person''),
     (''statusConnecting'', ''Connecting'' @ [CHR 0xE2, CHR 0x80, CHR 0xA6]),
     (''statusJoining'', ''Joining'' @ [CHR 0xE2, CHR 0x80, CHR 0xA6]),
     (''statusVerifying'', ''Verifying code'' @ [CHR 0xE2, CHR 0x80, CHR 0xA6]),
     (''statusPaired'', ''Paired!''),
     (''statusPairedHost'', ''Paired! The other device has joined.''),
     (''statusPairedGuest'', ''Paired with the other device.''),
     (''errSessionNotFound'', ''Session not found. The link may be stale.''),
     (''errSessionFull'', ''This session already has two participants.''),
     (''errTooManySessions'', ''Too many active sessions from this device.''),
     (''errInvalidCode'', ''Invalid or expired code.''),
     (''errTooManyAttempts'', ''Too many attempts. Wait a bit and try again.''),
     (''errCodeMismatch'', ''The code didn'' @ [CHR 0x27] @ ''t match on both sides. Try again with a new code.''),
     (''errConnectionLost'', ''Connection lost and couldn'' @ [CHR 0x27] @ ''t be resumed.''),
     (''errSessionEnded'', ''Session ended '' @ [CHR 0xE2, CHR 0x80, CHR 0x94] @ '' the other device didn'' @ [CHR 0x27] @ ''t come back in time.''),
     (''errEndedByPeer'', ''The other device ended the session.''),
     (''errInactivityTimeout'', ''Session ended due to inactivity.''),
     (''errGeneric'', ''Something went wrong. Please try again.''),
     (''tryAgain'', ''Try again''),
     (''insecureContextTitle'', ''No secure connection''),
     (''insecureContextBody'', ''This page is open over plain http:// at an address other than localhost, so the browser blocks the encryption (Web Crypto) Quicksend needs for pairing and file transfer. Open it over HTTPS instead '' @ [CHR 0xE2, CHR 0x80, CHR 0x94] @ '' e.g. run docker-compose.yml with Caddy as a reverse proxy (set QUICKSEND_DOMAIN to this device'' @ [CHR 0x27] @ ''s LAN IP and accept the certificate warning on each device) '' @ [CHR 0xE2, CHR 0x80, CHR 0x94] @ '' or test over localhost only.''),
     (''reconnecting'', ''Connection lost, trying to reconnect'' @ [CHR 0xE2, CHR 0x80, CHR 0xA6]),
     (''swapRolesButton'', ''Swap roles''),
     (''swapRequesting'', ''Waiting for the other side to agree'' @ [CHR 0xE2, CHR 0x80, CHR 0xA6]),
     (''swapRejected'', ''The other side declined (a transfer is in progress). Try again shortly.''),
     (''swapBusyLocal'', ''Wait for the current transfer to finish first.''),
     (''swapTimedOut'', ''No response. Try again.''),
     (''disconnectButton'', ''Disconnect''),
     (''transferSenderHint'', ''Choose files to send''),
     (''dropHint'', ''or drag and drop files here''),
     (''transferWaitingForFiles'', ''Waiting for files'' @ [CHR 0xE2, CHR 0x80, CHR 0xA6]),
     (''chooseSaveFolderButton'', ''Choose save folder''),
     (''changeSaveFolderButton'', ''Change save folder''),
     (''saveFolderChosenPrefix'', ''Files will be saved to''),
     (''transferReceivingFiles'', ''Receiving files'' @ [CHR 0xE2, CHR 0x80, CHR 0xA6]),
     (''transferSending'', ''Sending'' @ [CHR 0xE2, CHR 0x80, CHR 0xA6]),
     (''transferSent'', ''Sent''),
     (''transferSavedToDisk'', ''Saved to disk''),
     (''transferDownloaded'', ''Downloaded''),
     (''openFileLink'', ''Open''),
     (''transferError'', ''Transfer error''),
     (''transferCanceled'', ''Canceled''),
     (''transferTooLarge'', ''File too large '' @ [CHR 0xE2, CHR 0x80, CHR 0x94] @ '' exceeded the size limit''),
     (''transferLargeFileWarning'', ''Large file without disk-write support '' @ [CHR 0xE2, CHR 0x80, CHR 0x94] @ '' may use a lot of browser memory.''),
     (''cancelButton'', ''Cancel'')]"

definition DEFAULT_LOCALE :: string where
  "DEFAULT_LOCALE = ''en''"

text \<open>\<open>STRINGS[locale]\<close>.\<close>

definition STRINGS :: "string \<Rightarrow> (string \<times> string) list option" where
  "STRINGS locale = (if locale = ''pl'' then Some pl_strings else if locale = ''en'' then Some en_strings else None)"

text \<open>\<open>dict\<close> of \<open>t\<close> and of \<open>applyTranslations\<close>.\<close>

definition dictionary :: "string \<Rightarrow> (string \<times> string) list" where
  "dictionary locale = (case STRINGS locale of Some d \<Rightarrow> d
     | None \<Rightarrow> (case STRINGS DEFAULT_LOCALE of Some d \<Rightarrow> d | None \<Rightarrow> []))"

definition translate :: "string \<Rightarrow> string \<Rightarrow> string" where
  "translate locale key = (case map_of (dictionary locale) key of Some s \<Rightarrow> s | None \<Rightarrow> key)"

text \<open>\<open>detectLocale\<close>, on the list of languages that the browser gives: the first of them that starts
  with a language of the page, or the default. \<open>toLowerCase\<close> on the letters that matter.\<close>

definition lower :: "char \<Rightarrow> char" where
  "lower c = (let n = of_char c :: nat in if 65 \<le> n \<and> n \<le> 90 then char_of (n + 32) else c)"

fun first_locale :: "string list \<Rightarrow> string" where
  "first_locale [] = DEFAULT_LOCALE"
| "first_locale (l # ls) =
     (let base = take 2 (map lower l)
      in if base = ''pl'' then ''pl'' else if base = ''en'' then ''en'' else first_locale ls)"

definition detectLocale :: "string list option \<Rightarrow> string option \<Rightarrow> string" where
  "detectLocale languages language =
     first_locale (case languages of
       Some (l # ls) \<Rightarrow> l # ls
     | _ \<Rightarrow> [case language of Some s \<Rightarrow> if s = [] then DEFAULT_LOCALE else s | None \<Rightarrow> DEFAULT_LOCALE])"

lemma detectLocale_range: "detectLocale languages language \<in> {''pl'', ''en''}"
proof -
  have "first_locale ls \<in> {''pl'', ''en''}" for ls
    by (induction ls) (simp_all add: DEFAULT_LOCALE_def Let_def)
  then show ?thesis unfolding detectLocale_def by blast
qed

subsection \<open>Keys that have a text\<close>

definition translated :: "string \<Rightarrow> bool" where
  "translated key \<longleftrightarrow> (case map_of pl_strings key of Some s \<Rightarrow> s \<noteq> [] | None \<Rightarrow> False) \<and>
     (case map_of en_strings key of Some s \<Rightarrow> s \<noteq> [] | None \<Rightarrow> False)"

lemma translated_text:
  assumes "translated key" "locale \<in> {''pl'', ''en''}"
  shows "\<exists>s. translate locale key = s \<and> s \<noteq> [] \<and> (key, s) \<in> set (dictionary locale)"
proof -
  have "dictionary locale = (if locale = ''pl'' then pl_strings else en_strings)"
    using assms(2) by (auto simp: dictionary_def STRINGS_def)
  then show ?thesis
    using assms by (auto simp: translated_def translate_def split: option.splits dest: map_of_SomeD)
qed

lemma same_keys: "map fst pl_strings = map fst en_strings"
  by (simp only: pl_strings_def en_strings_def list.map fst_conv)

text \<open>The texts are not empty, so a key is translated as soon as it is in the Polish dictionary.\<close>

lemma no_empty_text: "list_all (\<lambda>(k, s). s \<noteq> []) pl_strings" "list_all (\<lambda>(k, s). s \<noteq> []) en_strings"
  by (simp_all add: pl_strings_def en_strings_def)

lemma translatedI: "key \<in> set (map fst pl_strings) \<Longrightarrow> translated key"
proof -
  assume k: "key \<in> set (map fst pl_strings)"
  then have "key \<in> set (map fst en_strings)" by (simp only: same_keys)
  with k obtain s s' where "map_of pl_strings key = Some s" "map_of en_strings key = Some s'"
    by (metis map_of_eq_None_iff not_None_eq set_map)
  moreover from this have "s \<noteq> []" "s' \<noteq> []"
    using no_empty_text by (auto simp: list_all_iff dest!: map_of_SomeD)
  ultimately show ?thesis by (simp add: translated_def)
qed

lemma keys_distinct: "distinct (map fst pl_strings)"
  by (simp add: pl_strings_def)

end
