(* ===== verification/Preferences.thy ===== *)
theory Preferences
  imports Strings
begin

section \<open>Language and theme (web/i18n.js, web/theme.js and web/app.js)\<close>

text \<open>
  The two groups of buttons of the page. Each keeps the user's choice in a variable and in
  \<open>localStorage\<close>, which may refuse to be read or written; the choice decides the language of
  the page (\<open>currentLocale\<close>, the \<open>lang\<close> attribute) and its theme (\<open>data-theme\<close>). The theme group
  subscribes to a change of the language to write its labels anew. \<open>pg_static\<close> are the elements of
  the document that have a \<open>data-i18n\<close> key, with their texts.

  The interface \<open>stored_choice\<close> is what either group promises of the choice it stores.
\<close>

subsection \<open>Storage\<close>

record storage =
  st_items :: "string \<Rightarrow> string option"
  st_readable :: bool
  st_writable :: bool

definition getItem :: "string \<Rightarrow> storage \<Rightarrow> string option res" where
  "getItem k st = (if st_readable st then Inr (st_items st k) else Inl (Error_msg ''storage''))"

definition setItem :: "string \<Rightarrow> string \<Rightarrow> storage \<Rightarrow> storage res" where
  "setItem k v st = (if st_writable st then Inr (st\<lparr>st_items := (st_items st)(k := Some v)\<rparr>) else Inl (Error_msg ''storage''))"

text \<open>The \<open>try\<close> blocks of both files.\<close>

definition stored :: "string \<Rightarrow> string list \<Rightarrow> storage \<Rightarrow> string" where
  "stored k valid st = (case getItem k st of
     Inr (Some v) \<Rightarrow> if v \<in> set valid then v else ''system''
   | _ \<Rightarrow> ''system'')"

definition store :: "string \<Rightarrow> string \<Rightarrow> storage \<Rightarrow> storage" where
  "store k v st = (case setItem k v st of Inr st' \<Rightarrow> st' | Inl e \<Rightarrow> st)"

definition LANGS :: "string list" where "LANGS = [''system'', ''pl'', ''en'']"
definition THEMES :: "string list" where "THEMES = [''system'', ''light'', ''dark'']"

definition readStored_lang :: "storage \<Rightarrow> string" where
  "readStored_lang st = stored ''quicksend-lang'' LANGS st"

definition readStored_theme :: "storage \<Rightarrow> string" where
  "readStored_theme st = stored ''quicksend-theme'' THEMES st"

definition store_lang :: "string \<Rightarrow> storage \<Rightarrow> storage" where
  "store_lang pref st = store ''quicksend-lang'' pref st"

definition store_theme :: "string \<Rightarrow> storage \<Rightarrow> storage" where
  "store_theme theme' st = store ''quicksend-theme'' theme' st"

locale stored_choice =
  fixes load :: "'s \<Rightarrow> 'v"
    and save :: "'v \<Rightarrow> 's \<Rightarrow> 's"
    and valid :: "'v set"
    and works :: "'s \<Rightarrow> bool"
  assumes load_valid: "load s \<in> valid"
    and load_save: "v \<in> valid \<Longrightarrow> works s \<Longrightarrow> load (save v s) = v"
    and save_works: "works (save v s) = works s"
begin

lemma last_choice: "set vs \<subseteq> valid \<Longrightarrow> vs \<noteq> [] \<Longrightarrow> works s \<Longrightarrow> load (fold save vs s) = last vs"
proof (induction vs rule: rev_induct)
  case (snoc v vs)
  have "works (fold save vs s)" using snoc.prems(3) by (induction vs arbitrary: s) (simp_all add: save_works)
  then show ?case using snoc.prems by (simp add: load_save)
qed simp

lemma load_again: "works s \<Longrightarrow> load (save (load s) s) = load s"
  by (rule load_save [OF load_valid])

end

lemma stored_range: "''system'' \<in> set valid \<Longrightarrow> stored k valid st \<in> set valid"
  by (auto simp: stored_def split: sum.split option.split)

lemma stored_store:
  "v \<in> set valid \<Longrightarrow> st_readable st \<Longrightarrow> st_writable st \<Longrightarrow> stored k valid (store k v st) = v"
  "k \<noteq> k' \<Longrightarrow> stored k valid (store k' v st) = stored k valid st"
  "st_readable (store k v st) = st_readable st" "st_writable (store k v st) = st_writable st"
  by (simp_all add: stored_def store_def getItem_def setItem_def)

lemma system_valid: "''system'' \<in> set LANGS" "''system'' \<in> set THEMES"
  by (simp_all add: LANGS_def THEMES_def)

interpretation lang_choice: stored_choice readStored_lang store_lang "set LANGS" "\<lambda>st. st_readable st \<and> st_writable st"
  by unfold_locales (simp_all add: readStored_lang_def store_lang_def stored_store stored_range system_valid)

interpretation theme_choice: stored_choice readStored_theme store_theme "set THEMES" "\<lambda>st. st_readable st \<and> st_writable st"
  by unfold_locales (simp_all add: readStored_theme_def store_theme_def stored_store stored_range system_valid)

lemma choices_apart:
  "readStored_lang (store_theme v st) = readStored_lang st" "readStored_theme (store_lang v st) = readStored_theme st"
  by (simp_all add: readStored_lang_def store_lang_def readStored_theme_def store_theme_def stored_store)

subsection \<open>The page\<close>

text \<open>What \<open>detectLocale\<close> sees of the browser.\<close>

record browser_langs =
  bl_languages :: "string list option"
  bl_language :: "string option"

record page =
  pg_storage :: storage
  pg_locale :: string
  pg_htmlLang :: string
  pg_langPref :: string
  pg_langPressed :: "(string \<times> bool) list"
  pg_langLabels :: "string list"
  pg_theme :: string
  pg_dataTheme :: "string option"
  pg_themePressed :: "(string \<times> bool) list"
  pg_themeLabels :: "string list"
  pg_subscribed :: bool
  pg_static :: "(string \<times> string) list"

definition resolveLocale :: "browser_langs \<Rightarrow> string \<Rightarrow> string" where
  "resolveLocale b pref = (if pref = ''system'' then detectLocale (bl_languages b) (bl_language b) else pref)"

text \<open>The two \<open>relabel\<close> functions: the label of the group, then those of its buttons.\<close>

definition lang_labels :: "string \<Rightarrow> string list" where
  "lang_labels locale = map (translate locale) [''langGroupLabel'', ''langAuto'', ''langPl'', ''langEn'']"

definition theme_labels :: "string \<Rightarrow> string list" where
  "theme_labels locale = map (translate locale) [''themeGroupLabel'', ''themeSystem'', ''themeLight'', ''themeDark'']"

definition applyTranslations :: "page \<Rightarrow> page" where
  "applyTranslations p =
     (let p1 = p\<lparr>pg_htmlLang := pg_locale p,
                 pg_static := map (\<lambda>(key, s). (key, case map_of (dictionary (pg_locale p)) key of Some s' \<Rightarrow> s' | None \<Rightarrow> s)) (pg_static p)\<rparr>
      in if pg_subscribed p then p1\<lparr>pg_themeLabels := theme_labels (pg_locale p)\<rparr> else p1)"

definition setPref :: "browser_langs \<Rightarrow> string \<Rightarrow> page \<Rightarrow> page" where
  "setPref b newPref p =
     (let p1 = applyTranslations (p\<lparr>pg_langPref := newPref, pg_locale := resolveLocale b newPref,
                                    pg_storage := store_lang newPref (pg_storage p)\<rparr>)
      in p1\<lparr>pg_langLabels := lang_labels (pg_locale p1), pg_langPressed := map (\<lambda>opt. (opt, opt = newPref)) LANGS\<rparr>)"

definition initLangToggle :: "browser_langs \<Rightarrow> page \<Rightarrow> page" where
  "initLangToggle b p = setPref b (readStored_lang (pg_storage p)) p"

definition apply_theme :: "string \<Rightarrow> page \<Rightarrow> page" where
  "apply_theme theme' p = p\<lparr>pg_dataTheme := (if theme' = ''system'' then None else Some theme')\<rparr>"

definition setTheme :: "string \<Rightarrow> page \<Rightarrow> page" where
  "setTheme theme' p =
     (let p1 = apply_theme theme' (p\<lparr>pg_theme := theme'\<rparr>)
      in p1\<lparr>pg_storage := store_theme theme' (pg_storage p1), pg_themePressed := map (\<lambda>th. (th, th = theme')) THEMES\<rparr>)"

definition initThemeToggle :: "page \<Rightarrow> page" where
  "initThemeToggle p =
     (let current = readStored_theme (pg_storage p); p1 = apply_theme current p;
          p2 = p1\<lparr>pg_themeLabels := theme_labels (pg_locale p1)\<rparr>
      in (setTheme current p2)\<lparr>pg_subscribed := True\<rparr>)"

text \<open>The page as it is loaded, before \<open>app.js\<close> runs, and after it has set up the two groups.\<close>

definition blank_page :: "(string \<times> string) list \<Rightarrow> storage \<Rightarrow> page" where
  "blank_page static st = \<lparr>pg_storage = st, pg_locale = DEFAULT_LOCALE, pg_htmlLang = ''en'', pg_langPref = [], pg_langPressed = [],
     pg_langLabels = [], pg_theme = [], pg_dataTheme = None, pg_themePressed = [], pg_themeLabels = [], pg_subscribed = False,
     pg_static = static\<rparr>"

definition load_page :: "browser_langs \<Rightarrow> (string \<times> string) list \<Rightarrow> storage \<Rightarrow> page" where
  "load_page b static st = initThemeToggle (initLangToggle b (blank_page static st))"

datatype page_event = Click_lang string | Click_theme string

text \<open>There is a button for each choice only.\<close>

fun page_step :: "browser_langs \<Rightarrow> page \<Rightarrow> page_event \<Rightarrow> page" where
  "page_step b p (Click_lang opt) = (if opt \<in> set LANGS then setPref b opt p else p)"
| "page_step b p (Click_theme th) = (if th \<in> set THEMES then setTheme th p else p)"

subsection \<open>The page shows the choice\<close>

definition static_in :: "string \<Rightarrow> (string \<times> string) list \<Rightarrow> (string \<times> string) list" where
  "static_in locale = map (\<lambda>(key, s). (key, case map_of (dictionary locale) key of Some s' \<Rightarrow> s' | None \<Rightarrow> s))"

text \<open>All the page shows, as a function of the two choices.\<close>

definition page_for :: "browser_langs \<Rightarrow> (string \<times> string) list \<Rightarrow> storage \<Rightarrow> string \<Rightarrow> string \<Rightarrow> page" where
  "page_for b static st pref theme' = (let locale = resolveLocale b pref in
     \<lparr>pg_storage = st, pg_locale = locale, pg_htmlLang = locale, pg_langPref = pref,
      pg_langPressed = map (\<lambda>opt. (opt, opt = pref)) LANGS, pg_langLabels = lang_labels locale, pg_theme = theme',
      pg_dataTheme = (if theme' = ''system'' then None else Some theme'), pg_themePressed = map (\<lambda>th. (th, th = theme')) THEMES,
      pg_themeLabels = theme_labels locale, pg_subscribed = True, pg_static = static_in locale static\<rparr>)"

lemma resolveLocale_range: "pref \<in> set LANGS \<Longrightarrow> resolveLocale b pref \<in> {''pl'', ''en''}"
  using detectLocale_range by (auto simp: resolveLocale_def LANGS_def)

lemma dictionary_keys: "locale \<in> {''pl'', ''en''} \<Longrightarrow> map fst (dictionary locale) = map fst pl_strings"
  by (auto simp: dictionary_def STRINGS_def same_keys)

lemma static_again:
  assumes "locale \<in> {''pl'', ''en''}" "locale' \<in> {''pl'', ''en''}"
  shows "static_in locale (static_in locale' static) = static_in locale static"
proof -
  have "(case map_of (dictionary locale) key of Some s' \<Rightarrow> s' | None \<Rightarrow> case map_of (dictionary locale') key of Some s' \<Rightarrow> s' | None \<Rightarrow> s) =
      (case map_of (dictionary locale) key of Some s' \<Rightarrow> s' | None \<Rightarrow> s)" for key s
  proof (cases "map_of (dictionary locale) key")
    case None
    then have "key \<notin> set (map fst pl_strings)"
      using dictionary_keys [OF assms(1)] by (simp add: map_of_eq_None_iff flip: set_map)
    then have "map_of (dictionary locale') key = None"
      using dictionary_keys [OF assms(2)] by (simp add: map_of_eq_None_iff flip: set_map)
    then show ?thesis using None by simp
  qed simp
  note same = this
  show ?thesis by (auto simp: static_in_def same)
qed

lemma setPref_page:
  assumes "pref \<in> set LANGS" "pref' \<in> set LANGS"
  shows "setPref b pref' (page_for b static st pref th) = page_for b static (store_lang pref' st) pref' th"
  using static_again [OF resolveLocale_range resolveLocale_range, OF assms(2,1), of b b static]
  by (simp add: setPref_def page_for_def applyTranslations_def Let_def static_in_def)

lemma setTheme_page: "setTheme th' (page_for b static st pref th) = page_for b static (store_theme th' st) pref th'"
  by (simp add: setTheme_def page_for_def apply_theme_def Let_def)

lemma load_page_for:
  "load_page b static st = page_for b static (store_theme (readStored_theme st) (store_lang (readStored_lang st) st))
     (readStored_lang st) (readStored_theme st)"
  by (simp add: load_page_def initThemeToggle_def initLangToggle_def blank_page_def setPref_def applyTranslations_def
      setTheme_def apply_theme_def page_for_def static_in_def Let_def choices_apart)

text \<open>The invariant: the page is the one for its two choices, and working storage has them.\<close>

definition page_ok :: "browser_langs \<Rightarrow> (string \<times> string) list \<Rightarrow> storage \<Rightarrow> page \<Rightarrow> bool" where
  "page_ok b static st p \<longleftrightarrow> st_readable (pg_storage p) = st_readable st \<and> st_writable (pg_storage p) = st_writable st \<and>
     pg_langPref p \<in> set LANGS \<and> pg_theme p \<in> set THEMES \<and>
     p = page_for b static (pg_storage p) (pg_langPref p) (pg_theme p) \<and>
     (st_readable (pg_storage p) \<and> st_writable (pg_storage p) \<longrightarrow>
        st_items (pg_storage p) ''quicksend-lang'' = Some (pg_langPref p) \<and>
        st_items (pg_storage p) ''quicksend-theme'' = Some (pg_theme p))"

lemma page_for_fields [simp]:
  "pg_storage (page_for b static st pref th) = st" "pg_langPref (page_for b static st pref th) = pref"
  "pg_theme (page_for b static st pref th) = th"
  by (simp_all add: page_for_def Let_def)

lemma store_items: "st_items (store k v st) = (if st_writable st then (st_items st)(k := Some v) else st_items st)"
  by (simp add: store_def setItem_def)

lemma load_page_ok: "page_ok b static st (load_page b static st)"
  unfolding page_ok_def load_page_for page_for_fields
  by (simp add: lang_choice.load_valid theme_choice.load_valid)
    (simp add: store_theme_def store_lang_def store_items stored_store)

lemma page_step_ok:
  assumes "page_ok b static st0 p"
  shows "page_ok b static st0 (page_step b p e)"
proof -
  obtain st pref th where p: "p = page_for b static st pref th" "pref \<in> set LANGS" "th \<in> set THEMES"
    using assms unfolding page_ok_def by metis
  show ?thesis
  proof (cases e)
    case (Click_lang opt)
    show ?thesis
    proof (cases "opt \<in> set LANGS")
      case True
      then show ?thesis using assms p Click_lang
        by (simp add: setPref_page page_ok_def store_lang_def store_items stored_store)
    qed (use assms Click_lang in simp)
  next
    case (Click_theme t)
    then show ?thesis using assms p
      by (simp add: setTheme_page page_ok_def store_theme_def store_items stored_store)
  qed
qed

interpretation page: event_machine "\<lambda>_. True" "\<lambda>(b, static, st). load_page b static st" "\<lambda>(b, static, st). page_step b"
  "\<lambda>(b, static, st). page_ok b static st"
  by unfold_locales (auto simp: load_page_ok page_step_ok)

lemma page_run_ok: "page_ok b static st (run (page_step b) (load_page b static st) evs)"
  using page.reach_inv [of "(b, static, st)" evs] by simp

lemma store_same: "st_items st k = Some v \<Longrightarrow> store k v st = st"
  by (cases st) (auto simp: store_def setItem_def)

text \<open>C30. The user's choice of language and theme is kept: after any clicks, where the browser's storage can
  be used, the page that is loaded again is exactly the page that was left, in its language, theme,
  labels and buttons. One button of each group is pressed, the texts and the labels of both groups
  are those of the language shown, which is one that the page has.\<close>

theorem preferences_survive_reload:
  assumes "st_readable st" "st_writable st"
  shows "let p = run (page_step b) (load_page b static st) evs in
    load_page b static (pg_storage p) = p \<and>
    pg_locale p = resolveLocale b (pg_langPref p) \<and> pg_locale p \<in> {''pl'', ''en''} \<and> pg_htmlLang p = pg_locale p \<and>
    pg_langLabels p = lang_labels (pg_locale p) \<and> pg_themeLabels p = theme_labels (pg_locale p) \<and>
    filter snd (pg_langPressed p) = [(pg_langPref p, True)] \<and> filter snd (pg_themePressed p) = [(pg_theme p, True)] \<and>
    pg_dataTheme p = (if pg_theme p = ''system'' then None else Some (pg_theme p))"
proof -
  define p where "p = run (page_step b) (load_page b static st) evs"
  have ok: "page_ok b static st p" unfolding p_def by (rule page_run_ok)
  then have works: "st_readable (pg_storage p)" "st_writable (pg_storage p)" using assms by (simp_all add: page_ok_def)
  with ok have items: "st_items (pg_storage p) ''quicksend-lang'' = Some (pg_langPref p)"
    "st_items (pg_storage p) ''quicksend-theme'' = Some (pg_theme p)"
    and valid: "pg_langPref p \<in> set LANGS" "pg_theme p \<in> set THEMES"
    and shown: "p = page_for b static (pg_storage p) (pg_langPref p) (pg_theme p)" unfolding page_ok_def by blast+
  have read: "readStored_lang (pg_storage p) = pg_langPref p" "readStored_theme (pg_storage p) = pg_theme p"
    using items valid works(1) by (simp_all add: readStored_lang_def readStored_theme_def stored_def getItem_def)
  then have "store_theme (readStored_theme (pg_storage p)) (store_lang (readStored_lang (pg_storage p)) (pg_storage p)) = pg_storage p"
    using items by (simp add: store_lang_def store_theme_def store_same)
  then have reload: "load_page b static (pg_storage p) = p" using load_page_for read shown by metis
  have pressed: "filter snd (map (\<lambda>x. (x, x = v)) LANGS) = [(v, True)]" if "v \<in> set LANGS" for v
    using that by (auto simp: LANGS_def)
  have pressed': "filter snd (map (\<lambda>x. (x, x = v)) THEMES) = [(v, True)]" if "v \<in> set THEMES" for v
    using that by (auto simp: THEMES_def)
  obtain st' pref th where q: "p = page_for b static st' pref th" "pref \<in> set LANGS" "th \<in> set THEMES" using shown valid by metis
  have "pg_locale p = resolveLocale b (pg_langPref p) \<and> pg_locale p \<in> {''pl'', ''en''} \<and> pg_htmlLang p = pg_locale p \<and>
    pg_langLabels p = lang_labels (pg_locale p) \<and> pg_themeLabels p = theme_labels (pg_locale p) \<and>
    filter snd (pg_langPressed p) = [(pg_langPref p, True)] \<and> filter snd (pg_themePressed p) = [(pg_theme p, True)] \<and>
    pg_dataTheme p = (if pg_theme p = ''system'' then None else Some (pg_theme p))"
    using resolveLocale_range [OF q(2)] pressed [OF q(2)] pressed' [OF q(3)]
    unfolding q(1) page_for_def Let_def by simp
  then show ?thesis using reload unfolding p_def [symmetric] Let_def by blast
qed

lemma setPref_fields [simp]: "pg_langPref (setPref b v p) = v" "pg_theme (setPref b v p) = pg_theme p"
  by (simp_all add: setPref_def applyTranslations_def Let_def)

lemma setTheme_fields [simp]: "pg_langPref (setTheme v p) = pg_langPref p" "pg_theme (setTheme v p) = v"
  by (simp_all add: setTheme_def apply_theme_def Let_def)

definition polish_browser :: browser_langs where
  "polish_browser = \<lparr>bl_languages = Some [''pl-PL'', ''en''], bl_language = Some ''pl-PL''\<rparr>"

definition empty_storage :: storage where
  "empty_storage = \<lparr>st_items = (\<lambda>_. None), st_readable = True, st_writable = True\<rparr>"

theorem preferences_survive_reload_witness:
  "let p = run (page_step polish_browser) (load_page polish_browser [] empty_storage) [Click_theme ''dark'', Click_lang ''en'']
   in load_page polish_browser [] (pg_storage p) = p \<and> pg_locale p = ''en'' \<and> pg_dataTheme p = Some ''dark''"
proof -
  let ?evs = "[Click_theme ''dark'', Click_lang ''en'']"
  have "st_readable empty_storage" "st_writable empty_storage" by (simp_all add: empty_storage_def)
  note kept = preferences_survive_reload [OF this, of polish_browser "[]" ?evs]
  moreover have "pg_langPref (run (page_step polish_browser) (load_page polish_browser [] empty_storage) ?evs) = ''en''"
    "pg_theme (run (page_step polish_browser) (load_page polish_browser [] empty_storage) ?evs) = ''dark''"
    by (simp_all add: LANGS_def THEMES_def)
  ultimately show ?thesis unfolding Let_def by (simp add: resolveLocale_def)
qed

end
