(* ===== verification/SenderUI.thy ===== *)
theory SenderUI
  imports SenderProps FileNames Pairing
begin

section \<open>The sender's transfer screen (renderSenderTransfer of web/transfer-ui.js)\<close>

text \<open>
  A batch of picked files is sent one file after the other, each by its own \<open>sendFile\<close> (theory
  Sender), whose machine the state holds while the file is under way. \<open>q_accepted\<close> and \<open>q_stale\<close>
  record the batches \<open>sendFiles\<close> took and those handed to \<open>onStaleFiles\<close>. The page content is
  left out, but for the status text of each file's row.

  Theory Pairing knows a transfer UI only as a \<open>tui\<close>; \<open>tui_of\<close> is what it sees of this one, and
  every step here is a step that \<open>tui\<close> can make.
\<close>

record sui =
  q_wc :: webcrypto
  q_epochKey :: bytes
  q_socket :: nat
  q_open :: bool
  q_sending :: bool
  q_detached :: bool
  q_current :: "(send_ctx \<times> sender) option"
  q_rest :: "js_file list"
  q_rows :: "(string \<times> string) list"
  q_accepted :: "js_file list list"
  q_stale :: "js_file list list"

definition sui_init :: "webcrypto \<Rightarrow> bytes \<Rightarrow> nat \<Rightarrow> sui" where
  "sui_init wc key i = \<lparr>q_wc = wc, q_epochKey = key, q_socket = i, q_open = True, q_sending = False,
     q_detached = False, q_current = None, q_rest = [], q_rows = [], q_accepted = [], q_stale = []\<rparr>"

text \<open>The head of the \<open>for\<close> loop: the next file is started with a new random id, unless the UI was
  detached or no file is left, when the code after the loop runs.\<close>

definition next_file :: "bytes \<Rightarrow> sui \<Rightarrow> sui" where
  "next_file fileId s =
     (case (if q_detached s then [] else q_rest s) of
        [] \<Rightarrow> s\<lparr>q_sending := False, q_current := None, q_rest := []\<rparr>
      | f # fs \<Rightarrow>
          s\<lparr>q_current := Some (\<lparr>sc_wc = q_wc s, sc_epochKey = q_epochKey s, sc_file = f, sc_fileId = fileId\<rparr>,
                               s_init\<lparr>s_open := q_open s\<rparr>),
            q_rest := fs, q_rows := q_rows s @ [(f_name f, ''transferSending'')]\<rparr>)"

definition sendFiles :: "js_file list \<Rightarrow> bytes \<Rightarrow> sui \<Rightarrow> sui" where
  "sendFiles files fileId s =
     (if q_sending s \<or> q_detached s \<or> files = [] then s
      else next_file fileId (s\<lparr>q_sending := True, q_rest := files, q_accepted := q_accepted s @ [files]\<rparr>))"

definition handlePicked :: "js_file list \<Rightarrow> bytes \<Rightarrow> sui \<Rightarrow> sui" where
  "handlePicked files fileId s =
     (if q_detached s \<or> \<not> q_open s then s\<lparr>q_stale := q_stale s @ [files]\<rparr>
      else sendFiles files fileId s)"

text \<open>The status of a file whose \<open>sendFile\<close> is over.\<close>

definition settled_text :: "unit res \<Rightarrow> string" where
  "settled_text r = (case r of
     Inr _ \<Rightarrow> ''transferSent''
   | Inl (Abort_error reason) \<Rightarrow> abortStatusText reason
   | Inl _ \<Rightarrow> ''transferError'')"

text \<open>An event for the \<open>sendFile\<close> under way; when it settles, the loop goes on.\<close>

definition file_event :: "s_event \<Rightarrow> bytes \<Rightarrow> sui \<Rightarrow> sui" where
  "file_event e fileId s = (case q_current s of
     None \<Rightarrow> s
   | Some (c, x) \<Rightarrow>
       (let x' = s_step c x e
        in case s_phase x' of
             Settled r \<Rightarrow>
               next_file fileId (s\<lparr>q_rows := butlast (q_rows s) @ [(f_name (sc_file c), settled_text r)]\<rparr>)
           | _ \<Rightarrow> s\<lparr>q_current := Some (c, x')\<rparr>))"

text \<open>Events: a pick or a drop, \<open>sendFiles\<close> called by pairing.js, the promises and messages of the
  \<open>sendFile\<close> under way, its Cancel button, the socket's close and \<open>detach\<close>. A file that starts in
  this step gets the id \<open>fileId\<close>.\<close>

datatype sui_event =
    Picked_files "js_file list"
  | Send_files "js_file list"
  | Promise_settles | Read_fails | Socket_message frame
  | Cancel_file
  | Socket_closes
  | Detach_ui

fun sui_step :: "sui \<Rightarrow> sui_event \<times> bytes \<Rightarrow> sui" where
  "sui_step s (Picked_files files, fileId) = handlePicked files fileId s"
| "sui_step s (Send_files files, fileId) = sendFiles files fileId s"
| "sui_step s (Promise_settles, fileId) = file_event Settle fileId s"
| "sui_step s (Read_fails, fileId) = file_event Read_fail fileId s"
| "sui_step s (Socket_message fr, fileId) = (if q_open s then file_event (Message fr) fileId s else s)"
| "sui_step s (Cancel_file, fileId) = file_event Signal_abort fileId s"
| "sui_step s (Socket_closes, fileId) =
     (if q_open s then file_event Closed fileId (s\<lparr>q_open := False\<rparr>) else s)"
| "sui_step s (Detach_ui, fileId) = s\<lparr>q_detached := True\<rparr>"

definition isActive :: "sui \<Rightarrow> bool" where
  "isActive s = q_sending s"

subsection \<open>The invariant of the queue\<close>

text \<open>A file is under way exactly while a batch is, and not settled; the rows are the files of the
  accepted batches in order, up to the one under way.\<close>

definition over_rows :: "sui \<Rightarrow> (string \<times> string) list" where
  "over_rows s = (if q_current s = None then q_rows s else butlast (q_rows s))"

definition queue_inv :: "sui \<Rightarrow> bool" where
  "queue_inv s \<longleftrightarrow> (q_sending s \<longleftrightarrow> q_current s \<noteq> None) \<and> (q_current s = None \<longrightarrow> q_rest s = []) \<and>
     (case q_current s of
        None \<Rightarrow> True
      | Some (c, x) \<Rightarrow> (\<forall>r. s_phase x \<noteq> Settled r) \<and> q_rows s \<noteq> [] \<and> fst (last (q_rows s)) = f_name (sc_file c)) \<and>
     list_all (\<lambda>r. snd r \<noteq> ''transferSending'') (over_rows s) \<and>
     (\<exists>dropped. map f_name (concat (q_accepted s)) = map fst (q_rows s) @ map f_name (q_rest s @ dropped) \<and>
        (dropped = [] \<or> (q_detached s \<and> q_rest s = [])))"

lemma queue_inv_same:
  assumes "queue_inv s" "q_sending s' = q_sending s" "q_current s' = q_current s" "q_rest s' = q_rest s" "q_rows s' = q_rows s"
    "q_accepted s' = q_accepted s" "q_detached s \<Longrightarrow> q_detached s'"
  shows "queue_inv s'"
  using assms by (cases "q_current s") (auto simp: queue_inv_def over_rows_def)

lemma settled_text_over: "settled_text r \<noteq> ''transferSending''"
  by (auto simp: settled_text_def abortStatusText_def split: sum.split js_error.split)

lemma next_file_inv:
  assumes "q_sending s" "list_all (\<lambda>r. snd r \<noteq> ''transferSending'') (q_rows s)"
    and "map f_name (concat (q_accepted s)) = map fst (q_rows s) @ map f_name (q_rest s @ dropped)"
    and "dropped = [] \<or> (q_detached s \<and> q_rest s = [])"
  shows "queue_inv (next_file fileId s)"
proof (cases "q_detached s \<or> q_rest s = []")
  case True
  then have "next_file fileId s = s\<lparr>q_sending := False, q_current := None, q_rest := []\<rparr>"
    by (auto simp: next_file_def)
  moreover have "\<exists>d :: js_file list. map f_name (concat (q_accepted s)) = map fst (q_rows s) @ map f_name d \<and> (d = [] \<or> q_detached s)"
    using assms True by (intro exI [of _ "q_rest s @ dropped"]) auto
  ultimately show ?thesis using assms(2) by (simp add: queue_inv_def over_rows_def)
next
  case False
  then obtain f fs where r: "q_rest s = f # fs" by (cases "q_rest s") auto
  with assms False show ?thesis by (simp add: next_file_def queue_inv_def over_rows_def s_init_def)
qed

lemma sendFiles_inv:
  assumes "queue_inv s"
  shows "queue_inv (sendFiles files fileId s)"
proof (cases "q_sending s \<or> q_detached s \<or> files = []")
  case False
  let ?s = "s\<lparr>q_sending := True, q_rest := files, q_accepted := q_accepted s @ [files]\<rparr>"
  from False assms have idle: "q_current s = None" "q_rest s = []" by (cases "q_current s"; auto simp: queue_inv_def)+
  with False assms have "map f_name (concat (q_accepted s)) = map fst (q_rows s)"
    "list_all (\<lambda>r. snd r \<noteq> ''transferSending'') (q_rows s)" by (auto simp: queue_inv_def over_rows_def)
  then have "queue_inv (next_file fileId ?s)" by (intro next_file_inv [where dropped = "[]"]) simp_all
  then show ?thesis using False by (simp add: sendFiles_def)
qed (use assms in \<open>simp add: sendFiles_def\<close>)

lemma file_event_inv:
  assumes inv: "queue_inv s"
  shows "queue_inv (file_event e fileId s)"
proof (cases "q_current s")
  case None
  then show ?thesis using inv by (simp add: file_event_def)
next
  case (Some cx)
  obtain c x where cx: "cx = (c, x)" by (cases cx)
  obtain dropped where d: "map f_name (concat (q_accepted s)) = map fst (q_rows s) @ map f_name (q_rest s @ dropped)"
    "dropped = [] \<or> (q_detached s \<and> q_rest s = [])" using inv by (auto simp: queue_inv_def)
  have rows: "q_sending s" "q_rows s \<noteq> []" "fst (last (q_rows s)) = f_name (sc_file c)"
    "list_all (\<lambda>r. snd r \<noteq> ''transferSending'') (butlast (q_rows s))"
    using inv Some cx by (auto simp: queue_inv_def over_rows_def)
  show ?thesis
  proof (cases "\<exists>r. s_phase (s_step c x e) = Settled r")
    case True
    then obtain r where r: "s_phase (s_step c x e) = Settled r" by blast
    let ?s = "s\<lparr>q_rows := butlast (q_rows s) @ [(f_name (sc_file c), settled_text r)]\<rparr>"
    have "map fst (q_rows ?s) = map fst (q_rows s)"
      using rows(2,3) by (cases "q_rows s" rule: rev_cases) auto
    then have "queue_inv (next_file fileId ?s)"
      using d rows by (intro next_file_inv [where dropped = dropped]) (simp_all add: settled_text_over)
    then show ?thesis using Some cx r by (simp add: file_event_def)
  next
    case False
    then have "file_event e fileId s = s\<lparr>q_current := Some (c, s_step c x e)\<rparr>"
      using Some cx by (simp add: file_event_def Let_def split: s_phase.split)
    then show ?thesis using False inv Some cx by (auto simp: queue_inv_def over_rows_def)
  qed
qed

lemma sui_step_inv:
  assumes inv: "queue_inv s"
  shows "queue_inv (sui_step s e)"
proof -
  have same: "queue_inv (s\<lparr>q_stale := st\<rparr>)" "queue_inv (s\<lparr>q_open := False\<rparr>)" "queue_inv (s\<lparr>q_detached := True\<rparr>)" for st
    by (rule queue_inv_same [OF inv]; simp)+
  obtain ev fileId where "e = (ev, fileId)" by (cases e)
  then show ?thesis
    using inv same by (cases ev) (auto simp: handlePicked_def sendFiles_inv file_event_inv)
qed

lemma sui_init_inv: "queue_inv (sui_init wc key i)"
  by (simp add: queue_inv_def sui_init_def over_rows_def)

interpretation sending_screen: event_machine "\<lambda>_. True" "\<lambda>(wc, key, i). sui_init wc key i" "\<lambda>_. sui_step" "\<lambda>_. queue_inv"
  by unfold_locales (auto simp: sui_init_inv sui_step_inv)

lemma sui_run_inv: "queue_inv (run sui_step (sui_init wc key i) evs)"
  using sending_screen.reach_inv [of "(wc, key, i)" evs] by simp

text \<open>C7. Whatever is picked, dropped, cancelled or lost in whatever order: the files shown are those of the
  accepted batches, in order and without a gap; \<open>isActive\<close> holds exactly while one \<open>sendFile\<close> is under
  way, and only the last row can still say that it is being sent; when no file is under way, the
  accepted batches have been worked off completely, unless the UI was detached.\<close>

theorem batches_sent_in_order:
  "let s = run sui_step (sui_init wc key i) evs; names = map f_name (concat (q_accepted s))
   in map fst (q_rows s) = take (length (q_rows s)) names \<and>
      (isActive s = (case q_current s of None \<Rightarrow> False | Some (c, x) \<Rightarrow> True)) \<and>
      list_all (\<lambda>r. snd r \<noteq> ''transferSending'') (if isActive s then butlast (q_rows s) else q_rows s) \<and>
      (if isActive s \<or> q_detached s then True else map fst (q_rows s) = names)"
proof -
  define s where "s = run sui_step (sui_init wc key i) evs"
  have inv: "queue_inv s" unfolding s_def by (rule sui_run_inv)
  then obtain dropped where d: "map f_name (concat (q_accepted s)) = map fst (q_rows s) @ map f_name (q_rest s @ dropped)"
    "dropped = [] \<or> (q_detached s \<and> q_rest s = [])" by (auto simp: queue_inv_def)
  have "map fst (q_rows s) = take (length (q_rows s)) (map f_name (concat (q_accepted s)))"
    unfolding d(1) by simp
  moreover have "isActive s = (q_current s \<noteq> None)" "q_current s = None \<Longrightarrow> q_rest s = []"
    "list_all (\<lambda>r. snd r \<noteq> ''transferSending'') (over_rows s)"
    using inv by (auto simp: queue_inv_def isActive_def)
  moreover from calculation have "map fst (q_rows s) = map f_name (concat (q_accepted s))" if "\<not> isActive s" "\<not> q_detached s"
    using that d by (cases "q_current s") auto
  ultimately show ?thesis
    unfolding Let_def s_def [symmetric] by (cases "q_current s") (auto simp: over_rows_def)
qed

subsection \<open>What pairing.js sees\<close>

text \<open>\<open>t\<close> has the session the UI was rendered for.\<close>

definition tui_of :: "tui \<Rightarrow> sui \<Rightarrow> tui" where
  "tui_of t s = t\<lparr>t_detached := q_detached s, t_busy := q_sending s, t_batches := map (map f_name) (q_accepted s)\<rparr>"

text \<open>The steps a transfer UI can make in theory Pairing.\<close>

inductive tui_step :: "tui \<Rightarrow> tui \<Rightarrow> bool" where
  tui_stays: "tui_step t t"
| tui_batch: "tui_step t (ui_sendFiles files t)"
| tui_over: "tui_step t (t\<lparr>t_busy := False\<rparr>)"
| tui_detached: "tui_step t (t\<lparr>t_detached := True\<rparr>)"

lemma next_file_tui: "tui_of t (next_file fileId s) =
    (if q_detached s \<or> q_rest s = [] then (tui_of t s)\<lparr>t_busy := False\<rparr> else tui_of t s)"
  by (cases "q_rest s") (auto simp: next_file_def tui_of_def)

lemma sendFiles_tui: "tui_of t (sendFiles files fileId s) = ui_sendFiles (map f_name files) (tui_of t s)"
  by (auto simp: sendFiles_def ui_sendFiles_def next_file_tui) (auto simp: tui_of_def)

lemma file_event_tui: "tui_step (tui_of t s) (tui_of t (file_event e fileId s))"
proof (cases "q_current s")
  case (Some cx)
  obtain c x where cx: "cx = (c, x)" by (cases cx)
  have same: "tui_of t (s\<lparr>q_current := y\<rparr>) = tui_of t s" "tui_of t (s\<lparr>q_rows := rs\<rparr>) = tui_of t s" for y rs
    by (simp_all add: tui_of_def)
  show ?thesis
    using Some cx by (auto simp: file_event_def Let_def same next_file_tui intro: tui_step.intros split: s_phase.split)
qed (simp add: file_event_def tui_stays)

text \<open>C24. The sender's transfer screen refines the transfer UI that pairing.js works with: every step of it,
  seen from there, is a step of that UI, and the three calls pairing.js makes do what it expects:
  \<open>sendFiles\<close> takes the batch exactly when nothing is being sent and the UI is attached, a pick on an
  unusable socket changes nothing but hands the batch back, and \<open>detach\<close> detaches.\<close>

theorem sender_screen_refines_tui:
  "tui_step (tui_of t s) (tui_of t (sui_step s e)) \<and>
   tui_of t (sui_step s (Send_files files, fileId)) = ui_sendFiles (map f_name files) (tui_of t s) \<and>
   (let s' = sui_step s (Picked_files files, fileId)
    in if \<not> t_detached (tui_of t s) \<and> q_open s then tui_of t s' = ui_sendFiles (map f_name files) (tui_of t s)
       else tui_of t s' = tui_of t s \<and> q_stale s' = q_stale s @ [files]) \<and>
   tui_of t (sui_step s (Detach_ui, fileId)) = (tui_of t s)\<lparr>t_detached := True\<rparr> \<and>
   isActive s = t_busy (tui_of t s)"
proof -
  obtain ev fid where e: "e = (ev, fid)" by (cases e)
  have same: "tui_of t (s\<lparr>q_stale := st\<rparr>) = tui_of t s" "tui_of t (s\<lparr>q_open := False\<rparr>) = tui_of t s" for st
    by (simp_all add: tui_of_def)
  have "tui_step (tui_of t s) (tui_of t (file_event x fid (s\<lparr>q_open := False\<rparr>)))" for x
    using file_event_tui [of t "s\<lparr>q_open := False\<rparr>" x fid] by (simp add: same)
  moreover have det: "tui_of t (s\<lparr>q_detached := True\<rparr>) = (tui_of t s)\<lparr>t_detached := True\<rparr>"
    by (cases t) (simp add: tui_of_def)
  moreover have "tui_step (tui_of t s) (tui_of t (s\<lparr>q_detached := True\<rparr>))" unfolding det by (rule tui_detached)
  ultimately have "tui_step (tui_of t s) (tui_of t (sui_step s e))"
    unfolding e by (cases ev) (auto simp: handlePicked_def sendFiles_tui same intro: tui_step.intros file_event_tui)
  then show ?thesis
    by (auto simp: handlePicked_def sendFiles_tui Let_def det same) (simp_all add: tui_of_def isActive_def)
qed

text \<open>When the connection is lost in the middle of a batch, the next file is started on the closed
  socket: the loop tests \<open>detached\<close>, which only a later rendering sets. Its frames go nowhere, no
  event of that socket can settle it, and the rest of the batch is not handed to \<open>onStaleFiles\<close>.\<close>

theorem batch_continues_on_closed_socket:
  assumes "q_current s = Some (c, x)" "s_phase x = Wait_final" "q_open s" "\<not> q_detached s" "q_rest s = f # fs"
  shows "let s' = sui_step s (Socket_closes, fileId)
    in \<exists>c'. q_current s' = Some (c', s_init\<lparr>s_open := False\<rparr>) \<and> sc_file c' = f \<and> q_rest s' = fs \<and> q_stale s' = q_stale s \<and>
       q_rows s' = butlast (q_rows s) @ [(f_name (sc_file c), ''transferError''), (f_name f, ''transferSending'')] \<and>
       sui_step s' (Socket_message fr, fileId) = s' \<and> sui_step s' (Socket_closes, fileId) = s'"
  using assms
  by (simp add: file_event_def Let_def s_listening_def s_onClose_def s_wake_def s_throw_def connection_lost_def
      settled_text_def next_file_def s_send_def)

end
