(* ===== verification/Views.thy ===== *)
theory Views
  imports Strings PairingProps ReceiverUI SenderUI
begin

section \<open>What the screens show (the render functions of web/pairing.js)\<close>

text \<open>
  The page of each screen as the list of its elements in order: a paragraph or label with the
  text of a key, a paragraph with computed text, the QR code, the camera picture, an input, and
  a button with the key of its label, whether it is enabled and what a click does. Style classes
  are left out. The transfer screens, which stand below the paired screen, are views of the
  states of theories SenderUI and ReceiverUI.

  A key is an argument of \<open>t\<close>; theory Strings has the dictionaries.
\<close>

datatype act =
    Act app_event | Submit_pasted | Submit_typed | Share_url string | Share_text string
  | Choose_folder | Cancel_row

datatype element =
    Para string
  | Shown string
  | Native string
  | Qr_code string
  | Camera_picture
  | Input
  | Btn string bool act
  | Link string

subsection \<open>Errors\<close>

definition ERROR_MESSAGE_KEYS :: "(string \<times> string) list" where
  "ERROR_MESSAGE_KEYS =
    [(''session_not_found'', ''errSessionNotFound''),
     (''session_full'', ''errSessionFull''),
     (''too_many_sessions'', ''errTooManySessions''),
     (''invalid_qr'', ''senderPasteInvalid''),
     (''invalid_link'', ''senderPasteInvalid''),
     (''camera_error'', ''senderCameraError''),
     (''invalid_code'', ''errInvalidCode''),
     (''too_many_attempts'', ''errTooManyAttempts''),
     (''code_mismatch'', ''errCodeMismatch''),
     (''connection_lost'', ''errConnectionLost''),
     (''session_ended'', ''errSessionEnded''),
     (''ended_by_peer'', ''errEndedByPeer''),
     (''peer_timeout'', ''errSessionEnded''),
     (''inactivity_timeout'', ''errInactivityTimeout''),
     (''invalid_reconnect_token'', ''errConnectionLost'')]"

text \<open>The properties that an object literal has from \<open>Object.prototype\<close>: looking one of them up gives
  not undefined but a function or an object, which \<open>t\<close> returns as no dictionary has it.\<close>

definition object_members :: "string list" where
  "object_members = [''constructor'', ''hasOwnProperty'', ''isPrototypeOf'', ''propertyIsEnumerable'', ''toLocaleString'',
     ''toString'', ''valueOf'', ''__proto__'', ''__defineGetter__'', ''__defineSetter__'', ''__lookupGetter__'', ''__lookupSetter__'']"

definition error_text :: "string option \<Rightarrow> element" where
  "error_text code = (case code of
     None \<Rightarrow> Para ''errGeneric''
   | Some c \<Rightarrow>
       (case map_of ERROR_MESSAGE_KEYS c of
          Some key \<Rightarrow> Para key
        | None \<Rightarrow> if c \<in> set object_members then Native c else Para ''errGeneric''))"

definition renderError :: "app \<Rightarrow> element list" where
  "renderError a = [error_text (u_code (a_ui a)), Btn ''tryAgain'' True (Act Click_back)]"

subsection \<open>The screens\<close>

definition renderInsecureContext :: "element list" where
  "renderInsecureContext = [Para ''insecureContextTitle'', Para ''insecureContextBody'']"

definition renderRoleSelect :: "element list" where
  "renderRoleSelect =
     [Para ''appTagline'', Btn ''startReceive'' True (Act Click_receive), Btn ''startSend'' True (Act Click_send),
      Btn ''remoteCodeLink'' True (Act Click_code_link)]"

definition renderCodeRoleSelect :: "element list" where
  "renderCodeRoleSelect =
     [Para ''codeRoleChooseTitle'', Btn ''roleReceive'' True (Act Click_code_receive), Btn ''roleSend'' True (Act Click_code_send),
      Btn ''backButton'' True (Act Click_back)]"

definition renderJoinDetected :: "element list" where
  "renderJoinDetected =
     [Para ''joinDetectedTitle'', Btn ''joinDetectedButton'' True (Act Click_join), Btn ''joinDetectedCancel'' True (Act Click_back)]"

definition renderReceiverWaiting :: "app \<Rightarrow> element list" where
  "renderReceiverWaiting a = (let url = (case u_url (a_ui a) of Some s \<Rightarrow> s | None \<Rightarrow> ''undefined'') in
     [Para ''receiverWaiting'', Qr_code url, Para ''receiverLinkLabel'', Shown url, Para ''shareSecurityWarning'',
      Btn ''shareButton'' True (Share_url url), Btn ''backButton'' True (Act Click_back)])"

text \<open>\<open>code.slice\<close> throws on undefined, and the rest is not rendered.\<close>

definition renderCodeReceiverWaiting :: "app \<Rightarrow> element list" where
  "renderCodeReceiverWaiting a = Para ''codeReceiverWaiting'' # (case u_code (a_ui a) of
     None \<Rightarrow> []
   | Some code \<Rightarrow>
       [Shown (shown_code code), Para ''codeExpiryNote'', Btn ''copyCodeButton'' True (Share_text (shown_code code)),
        Btn ''backButton'' True (Act Click_back)])"

definition renderCodeSenderEntry :: "element list" where
  "renderCodeSenderEntry =
     [Para ''codeSenderLabel'', Input, Btn ''senderPasteButton'' True Submit_typed, Btn ''backButton'' True (Act Click_back)]"

definition renderSenderPaste :: "element list" where
  "renderSenderPaste =
     [Para ''senderPasteLabel'', Input, Btn ''senderPasteButton'' True Submit_pasted, Btn ''backButton'' True (Act Click_back)]"

definition scanning_view :: "element list" where
  "scanning_view =
     [Para ''senderScanHint'', Camera_picture, Btn ''pasteLinkInsteadButton'' True (Act Click_paste_instead),
      Btn ''backButton'' True (Act Click_back)]"

text \<open>A status line is hidden while it has no text.\<close>

definition status_line :: "string option \<Rightarrow> element list" where
  "status_line key = (case key of None \<Rightarrow> [] | Some k \<Rightarrow> [Para k])"

definition paired_view :: "app \<Rightarrow> element list" where
  "paired_view a =
     Para (if u_role (a_ui a) = Some Host then ''statusPairedHost'' else ''statusPairedGuest'') #
     status_line (a_reconnectStatus a) @
     Btn ''swapRolesButton'' (\<not> a_swapDisabled a) (Act Click_swap) #
     status_line (a_swapStatus a) @
     [Btn ''disconnectButton'' True (Act Click_disconnect)]"

definition view :: "app \<Rightarrow> element list" where
  "view a = (case u_screen (a_ui a) of
     Role_select \<Rightarrow> renderRoleSelect
   | Code_role_select \<Rightarrow> renderCodeRoleSelect
   | Join_detected \<Rightarrow> renderJoinDetected
   | Receiver_generating \<Rightarrow> [Para ''receiverGenerating'']
   | Receiver_waiting \<Rightarrow> renderReceiverWaiting a
   | Sender_scanning \<Rightarrow> scanning_view
   | Sender_paste \<Rightarrow> renderSenderPaste
   | Joining \<Rightarrow> [Para ''statusJoining'']
   | Code_receiver_generating \<Rightarrow> [Para ''receiverGenerating'']
   | Code_receiver_waiting \<Rightarrow> renderCodeReceiverWaiting a
   | Code_sender_entry \<Rightarrow> renderCodeSenderEntry
   | Verifying \<Rightarrow> [Para ''statusVerifying'']
   | Paired_screen \<Rightarrow> paired_view a
   | Error_screen \<Rightarrow> renderError a
   | Insecure_context \<Rightarrow> renderInsecureContext)"

lemmas view_defs = view_def renderError_def renderInsecureContext_def renderRoleSelect_def renderCodeRoleSelect_def
  renderJoinDetected_def renderReceiverWaiting_def renderCodeReceiverWaiting_def renderCodeSenderEntry_def
  renderSenderPaste_def scanning_view_def paired_view_def

subsection \<open>The transfer screens (web/transfer-ui.js)\<close>

text \<open>
  The row of a file, without its name and progress bar: the status, the link to the received file
  and the Cancel button. Link and button have their texts from the start, also while hidden.
\<close>

definition createFileRow :: "string option \<Rightarrow> element list" where
  "createFileRow status = status_line status @ [Link ''openFileLink'', Btn ''cancelButton'' True Cancel_row]"

definition sender_view :: "sui \<Rightarrow> element list" where
  "sender_view s =
     [Para ''transferSenderHint'', Input, Para ''dropHint''] @
     concat (map (\<lambda>(name, status). createFileRow (Some status)) (q_rows s))"

text \<open>
  \<open>directories\<close> is \<open>hasDirectoryAccess()\<close>. The name of the chosen folder, which follows its prefix,
  is left out; the row of a file whose sink is not there yet has no entry in \<open>v_rows\<close>.
\<close>

definition folder_line :: "nat option \<Rightarrow> element list" where
  "folder_line saveDir = (case saveDir of
     None \<Rightarrow> [Btn ''chooseSaveFolderButton'' True Choose_folder]
   | Some _ \<Rightarrow> [Btn ''changeSaveFolderButton'' True Choose_folder, Para ''saveFolderChosenPrefix''])"

definition receiver_view :: "bool \<Rightarrow> rui \<Rightarrow> element list" where
  "receiver_view directories u =
     Para (v_status u) #
     (if directories then folder_line (v_saveDir u) else []) @
     concat (map (\<lambda>r. createFileRow (fr_status r)) (v_rows u)) @
     (case v_pending u of H_sink _ _ _ _ _ \<Rightarrow> createFileRow None | _ \<Rightarrow> [])"

subsection \<open>Sharing the link or the code\<close>

text \<open>What the platform has and how its promises end: the share sheet (accepted, dismissed by the user
  or failed), the clipboard (written or refused).\<close>

datatype share_result = Share_accepted | Share_dismissed | Share_failed

record share_env =
  sh_sheet :: "share_result option"
  sh_clipboard :: "bool option"

text \<open>The result: what was handed to the share sheet, the text now in the clipboard, and the key shown.\<close>

definition shareOrCopy :: "share_env \<Rightarrow> string option \<Rightarrow> string \<Rightarrow> bool \<times> string option \<times> string option" where
  "shareOrCopy env url text' =
     (let secret = (case url of Some u \<Rightarrow> if u = [] then text' else u | None \<Rightarrow> text');
          copy = (\<lambda>tried. case sh_clipboard env of
            Some True \<Rightarrow> (tried, Some secret, Some ''shareCopied'')
          | _ \<Rightarrow> (tried, None, Some ''shareCopyManually''))
      in case sh_sheet env of
           Some Share_accepted \<Rightarrow> (True, None, None)
         | Some Share_dismissed \<Rightarrow> (True, None, None)
         | Some Share_failed \<Rightarrow> copy True
         | None \<Rightarrow> copy False)"

lemma share_status: "snd (snd (shareOrCopy env url text')) \<in> {None, Some ''shareCopied'', Some ''shareCopyManually''}"
  "snd (snd (shareOrCopy env url text')) = Some ''shareCopied'' \<longleftrightarrow> fst (snd (shareOrCopy env url text')) \<noteq> None"
  by (auto simp: shareOrCopy_def Let_def split: option.split share_result.split bool.split)

end
