(* ===== verification/ViewProps.thy ===== *)
theory ViewProps
  imports Views
begin

section \<open>Properties of the screens\<close>

text \<open>
  Every key that a screen asks for is in both dictionaries, on the pairing screens in every run of
  the client and on the transfer screens in every run of either, with one exception: the lookup of
  an error code that names a member of \<open>Object.prototype\<close>.
\<close>

subsection \<open>The status lines and the code\<close>

definition swap_keys :: "string list" where
  "swap_keys = [''swapBusyLocal'', ''swapRequesting'', ''swapTimedOut'', ''swapRejected'']"

definition screen_ok :: "ui \<Rightarrow> bool" where
  "screen_ok u \<longleftrightarrow> (u_screen u = Code_receiver_waiting \<longrightarrow> u_code u \<noteq> None)"

definition lines_ok :: "app \<Rightarrow> bool" where
  "lines_ok a \<longleftrightarrow> a_swapStatus a \<in> insert None (Some ` set swap_keys) \<and> a_reconnectStatus a \<in> {None, Some ''reconnecting''}"

definition shown_ok :: "app \<Rightarrow> bool" where
  "shown_ok a \<longleftrightarrow> screen_ok (a_ui a) \<and> lines_ok a"

lemma lines_same: "a_swapStatus a' = a_swapStatus a \<Longrightarrow> a_reconnectStatus a' = a_reconnectStatus a \<Longrightarrow> lines_ok a' = lines_ok a"
  by (simp add: lines_ok_def)

lemma shown_same:
  assumes "a_ui a' = a_ui a" "a_swapStatus a' = a_swapStatus a" "a_reconnectStatus a' = a_reconnectStatus a"
  shows "shown_ok a' = shown_ok a"
  using assms by (simp add: shown_ok_def lines_ok_def)

lemma lines_keep [simp]:
  "lines_ok (map_sock i f a) = lines_ok a" "lines_ok (map_ui n g a) = lines_ok a" "lines_ok (stop_scan n a) = lines_ok a"
  "lines_ok (app_send i fr a) = lines_ok a" "lines_ok (connect p a) = lines_ok a" "lines_ok (open_for p a) = lines_ok a"
  "lines_ok (a\<lparr>a_ui := u\<rparr>) = lines_ok a" "lines_ok (a\<lparr>a_handle := h\<rparr>) = lines_ok a" "lines_ok (a\<lparr>a_active := k\<rparr>) = lines_ok a"
  "lines_ok (a\<lparr>a_stopScan := sc\<rparr>) = lines_ok a" "lines_ok (a\<lparr>a_pending := fs\<rparr>) = lines_ok a" "lines_ok (a\<lparr>a_tokens := ts\<rparr>) = lines_ok a"
  "lines_ok (a\<lparr>a_reconnectTimers := rt\<rparr>) = lines_ok a" "lines_ok (a\<lparr>a_scans := ss\<rparr>) = lines_ok a"
  "lines_ok (a\<lparr>a_swapAwaiting := b\<rparr>) = lines_ok a" "lines_ok (a\<lparr>a_swapDisabled := b\<rparr>) = lines_ok a"
  "lines_ok (a\<lparr>a_swapTimers := m\<rparr>) = lines_ok a" "lines_ok (set_scan n ph a) = lines_ok a"
  by (rule lines_same; simp add: map_sock_def map_ui_def stop_scan_def app_send_def connect_def open_for_def set_scan_def)+

lemma lines_detach [simp]: "lines_ok (detachActiveTransfer a) = lines_ok a"
  by (simp add: detachActiveTransfer_def split: option.split)

lemma lines_cleanup [simp]: "lines_ok (cleanupActive a) = lines_ok a"
  by (simp add: cleanupActive_def Let_def split: option.split)

lemma lines_render: "lines_ok a \<Longrightarrow> lines_ok (render a)"
  by (simp add: render_def renderSenderScanning_def split: screen.split)
    (simp add: renderPaired_def lines_ok_def Let_def)

lemma shown_advance: "lines_ok a \<Longrightarrow> screen_ok u \<Longrightarrow> shown_ok (advance u a)"
  by (simp add: shown_ok_def advance_def lines_render)

lemma shown_setState: "lines_ok a \<Longrightarrow> screen_ok u \<Longrightarrow> shown_ok (setState u a)"
  by (simp add: setState_def shown_advance)

lemma screens_ok [simp]: "screen_ok (ui_error code)" "s \<noteq> Code_receiver_waiting \<Longrightarrow> screen_ok (ui_at s)"
  by (simp_all add: screen_ok_def)

lemma shown_fail [simp]: "lines_ok a \<Longrightarrow> shown_ok (fail_with code a)"
  by (simp add: fail_with_def shown_setState)

lemma shown_keep [simp]:
  "shown_ok (map_sock i f a) = shown_ok a" "shown_ok (map_ui n g a) = shown_ok a" "shown_ok (stop_scan n a) = shown_ok a"
  "shown_ok (app_send i fr a) = shown_ok a" "shown_ok (connect p a) = shown_ok a" "shown_ok (open_for p a) = shown_ok a"
  "shown_ok (a\<lparr>a_handle := h\<rparr>) = shown_ok a" "shown_ok (a\<lparr>a_active := k\<rparr>) = shown_ok a" "shown_ok (set_scan n ph a) = shown_ok a"
  "shown_ok (a\<lparr>a_stopScan := sc\<rparr>) = shown_ok a" "shown_ok (a\<lparr>a_pending := fs\<rparr>) = shown_ok a" "shown_ok (a\<lparr>a_tokens := ts\<rparr>) = shown_ok a"
  "shown_ok (a\<lparr>a_reconnectTimers := rt\<rparr>) = shown_ok a" "shown_ok (a\<lparr>a_scans := ss\<rparr>) = shown_ok a"
  "shown_ok (a\<lparr>a_swapAwaiting := b\<rparr>) = shown_ok a" "shown_ok (a\<lparr>a_swapDisabled := b\<rparr>) = shown_ok a"
  "shown_ok (a\<lparr>a_swapTimers := m\<rparr>) = shown_ok a"
  by (simp_all add: shown_ok_def set_scan_def)

lemma shown_lines: "shown_ok a \<Longrightarrow> lines_ok a"
  by (simp add: shown_ok_def)

lemma shown_render: "shown_ok a \<Longrightarrow> shown_ok (render a)"
  by (simp add: shown_ok_def lines_render)

lemma shown_swap: "shown_ok a \<Longrightarrow> key \<in> set swap_keys \<Longrightarrow> shown_ok (show_swap key a)"
  by (simp add: shown_ok_def show_swap_def lines_ok_def)

lemma shown_reconnecting: "shown_ok a \<Longrightarrow> shown_ok (a\<lparr>a_reconnectStatus := None\<rparr>)"
  "shown_ok a \<Longrightarrow> shown_ok (a\<lparr>a_reconnectStatus := Some ''reconnecting''\<rparr>)"
  by (simp_all add: shown_ok_def lines_ok_def)

lemma shown_epoch: "shown_ok a \<Longrightarrow> shown_ok (next_epoch a)"
  by (simp add: shown_ok_def next_epoch_def screen_ok_def)

lemma shown_flip: "shown_ok a \<Longrightarrow> shown_ok (flipTransferRole a)"
  unfolding flipTransferRole_def by (rule shown_render) (simp add: shown_ok_def screen_ok_def)

lemma shown_finalize: "shown_ok a \<Longrightarrow> shown_ok (finalizePaired i sid key role a)"
  unfolding finalizePaired_def Let_def by (rule shown_render) (simp add: shown_ok_def screen_ok_def)

lemmas shown_intros = shown_advance shown_setState shown_render shown_swap shown_reconnecting shown_epoch shown_flip shown_finalize

lemma shown_attempt: "shown_ok a \<Longrightarrow> shown_ok (attemptReconnect n a)"
  by (auto simp: attemptReconnect_def Let_def intro!: shown_fail shown_lines shown_reconnecting split: option.split)

lemma rejected_key: "''swapRejected'' \<in> set swap_keys"
  by (simp add: swap_keys_def)

lemma shown_wired:
  assumes "shown_ok a"
  shows "shown_ok (wired_message i env a)"
  using assms by (cases env)
    (simp_all add: wired_message_def Let_def shown_setState shown_lines shown_render shown_epoch shown_flip shown_swap
      shown_reconnecting rejected_key)

lemma shown_exchange_start: "shown_ok a \<Longrightarrow> shown_ok (start_exchange i code k sid role a)"
  by (simp add: start_exchange_def shown_advance shown_lines)

lemma shown_setState_error: "shown_ok a \<Longrightarrow> shown_ok (setState (ui_error code) a)"
  by (simp add: shown_setState shown_lines)

lemma shown_flow:
  assumes "shown_ok a"
  shows "shown_ok (flow_message c i p env rnd a)"
proof -
  have ui: "screen_ok ((ui_at Receiver_waiting)\<lparr>u_sessionId := Some sid, u_sessionKey := Some rnd, u_url := Some url\<rparr>)"
    "screen_ok ((ui_at Code_receiver_waiting)\<lparr>u_code := Some code, u_expiresAt := Some ex\<rparr>)" for sid url code ex
    by (simp_all add: screen_ok_def)
  note rules = shown_setState_error [OF assms] shown_exchange_start [OF assms] shown_finalize [OF assms]
    shown_advance [OF shown_lines [OF assms]] ui
  have r: "shown_ok (receiver_message c i env rnd a)" "shown_ok (code_receiver_message i env a)"
    "shown_ok (join_code_message i code env a)" "shown_ok (join_message i sid key env a)" for code sid key
    using assms rules by (cases env; simp add: flow_message_defs)+
  have "shown_ok (a\<lparr>a_active := Some i, a_reconnectStatus := None\<rparr>)"
    using shown_reconnecting(1) [OF assms] by (simp add: shown_ok_def lines_ok_def)
  then have "shown_ok (reconnect_message i env a)"
    using assms shown_setState_error [OF assms]
    by (cases env) (simp_all add: reconnect_message_def shown_render shown_epoch)
  then show ?thesis using r by (cases p) (simp_all add: flow_message_def)
qed

lemma shown_message:
  assumes "shown_ok a"
  shows "shown_ok (sk_message c i fr rnd a)"
proof -
  have "shown_ok ((wired_message i env ^^ n) (flow_message c i p env rnd (map_sock i f a)))" for n p env f
    by (rule funpow_keeps [where P = shown_ok, OF shown_wired]) (simp_all add: shown_flow assms)
  then show ?thesis using assms by (simp add: sk_message_def Let_def split: option.split)
qed

lemma shown_close:
  assumes "shown_ok a"
  shows "shown_ok (sk_close i a)"
proof -
  have w: "shown_ok (wired_close i b)" if "shown_ok b" for b
    using that by (simp add: wired_close_def shown_attempt)
  have f: "shown_ok (flow_close i p b)" if "shown_ok b" for p b
    using that by (cases p) (simp_all add: flow_close_defs shown_lines)
  have "shown_ok ((wired_close i ^^ n) (flow_close i p (map_sock i g a)))" for n p g
    by (rule funpow_keeps [where P = shown_ok, OF w]) (simp_all add: f assms)
  then show ?thesis using assms by (simp add: sk_close_def Let_def)
qed

lemma shown_sends [simp]: "shown_ok (fold (\<lambda>env. app_send i (g env)) es a) = shown_ok a"
  by (induction es arbitrary: a) simp_all

lemma shown_exchange: "shown_ok a \<Longrightarrow> shown_ok (exchange_settles c i j a)"
  by (simp add: exchange_settles_def Let_def shown_finalize shown_lines split: prod.split x_phase.split sum.split)

lemma shown_token: "shown_ok a \<Longrightarrow> shown_ok (token_settles c n a)"
  by (auto simp: token_settles_def Let_def shown_ok_def screen_ok_def split: prod.split option.split sum.split)

lemma shown_join: "shown_ok a \<Longrightarrow> shown_ok (startJoin sid key a)"
  by (simp add: startJoin_def shown_advance shown_lines screen_ok_def)

lemma shown_join_text: "shown_ok a \<Longrightarrow> shown_ok (join_text err txt' a)"
  by (simp add: join_text_def shown_join shown_lines split: option.split)

lemma shown_scan:
  assumes "shown_ok a"
  shows "shown_ok (scan_granted n a)" "shown_ok (scan_denied n a)" "shown_ok (scan_decoded n txt' a)" "shown_ok (cancel_scan a)"
  using assms by (simp_all add: scan_granted_def scan_denied_def scan_decoded_def cancel_scan_def Let_def shown_join_text
      shown_lines split: list.split scan_phase.split)

lemma shown_ui: "shown_ok a \<Longrightarrow> shown_ok (ui_ready n a)" "shown_ok a \<Longrightarrow> shown_ok (pick n files a)"
  by (simp_all add: ui_ready_def pick_def stale_files_def Let_def split: option.split)

lemma shown_swaps: "shown_ok a \<Longrightarrow> shown_ok (requestRoleSwap a)" "shown_ok a \<Longrightarrow> shown_ok (swap_timeout a)"
  by (simp_all add: requestRoleSwap_def swap_timeout_def Let_def swap_keys_def shown_swap split: option.split)

lemma shown_back: "shown_ok a \<Longrightarrow> shown_ok (click_back a)"
  by (cases "u_screen (a_ui a)") (simp_all add: click_back_def shown_setState shown_lines shown_scan)

lemma shown_submit: "shown_ok a \<Longrightarrow> shown_ok (submit_code v a)"
  by (simp add: submit_code_def startJoinByCode_def shown_advance shown_lines split: option.split)

lemma shown_disconnect: "shown_ok a \<Longrightarrow> shown_ok (disconnectSession a)"
  by (simp add: disconnectSession_def shown_setState shown_lines split: option.split)

lemma shown_timer: "shown_ok a \<Longrightarrow> shown_ok (reconnect_timer n a)"
  by (simp add: reconnect_timer_def shown_attempt)

lemma shown_step:
  assumes "shown_ok a"
  shows "shown_ok (app_step c a e)"
  using assms by (cases e)
    (simp_all add: on_screen_def startReceiverFlow_def startReceiverCodeFlow_def sk_open_def shown_timer shown_submit
      shown_disconnect shown_message shown_close shown_exchange shown_token shown_scan shown_ui shown_swaps shown_back
      shown_join_text shown_join shown_advance shown_setState shown_lines split: option.split)

lemma shown_init: "shown_ok (initPairing secure hash)"
  by (auto simp: initPairing_def screen_ok_def ui_at_def app_empty_def lines_ok_def intro!: shown_advance split: option.split)

interpretation shown: event_machine "\<lambda>_. True" "\<lambda>(c, secure, hash). initPairing secure hash"
  "\<lambda>(c, secure, hash). app_step c" "\<lambda>_. shown_ok"
  by unfold_locales (auto simp: shown_init shown_step)

lemma app_run_shown: "shown_ok (app_run c (initPairing secure hash) evs)"
  using shown.reach_inv [of "(c, secure, hash)" evs] by simp

subsection \<open>Every text is in both languages\<close>

text \<open>The keys that the elements of a screen hand to \<open>t\<close>.\<close>

fun element_keys :: "element \<Rightarrow> string list" where
  "element_keys (Para key) = [key]"
| "element_keys (Btn key enabled act) = [key]"
| "element_keys (Link key) = [key]"
| "element_keys _ = []"

definition keys_of :: "element list \<Rightarrow> string list" where
  "keys_of els = concat (map element_keys els)"

fun is_native :: "element \<Rightarrow> bool" where
  "is_native (Native _) = True"
| "is_native _ = False"

lemma keys_of_simps [simp]:
  "keys_of [] = []" "keys_of (el # els) = element_keys el @ keys_of els" "keys_of (xs @ ys) = keys_of xs @ keys_of ys"
  by (simp_all add: keys_of_def)

lemma known_keys:
  "list_all translated swap_keys" "translated ''reconnecting''" "translated ''errGeneric''" "list_all translated (map snd ERROR_MESSAGE_KEYS)"
  "list_all translated [''transferWaitingForFiles'', ''transferReceivingFiles'', ''transferError'', ''transferLargeFileWarning'',
     ''transferSavedToDisk'', ''transferDownloaded'', ''transferTooLarge'', ''transferCanceled'', ''transferSending'', ''transferSent'']"
  "list_all translated [''shareCopied'', ''shareCopyManually'', ''dropHint'', ''transferSenderHint'', ''cancelButton'', ''openFileLink'',
     ''chooseSaveFolderButton'', ''changeSaveFolderButton'', ''saveFolderChosenPrefix'']"
  unfolding swap_keys_def ERROR_MESSAGE_KEYS_def list.map list.pred_inject snd_conv
  by (intro conjI TrueI translatedI; simp add: pl_strings_def)+

lemma screen_keys:
  "list_all translated (keys_of (renderInsecureContext @ renderRoleSelect @ renderCodeRoleSelect @ renderJoinDetected @
     renderCodeSenderEntry @ renderSenderPaste @ scanning_view))"
  "list_all translated [''receiverGenerating'', ''statusJoining'', ''statusVerifying'', ''tryAgain'', ''receiverWaiting'', ''receiverLinkLabel'',
     ''shareSecurityWarning'', ''shareButton'', ''backButton'', ''codeReceiverWaiting'', ''codeExpiryNote'', ''copyCodeButton'',
     ''statusPairedHost'', ''statusPairedGuest'', ''swapRolesButton'', ''disconnectButton'']"
  unfolding view_defs keys_of_simps append.simps element_keys.simps list.pred_inject
  by (intro conjI TrueI translatedI; simp add: pl_strings_def)+

lemma status_line_keys: "lines_ok a \<Longrightarrow>
    list_all translated (keys_of (status_line (a_swapStatus a) @ status_line (a_reconnectStatus a)))"
  using known_keys(1,2) by (auto simp: lines_ok_def status_line_def list_all_iff split: option.split)

lemma error_text_keys: "list_all translated (element_keys (error_text code))"
proof (cases code)
  case (Some c)
  show ?thesis
  proof (cases "map_of ERROR_MESSAGE_KEYS c")
    case None
    then show ?thesis using Some known_keys(3) by (simp add: error_text_def)
  next
    case (Some key)
    then have "key \<in> set (map snd ERROR_MESSAGE_KEYS)" using map_of_SomeD by force
    then have "translated key" using known_keys(4) by (auto simp only: list_all_iff set_map)
    then show ?thesis using Some \<open>code = Some c\<close> by (simp add: error_text_def)
  qed
qed (simp add: error_text_def known_keys)

lemma view_translated:
  assumes "shown_ok a"
  shows "list_all translated (keys_of (view a))"
proof -
  have "lines_ok a" using assms by (rule shown_lines)
  from status_line_keys [OF this] show ?thesis
    using screen_keys error_text_keys [of "u_code (a_ui a)"]
    by (cases "u_screen (a_ui a)"; simp only: view_def screen.case)
      (auto simp: renderError_def renderReceiverWaiting_def renderCodeReceiverWaiting_def paired_view_def Let_def split: option.split)
qed

text \<open>The one element whose text is not the text of a key.\<close>

lemma members_no_codes: "list_all (\<lambda>code. map_of ERROR_MESSAGE_KEYS code = None) object_members"
  by code_simp

lemma error_codes_no_members: "code \<in> set object_members \<Longrightarrow> map_of ERROR_MESSAGE_KEYS code = None"
  using members_no_codes by (simp only: list_all_iff)

lemma error_text_native:
  "filter is_native [error_text code] =
     (case code of None \<Rightarrow> [] | Some c \<Rightarrow> if c \<in> set object_members then [Native c] else [])"
  using error_codes_no_members by (auto simp: error_text_def split: option.split)

lemma status_line_native [simp]: "filter is_native (status_line k) = []"
  by (simp add: status_line_def split: option.split)

lemma view_native:
  "filter is_native (view a) =
     (if u_screen (a_ui a) = Error_screen
      then case u_code (a_ui a) of None \<Rightarrow> [] | Some c \<Rightarrow> if c \<in> set object_members then [Native c] else []
      else [])"
proof (cases "u_screen (a_ui a) = Error_screen")
  case True
  then have "view a = [error_text (u_code (a_ui a))] @ [Btn ''tryAgain'' True (Act Click_back)]"
    by (simp add: view_def renderError_def)
  then show ?thesis using True by (simp only: filter_append error_text_native) simp
next
  case False
  then show ?thesis
    by (cases "u_screen (a_ui a)") (simp_all add: view_defs Let_def split: option.split)
qed

subsection \<open>The transfer screens\<close>

definition transfer_keys :: "string list" where
  "transfer_keys = [''transferWaitingForFiles'', ''transferReceivingFiles'', ''transferError'', ''transferLargeFileWarning'',
     ''transferSavedToDisk'', ''transferDownloaded'', ''transferTooLarge'', ''transferCanceled'', ''transferSending'', ''transferSent'']"

definition row_text_ok :: "frow \<Rightarrow> bool" where
  "row_text_ok r \<longleftrightarrow> fr_status r \<in> insert None (Some ` set transfer_keys)"

definition texts_ok :: "rui \<Rightarrow> bool" where
  "texts_ok u \<longleftrightarrow> v_status u \<in> set transfer_keys \<and> list_all row_text_ok (v_rows u)"

lemma texts_same: "v_status u' = v_status u \<Longrightarrow> v_rows u' = v_rows u \<Longrightarrow> texts_ok u' = texts_ok u"
  by (simp add: texts_ok_def)

lemma texts_upd:
  assumes "texts_ok u" "\<And>r. row_text_ok r \<Longrightarrow> row_text_ok (f r)"
  shows "texts_ok (upd_row k f u)"
proof -
  have "list_all row_text_ok ((v_rows u)[k := f (v_rows u ! k)])" if "k < length (v_rows u)"
    using assms that by (auto simp: texts_ok_def list_all_length nth_list_update)
  then show ?thesis using assms(1) by (simp add: texts_ok_def upd_row_def)
qed

lemma row_text_kept [simp]:
  "row_text_ok (r\<lparr>fr_sink := s\<rparr>) = row_text_ok r" "row_text_ok (r\<lparr>fr_received := n\<rparr>) = row_text_ok r"
  "row_text_ok (r\<lparr>fr_done := d, fr_cancelHidden := h\<rparr>) = row_text_ok r" "row_text_ok (r\<lparr>fr_armed := b\<rparr>) = row_text_ok r"
  by (simp_all add: row_text_ok_def)

lemma texts_kept [simp]:
  "texts_ok (u\<lparr>v_pending := p\<rparr>) = texts_ok u" "texts_ok (u\<lparr>v_receiving := b\<rparr>) = texts_ok u"
  "texts_ok (u\<lparr>v_browser := w\<rparr>) = texts_ok u" "texts_ok (u\<lparr>v_browser := w, v_closing := ks\<rparr>) = texts_ok u"
  "texts_ok (u\<lparr>v_closing := ks\<rparr>) = texts_ok u"
  by (simp_all add: texts_ok_def)

lemma give_up_texts: "texts_ok u \<Longrightarrow> t \<in> set transfer_keys \<Longrightarrow> texts_ok (give_up_row t k u)"
  by (auto simp: give_up_row_def Let_def row_text_ok_def intro!: texts_upd)

lemma handle_call_texts:
  assumes "texts_ok u"
  shows "texts_ok (handle_call c cl u)"
proof (cases cl)
  case (OnFileStart f n s m)
  then show ?thesis using assms by (simp add: onFileStart_def texts_ok_def transfer_keys_def Let_def)
next
  case (OnChunk f i l pt)
  then show ?thesis using assms
    by (auto simp: onChunk_def intro!: texts_upd split: option.split sum.split)
next
  case (OnFileComplete f)
  then show ?thesis using assms
    by (auto simp: onFileComplete_def Let_def intro!: texts_upd split: option.split sum.split prod.split)
next
  case (OnAborted f r)
  have "texts_ok (u\<lparr>v_receiving := False, v_status := ''transferWaitingForFiles''\<rparr>)"
    using assms by (simp add: texts_ok_def transfer_keys_def)
  moreover have "abortStatusText r \<in> set transfer_keys" by (simp add: abortStatusText_def transfer_keys_def)
  ultimately show ?thesis using OnAborted by (auto simp: onAborted_def Let_def intro!: give_up_texts split: option.split)
next
  case (OnError e)
  have "texts_ok (fail_row k v)" if "texts_ok v" for k v
    using that by (auto simp: fail_row_def transfer_keys_def intro!: give_up_texts)
  then have "texts_ok (fold fail_row ks v)" if "texts_ok v" for ks v
    using that by (induction ks arbitrary: v) simp_all
  moreover have "texts_ok (u\<lparr>v_receiving := False, v_status := ''transferError''\<rparr>)"
    using assms by (simp add: texts_ok_def transfer_keys_def)
  ultimately show ?thesis using OnError by (simp add: onError_def)
qed

lemma outputs_texts: "texts_ok u \<Longrightarrow> texts_ok (fold (run_output c) xs u)"
proof (induction xs arbitrary: u)
  case (Cons x xs)
  then show ?case by (cases x) (simp_all add: handle_call_texts)
qed simp

lemma recv_event_texts: "texts_ok (rcl_ui x) \<Longrightarrow> texts_ok (rcl_ui (recv_event c e x))"
  by (simp add: recv_event_def Let_def outputs_texts)

lemma sink_created_texts: "texts_ok u \<Longrightarrow> texts_ok (sink_created c env u)"
  by (cases "v_pending u") (simp_all add: sink_created_def Let_def texts_ok_def row_text_ok_def transfer_keys_def)

lemma handler_over_texts: "texts_ok u \<Longrightarrow> texts_ok (fst (handler_over c env good u))"
  by (auto simp: handler_over_def write_over_def sink_created_texts intro!: texts_upd split: pending.split bool.split)

lemma close_over_texts: "texts_ok u \<Longrightarrow> texts_ok (close_over k good u)"
  by (auto simp: close_over_def Let_def row_text_ok_def transfer_keys_def intro!: texts_upd)

lemma rcl_step_texts:
  assumes "texts_ok (rcl_ui x)"
  shows "texts_ok (rcl_ui (rcl_step c x e))"
proof (cases e)
  case (Handler_settles env good)
  then show ?thesis using assms handler_over_texts [OF assms, of c env good]
    by (auto simp: handler_settles_def recv_event_texts split: prod.split option.split)
next
  case (Folder_picked d)
  then show ?thesis using assms by (simp add: folder_chosen_def texts_ok_def split: option.split)
qed (use assms in \<open>auto simp: recv_event_texts close_over_texts texts_upd\<close>)

lemma rcl_init_texts: "texts_ok (rcl_ui (rcl_init b))"
  by (simp add: rcl_init_def rui_init_def texts_ok_def transfer_keys_def)

interpretation receiver_texts: event_machine "\<lambda>_. True" "\<lambda>(c, b). rcl_init b" "\<lambda>(c, b). rcl_step c" "\<lambda>_ x. texts_ok (rcl_ui x)"
  by unfold_locales (auto simp: rcl_step_texts rcl_init_texts)

definition send_texts :: "sui \<Rightarrow> bool" where
  "send_texts s \<longleftrightarrow> snd ` set (q_rows s) \<subseteq> set transfer_keys"

lemma next_file_texts: "send_texts s \<Longrightarrow> send_texts (next_file fileId s)"
  by (auto simp: next_file_def send_texts_def transfer_keys_def split: list.split)

lemma settled_key: "settled_text r \<in> set transfer_keys"
  by (auto simp: settled_text_def abortStatusText_def transfer_keys_def split: sum.split js_error.split)

lemma file_event_texts:
  assumes "send_texts s"
  shows "send_texts (file_event e fileId s)"
proof -
  have "send_texts (s\<lparr>q_rows := butlast (q_rows s) @ [(n, settled_text r)]\<rparr>)" for n r
    using assms settled_key [of r] by (auto simp: send_texts_def dest: in_set_butlastD)
  moreover have "send_texts (s\<lparr>q_current := cx\<rparr>)" for cx using assms by (simp add: send_texts_def)
  ultimately show ?thesis using assms
    by (auto simp: file_event_def Let_def next_file_texts split: option.split prod.split s_phase.split)
qed

lemma sui_step_texts:
  assumes "send_texts s"
  shows "send_texts (sui_step s ev)"
proof -
  have same: "send_texts (s\<lparr>q_open := b\<rparr>)" "send_texts (s\<lparr>q_detached := b\<rparr>)" "send_texts (s\<lparr>q_stale := st\<rparr>)"
    "send_texts (s\<lparr>q_sending := b, q_rest := fs, q_accepted := ac\<rparr>)" for b st fs ac
    using assms by (simp_all add: send_texts_def)
  obtain e fileId where ev: "ev = (e, fileId)" by (cases ev)
  show ?thesis unfolding ev using assms same
    by (cases e) (auto simp: handlePicked_def sendFiles_def next_file_texts file_event_texts)
qed

lemma sui_init_texts: "send_texts (sui_init wc k i)"
  by (simp add: sui_init_def send_texts_def)

interpretation sender_texts: event_machine "\<lambda>_. True" "\<lambda>(wc, key, i). sui_init wc key i" "\<lambda>_. sui_step" "\<lambda>_. send_texts"
  by unfold_locales (auto simp: sui_step_texts sui_init_texts)

subsection \<open>What the transfer screens ask for\<close>

lemma row_translated: "status \<in> insert None (Some ` {key. translated key}) \<Longrightarrow> list_all translated (keys_of (createFileRow status))"
  using known_keys(6) by (auto simp: createFileRow_def status_line_def split: option.split)

lemma rows_translated:
  "\<forall>r \<in> set rows. list_all translated (keys_of (f r)) \<Longrightarrow> list_all translated (keys_of (concat (map f rows)))"
  by (induction rows) simp_all

lemma transfer_keys_translated: "key \<in> set transfer_keys \<Longrightarrow> translated key"
  using known_keys(5) by (auto simp: transfer_keys_def)

lemma receiver_view_translated:
  assumes "texts_ok u"
  shows "list_all translated (keys_of (receiver_view directories u))"
proof -
  have "list_all translated (keys_of (createFileRow (fr_status r)))" if "r \<in> set (v_rows u)" for r
    using assms that transfer_keys_translated
    by (intro row_translated) (auto simp: texts_ok_def row_text_ok_def list_all_iff)
  then have "list_all translated (keys_of (concat (map (\<lambda>r. createFileRow (fr_status r)) (v_rows u))))"
    by (intro rows_translated) blast
  moreover have "list_all translated (keys_of (folder_line d))" for d
    using known_keys(6) by (simp add: folder_line_def split: option.split)
  moreover have "list_all translated (keys_of (createFileRow None))" by (rule row_translated) simp
  moreover have "translated (v_status u)" using assms transfer_keys_translated by (simp add: texts_ok_def)
  ultimately show ?thesis by (simp add: receiver_view_def split: pending.split)
qed

lemma sender_view_translated:
  assumes "send_texts s"
  shows "list_all translated (keys_of (sender_view s))"
proof -
  have "list_all translated (keys_of (createFileRow (Some status)))" if row: "(name, status) \<in> set (q_rows s)" for name status
  proof (rule row_translated)
    have "status \<in> snd ` set (q_rows s)" using row by (rule image_eqI [rotated]) simp
    then have "translated status" using assms transfer_keys_translated unfolding send_texts_def by blast
    then show "Some status \<in> insert None (Some ` {key. translated key})" by simp
  qed
  then have "list_all translated (keys_of (concat (map (\<lambda>(name, status). createFileRow (Some status)) (q_rows s))))"
    by (intro rows_translated) auto
  then show ?thesis using known_keys(6) by (simp add: sender_view_def)
qed

text \<open>C27. The screens show no bare key. In every run of the client, each text that the screen it is on asks for
  is in the Polish and in the English dictionary and not empty, and the only text that is not asked
  for by a key is that of the error screen for an error code that names a member of \<open>Object.prototype\<close>
  (there the lookup gives a function or an object instead of a key). All texts of the receiving and
  of the sending transfer screen are in both dictionaries, whatever happened to the transfers: the
  hints, the folder button, the screen's status, and the status, link and Cancel button of each file;
  and so is what the waiting screens say after the link or code was shared or copied.\<close>

theorem every_screen_translated:
  "(let a = app_run c (initPairing secure hash) evs
    in list_all translated (keys_of (view a)) \<and>
       filter is_native (view a) =
         (if u_screen (a_ui a) = Error_screen
          then case u_code (a_ui a) of None \<Rightarrow> [] | Some code \<Rightarrow> if code \<in> set object_members then [Native code] else []
          else [])) \<and>
   list_all translated (keys_of (receiver_view directories (rcl_ui (run (rcl_step uc) (rcl_init b) revs)))) \<and>
   list_all translated (keys_of (sender_view (run sui_step (sui_init wc k i) sevs))) \<and>
   list_all translated (keys_of (status_line (snd (snd (shareOrCopy share url secret)))))"
proof -
  have "list_all translated (keys_of (view (app_run c (initPairing secure hash) evs)))"
    by (rule view_translated [OF app_run_shown])
  moreover have "texts_ok (rcl_ui (run (rcl_step uc) (rcl_init b) revs))"
    using receiver_texts.reach_inv [of "(uc, b)" revs] by simp
  moreover have "send_texts (run sui_step (sui_init wc k i) sevs)"
    using sender_texts.reach_inv [of "(wc, k, i)" sevs] by simp
  moreover have "list_all translated (keys_of (status_line (snd (snd (shareOrCopy share url secret)))))"
    using share_status(1) [of share url secret] known_keys(6) by (auto simp: status_line_def split: option.split)
  ultimately show ?thesis
    unfolding Let_def by (intro conjI view_native receiver_view_translated sender_view_translated)
qed

end
