(* ===== verification/QrCanvas.thy ===== *)
theory QrCanvas
  imports Prelude
begin

section \<open>Drawing a QR code (web/qr-encode.js)\<close>

text \<open>
  The encoder itself (web/vendor/qrcode-generator.js) is the parameter \<open>encoder\<close>: the number of
  modules and the dark ones, or nothing for a text that is too long, for which it throws. A canvas
  has a width, a height and the colour of each pixel; painting outside of it does nothing.
\<close>

record qr_code =
  qr_modules :: nat
  qr_dark :: "nat \<Rightarrow> nat \<Rightarrow> bool"

datatype colour = Transparent | White | Black

record canvas =
  cv_width :: nat
  cv_height :: nat
  cv_pixel :: "nat \<Rightarrow> nat \<Rightarrow> colour"

definition QUIET_ZONE_MODULES :: nat where "QUIET_ZONE_MODULES = 4"

text \<open>Setting the width and height empties a canvas.\<close>

definition resized :: "nat \<Rightarrow> canvas" where
  "resized size' = \<lparr>cv_width = size', cv_height = size', cv_pixel = (\<lambda>_ _. Transparent)\<rparr>"

definition fillRect :: "colour \<Rightarrow> nat \<Rightarrow> nat \<Rightarrow> nat \<Rightarrow> nat \<Rightarrow> canvas \<Rightarrow> canvas" where
  "fillRect col x y w h cv = cv\<lparr>cv_pixel := (\<lambda>px py.
     if x \<le> px \<and> px < x + w \<and> y \<le> py \<and> py < y + h \<and> px < cv_width cv \<and> py < cv_height cv then col else cv_pixel cv px py)\<rparr>"

definition cell_size :: "nat \<Rightarrow> nat \<Rightarrow> nat" where
  "cell_size target modules = max 1 (target div (modules + QUIET_ZONE_MODULES * 2))"

definition draw_module :: "qr_code \<Rightarrow> nat \<Rightarrow> nat \<Rightarrow> nat \<Rightarrow> canvas \<Rightarrow> canvas" where
  "draw_module qr cell row col cv =
     (if qr_dark qr row col
      then fillRect Black ((col + QUIET_ZONE_MODULES) * cell) ((row + QUIET_ZONE_MODULES) * cell) cell cell cv
      else cv)"

definition renderQR :: "(string \<Rightarrow> qr_code option) \<Rightarrow> string \<Rightarrow> nat \<Rightarrow> canvas option" where
  "renderQR encoder text' targetSizePx = (case encoder text' of
     None \<Rightarrow> None
   | Some qr \<Rightarrow>
       (let n = qr_modules qr; cell = cell_size targetSizePx n; size' = cell * (n + QUIET_ZONE_MODULES * 2);
            cv = fillRect White 0 0 size' size' (resized size')
        in Some (fold (\<lambda>row. fold (draw_module qr cell row) [0..<n]) [0..<n] cv)))"

subsection \<open>What is on the canvas\<close>

definition in_module :: "nat \<Rightarrow> nat \<Rightarrow> nat \<Rightarrow> nat \<Rightarrow> nat \<Rightarrow> bool" where
  "in_module cell row col px py \<longleftrightarrow> px div cell = col + QUIET_ZONE_MODULES \<and> py div cell = row + QUIET_ZONE_MODULES"

lemma in_square:
  fixes cell k p :: nat
  assumes "cell > 0"
  shows "k * cell \<le> p \<and> p < k * cell + cell \<longleftrightarrow> p div cell = k"
proof
  assume "k * cell \<le> p \<and> p < k * cell + cell"
  then show "p div cell = k"
    using assms by (intro div_nat_eqI) (simp_all add: mult.commute)
next
  assume "p div cell = k"
  then show "k * cell \<le> p \<and> p < k * cell + cell"
    using assms dividend_less_div_times [of cell p] div_times_less_eq_dividend [of p cell] by auto
qed

lemma draw_module_simps [simp]:
  "cv_width (draw_module qr cell row col cv) = cv_width cv" "cv_height (draw_module qr cell row col cv) = cv_height cv"
  by (simp_all add: draw_module_def fillRect_def)

lemma draw_row_frame [simp]:
  "cv_width (fold (draw_module qr cell row) cols cv) = cv_width cv" "cv_height (fold (draw_module qr cell row) cols cv) = cv_height cv"
  by (induction cols arbitrary: cv) simp_all

lemma draw_module_pixel:
  assumes "cell > 0" "px < cv_width cv" "py < cv_height cv"
  shows "cv_pixel (draw_module qr cell row col cv) px py =
    (if qr_dark qr row col \<and> in_module cell row col px py then Black else cv_pixel cv px py)"
proof -
  have "(col + QUIET_ZONE_MODULES) * cell \<le> px \<and> px < (col + QUIET_ZONE_MODULES) * cell + cell \<and>
      (row + QUIET_ZONE_MODULES) * cell \<le> py \<and> py < (row + QUIET_ZONE_MODULES) * cell + cell \<longleftrightarrow> in_module cell row col px py"
    unfolding in_module_def using in_square [OF assms(1)] by metis
  then show ?thesis using assms(2,3) by (auto simp: draw_module_def fillRect_def)
qed

lemma draw_row_pixel:
  assumes "cell > 0" "px < cv_width cv" "py < cv_height cv"
  shows "cv_pixel (fold (draw_module qr cell row) cols cv) px py =
    (if \<exists>col \<in> set cols. qr_dark qr row col \<and> in_module cell row col px py then Black else cv_pixel cv px py)"
  using assms by (induction cols arbitrary: cv) (auto simp: draw_module_pixel)

lemma draw_all_frame:
  "cv_width (fold (\<lambda>row. fold (draw_module qr cell row) cols) rows cv) = cv_width cv"
  "cv_height (fold (\<lambda>row. fold (draw_module qr cell row) cols) rows cv) = cv_height cv"
  by (induction rows arbitrary: cv) simp_all

lemma draw_all_pixel:
  assumes "cell > 0" "px < cv_width cv" "py < cv_height cv"
  shows "cv_pixel (fold (\<lambda>row. fold (draw_module qr cell row) cols) rows cv) px py =
    (if \<exists>row \<in> set rows. \<exists>col \<in> set cols. qr_dark qr row col \<and> in_module cell row col px py then Black else cv_pixel cv px py)"
  using assms by (induction rows arbitrary: cv) (auto simp: draw_row_pixel)

text \<open>Dividing a coordinate by the size of a cell gives the module it shows, counted from the edge of
  the quiet zone.\<close>

definition module_at :: "qr_code \<Rightarrow> nat \<Rightarrow> nat \<Rightarrow> nat \<Rightarrow> bool" where
  "module_at qr cell px py =
     (let col = px div cell; row = py div cell; q = QUIET_ZONE_MODULES
      in q \<le> col \<and> col < qr_modules qr + q \<and> q \<le> row \<and> row < qr_modules qr + q \<and> qr_dark qr (row - q) (col - q))"

lemma module_at_iff:
  "module_at qr cell px py \<longleftrightarrow>
     (\<exists>row \<in> {0..<qr_modules qr}. \<exists>col \<in> {0..<qr_modules qr}. qr_dark qr row col \<and> in_module cell row col px py)"
proof
  assume "module_at qr cell px py"
  then show "\<exists>row \<in> {0..<qr_modules qr}. \<exists>col \<in> {0..<qr_modules qr}. qr_dark qr row col \<and> in_module cell row col px py"
    by (intro bexI [of _ "py div cell - QUIET_ZONE_MODULES"] bexI [of _ "px div cell - QUIET_ZONE_MODULES"])
      (auto simp: module_at_def in_module_def Let_def)
qed (auto simp: module_at_def in_module_def Let_def)

lemma cell_size_bounds:
  assumes "d = modules + 8"
  shows "cell_size target modules \<ge> 1" "target < (cell_size target modules + 1) * d"
    "if d \<le> target then cell_size target modules * d \<le> target else cell_size target modules = 1"
proof -
  have c: "cell_size target modules = max 1 (target div d)" by (simp add: cell_size_def QUIET_ZONE_MODULES_def assms)
  show "cell_size target modules \<ge> 1" by (simp add: c)
  have "target < (target div d + 1) * d" using dividend_less_div_times [of d target] assms by simp
  also have "\<dots> \<le> (cell_size target modules + 1) * d" by (simp add: c)
  finally show "target < (cell_size target modules + 1) * d" .
  show "if d \<le> target then cell_size target modules * d \<le> target else cell_size target modules = 1"
  proof (cases "d \<le> target")
    case True
    then have "target div d \<ge> 1" using assms div_le_mono [of d target d] by simp
    then show ?thesis using True by (simp add: c max_def)
  qed (simp add: c)
qed

text \<open>C29. The drawing is the code: every pixel of the canvas is black exactly where the module it belongs to is
  dark, and white otherwise, with a quiet zone of four modules on each side; the modules are squares of
  the same whole number of pixels, as large as fit into the size asked for, which the canvas exceeds
  only if there are more modules than pixels. Where the encoder refuses the text, nothing is drawn.\<close>

theorem qr_canvas_shows_code:
  "case encoder text' of
     None \<Rightarrow> renderQR encoder text' target = None
   | Some qr \<Rightarrow>
       (\<exists>cv cell. renderQR encoder text' target = Some cv \<and> cell \<ge> 1 \<and>
          cv_width cv = cell * (qr_modules qr + 8) \<and> cv_height cv = cell * (qr_modules qr + 8) \<and>
          target < (cell + 1) * (qr_modules qr + 8) \<and>
          (if qr_modules qr + 8 \<le> target then cv_width cv \<le> target else cell = 1) \<and>
          (\<forall>px py. cv_pixel cv px py =
             (if px < cv_width cv \<and> py < cv_height cv then (if module_at qr cell px py then Black else White) else Transparent)))"
proof (cases "encoder text'")
  case (Some qr)
  define n where "n = qr_modules qr"
  define cell where "cell = cell_size target n"
  define cv where "cv = fillRect White 0 0 (cell * (n + 8)) (cell * (n + 8)) (resized (cell * (n + 8)))"
  define out where "out = fold (\<lambda>row. fold (draw_module qr cell row) [0..<n]) [0..<n] cv"
  have r: "renderQR encoder text' target = Some out"
    using Some by (simp add: renderQR_def out_def cv_def n_def cell_def Let_def QUIET_ZONE_MODULES_def)
  have c: "cell \<ge> 1" unfolding cell_def by (rule cell_size_bounds) (rule refl)
  have size: "cv_width out = cell * (n + 8)" "cv_height out = cell * (n + 8)"
    unfolding out_def draw_all_frame by (simp_all add: cv_def fillRect_def resized_def)
  have frame: "cv_width cv = cell * (n + 8)" "cv_height cv = cell * (n + 8)" by (simp_all add: cv_def fillRect_def resized_def)
  have inside: "cv_pixel out px py = (if module_at qr cell px py then Black else White)"
    if "px < cell * (n + 8)" "py < cell * (n + 8)" for px py
    unfolding out_def using draw_all_pixel [of cell px cv py qr "[0..<n]" "[0..<n]"] that c
    by (simp add: frame module_at_iff n_def) (simp add: cv_def fillRect_def resized_def n_def)
  have outside: "cv_pixel out px py = Transparent" if "\<not> (px < cell * (n + 8) \<and> py < cell * (n + 8))" for px py
  proof -
    have m: "cv_pixel (draw_module qr cell row col cw) px py = cv_pixel cw px py"
      if "\<not> (px < cv_width cw \<and> py < cv_height cw)" for row col cw
      using that by (auto simp: draw_module_def fillRect_def)
    have rw: "cv_pixel (fold (draw_module qr cell row) cols cw) px py = cv_pixel cw px py"
      if "\<not> (px < cv_width cw \<and> py < cv_height cw)" for row cols cw
      using that by (induction cols arbitrary: cw) (simp_all add: m)
    have "cv_pixel (fold (\<lambda>row. fold (draw_module qr cell row) cols) rows cw) px py = cv_pixel cw px py"
      if "\<not> (px < cv_width cw \<and> py < cv_height cw)" for rows cols cw
      using that by (induction rows arbitrary: cw) (simp_all add: rw)
    then show ?thesis using that by (auto simp: out_def frame) (auto simp: cv_def fillRect_def resized_def)
  qed
  note bounds = cell_size_bounds [OF refl, where target = target and modules = n, folded cell_def]
  have "renderQR encoder text' target = Some out \<and> cell \<ge> 1 \<and>
      cv_width out = cell * (n + 8) \<and> cv_height out = cell * (n + 8) \<and> target < (cell + 1) * (n + 8) \<and>
      (if n + 8 \<le> target then cv_width out \<le> target else cell = 1) \<and>
      (\<forall>px py. cv_pixel out px py =
         (if px < cv_width out \<and> py < cv_height out then (if module_at qr cell px py then Black else White) else Transparent))"
    using r bounds inside outside unfolding size by auto
  then show ?thesis unfolding Some option.case n_def by blast
qed (simp add: renderQR_def)

end
