(* ===== verification/QrScan.thy ===== *)
theory QrScan
  imports PairingProps
begin

section \<open>Scanning with the camera (web/qr-scan.js)\<close>

text \<open>
  \<open>startScanning\<close> waits for the camera, then for the video to play; then \<open>tick\<close> looks at a frame,
  at once and again every 200 ms, until one has a code or \<open>stop\<close> is called. The decoder
  (web/vendor/jsQR.js) is the parameter \<open>jsqr\<close>; a frame is \<open>None\<close> while the video has no data yet.
  \<open>qs_given\<close> says that the promise has resolved, so that the caller has \<open>stop\<close>; the calls of
  \<open>onDecode\<close> and \<open>onError\<close> are recorded.

  Theory Pairing sees of a scan only its \<open>scan_phase\<close>; \<open>phase_of\<close> is that view.
\<close>

type_synonym 'f decoder = "'f \<Rightarrow> string option"

datatype qs_phase = Asking_camera | Starting_video | Scanning | Play_rejected | Refused

record qscan =
  qs_phase :: qs_phase
  qs_stopped :: bool
  qs_timer :: bool
  qs_camera :: bool
  qs_srcObject :: bool
  qs_given :: bool
  qs_decoded :: "string list"
  qs_errors :: nat

definition qscan_init :: qscan where
  "qscan_init = \<lparr>qs_phase = Asking_camera, qs_stopped = False, qs_timer = False, qs_camera = False, qs_srcObject = False,
     qs_given = False, qs_decoded = [], qs_errors = 0\<rparr>"

definition qs_stop :: "qscan \<Rightarrow> qscan" where
  "qs_stop s = (if qs_stopped s then s
     else s\<lparr>qs_stopped := True, qs_timer := False, qs_camera := False, qs_srcObject := False\<rparr>)"

definition tick :: "'f decoder \<Rightarrow> 'f option \<Rightarrow> qscan \<Rightarrow> qscan" where
  "tick jsqr frame' s =
     (if qs_stopped s then s
      else case Option.bind frame' jsqr of
        Some text' \<Rightarrow> if text' \<noteq> [] then (let s1 = qs_stop s in s1\<lparr>qs_decoded := qs_decoded s1 @ [text']\<rparr>) else s\<lparr>qs_timer := True\<rparr>
      | None \<Rightarrow> s\<lparr>qs_timer := True\<rparr>)"

text \<open>Events: the camera's promise, the promise of \<open>play()\<close> with the first frame, the timer with the frame
  it finds, and a call of \<open>stop\<close>, which the caller can make once it has it.\<close>

datatype 'f qs_event = Camera_ok | Camera_refused | Video_plays "'f option" | Play_fails | Timer_fires "'f option" | Stop_called

fun qs_step :: "'f decoder \<Rightarrow> qscan \<Rightarrow> 'f qs_event \<Rightarrow> qscan" where
  "qs_step jsqr s Camera_ok =
     (if qs_phase s = Asking_camera then s\<lparr>qs_phase := Starting_video, qs_camera := True, qs_srcObject := True\<rparr> else s)"
| "qs_step jsqr s Camera_refused =
     (if qs_phase s = Asking_camera then s\<lparr>qs_phase := Refused, qs_errors := qs_errors s + 1, qs_given := True\<rparr> else s)"
| "qs_step jsqr s (Video_plays frame') =
     (if qs_phase s = Starting_video then (tick jsqr frame' (s\<lparr>qs_phase := Scanning\<rparr>))\<lparr>qs_given := True\<rparr> else s)"
| "qs_step jsqr s Play_fails = (if qs_phase s = Starting_video then s\<lparr>qs_phase := Play_rejected\<rparr> else s)"
| "qs_step jsqr s (Timer_fires frame') = (if qs_timer s then tick jsqr frame' (s\<lparr>qs_timer := False\<rparr>) else s)"
| "qs_step jsqr s Stop_called = (if qs_given s \<and> qs_phase s = Scanning then qs_stop s else s)"

subsection \<open>The camera\<close>

definition qscan_inv :: "qscan \<Rightarrow> bool" where
  "qscan_inv s \<longleftrightarrow>
     (case qs_phase s of
        Asking_camera \<Rightarrow> \<not> qs_camera s \<and> \<not> qs_timer s \<and> \<not> qs_given s \<and> \<not> qs_stopped s \<and> qs_decoded s = [] \<and> qs_errors s = 0
      | Starting_video \<Rightarrow> qs_camera s \<and> \<not> qs_timer s \<and> \<not> qs_given s \<and> \<not> qs_stopped s \<and> qs_decoded s = [] \<and> qs_errors s = 0
      | Scanning \<Rightarrow> qs_camera s = (\<not> qs_stopped s) \<and> qs_timer s = (\<not> qs_stopped s) \<and> qs_given s \<and>
          length (qs_decoded s) \<le> 1 \<and> (qs_decoded s \<noteq> [] \<longrightarrow> qs_stopped s) \<and> qs_errors s = 0
      | Play_rejected \<Rightarrow> qs_camera s \<and> \<not> qs_timer s \<and> \<not> qs_given s \<and> \<not> qs_stopped s \<and> qs_decoded s = [] \<and> qs_errors s = 0
      | Refused \<Rightarrow> \<not> qs_camera s \<and> \<not> qs_timer s \<and> \<not> qs_stopped s \<and> qs_decoded s = [] \<and> qs_errors s = 1) \<and>
     qs_srcObject s = qs_camera s \<and> list_all (\<lambda>t. t \<noteq> []) (qs_decoded s)"

lemma qs_step_inv: "qscan_inv s \<Longrightarrow> qscan_inv (qs_step jsqr s e)"
  by (cases e; cases "qs_phase s")
    (auto simp: qscan_inv_def tick_def qs_stop_def Let_def split: option.split)

lemma qscan_init_inv: "qscan_inv qscan_init"
  by (simp add: qscan_inv_def qscan_init_def)

interpretation qscanning: event_machine "\<lambda>_. True" "\<lambda>_. qscan_init" qs_step "\<lambda>_. qscan_inv"
  by unfold_locales (auto simp: qs_step_inv qscan_init_inv)

subsection \<open>What pairing.js sees\<close>

definition phase_of :: "qscan \<Rightarrow> scan_phase" where
  "phase_of s = (if qs_stopped s then Stopped
     else case qs_phase s of Scanning \<Rightarrow> Live | Refused \<Rightarrow> Denied | _ \<Rightarrow> Asking)"

text \<open>The changes of a scan's phase that theory Pairing has: granted, denied, stopped or decoded.\<close>

inductive scan_change :: "scan_phase \<Rightarrow> scan_phase \<Rightarrow> bool" where
  scan_same: "scan_change p p"
| scan_asked: "p \<in> {Live, Stopped, Denied} \<Longrightarrow> scan_change Asking p"
| scan_ended: "scan_change Live Stopped"

inductive_cases scan_from_stopped: "scan_change Stopped p"

lemma phase_step: "qscan_inv s \<Longrightarrow> scan_change (phase_of s) (phase_of (qs_step jsqr s e))"
  by (cases e; cases "qs_phase s")
    (auto simp: qscan_inv_def phase_of_def tick_def qs_stop_def Let_def intro: scan_change.intros split: option.split)

text \<open>C28. Scanning, whatever the camera shows and whenever \<open>stop\<close> is called: \<open>onDecode\<close> is called at most once,
  with a text that is not empty and that the decoder read from a frame, and \<open>onError\<close> only when the
  camera was refused. Once a code was read or \<open>stop\<close> called, the camera is off and nothing happens any
  more; until then it is watched, a timer being set for the next frame. Seen from pairing.js each
  step is one of those that it reckons with.\<close>

theorem scan_decodes_once:
  "let s = run (qs_step jsqr) qscan_init evs
   in length (qs_decoded s) \<le> 1 \<and> list_all (\<lambda>t. t \<noteq> []) (qs_decoded s) \<and>
      (if qs_decoded s = [] then True else qs_stopped s) \<and>
      (if qs_stopped s then \<not> qs_camera s \<and> \<not> qs_timer s \<and> qs_step jsqr s e = s
       else if qs_phase s = Scanning then qs_camera s \<and> qs_timer s else True) \<and>
      qs_errors s = (if qs_phase s = Refused then 1 else 0) \<and>
      scan_change (phase_of s) (phase_of (qs_step jsqr s e))"
proof -
  define s where "s = run (qs_step jsqr) qscan_init evs"
  have inv: "qscan_inv s" unfolding s_def using qscanning.reach_inv by simp
  have "qs_step jsqr s e = s" if "qs_stopped s"
    using that inv by (cases e; cases "qs_phase s") (auto simp: qscan_inv_def qs_stop_def tick_def)
  then show ?thesis
    unfolding Let_def s_def [symmetric] using inv phase_step [OF inv]
    by (cases "qs_phase s") (auto simp: qscan_inv_def intro: scan_same)
qed

text \<open>When \<open>play()\<close> rejects, as it does when the video element has left the page because the user went
  back in the meantime, \<open>startScanning\<close> rejects without having stopped the stream: the camera stays on,
  and nobody has a function to stop it.\<close>

theorem rejected_play_leaves_camera_on:
  "let s = run (qs_step jsqr) qscan_init (Camera_ok # Play_fails # evs)
   in qs_camera s \<and> \<not> qs_given s \<and> qs_errors s = 0"
proof -
  define s0 where "s0 = run (qs_step jsqr) qscan_init [Camera_ok, Play_fails]"
  have s0: "qs_phase s0 = Play_rejected" "qs_camera s0" "\<not> qs_given s0" "qs_errors s0 = 0" "\<not> qs_timer s0"
    by (simp_all add: s0_def qscan_init_def)
  have "run (qs_step jsqr) s0 evs = s0"
  proof (induction evs)
    case (Cons e evs)
    have "qs_step jsqr s0 e = s0" using s0 by (cases e) simp_all
    then show ?case using Cons by simp
  qed simp
  moreover have "run (qs_step jsqr) qscan_init (Camera_ok # Play_fails # evs) = run (qs_step jsqr) s0 evs"
    by (simp add: s0_def)
  ultimately show ?thesis using s0 by simp
qed

text \<open>The first frame is looked at before the caller has \<open>stop\<close> or can say that it was cancelled: a code in
  it starts to join even after the user has left the scanning screen.\<close>

theorem left_scan_still_joins:
  assumes "parsePairingText text' = Some (sessionId, sessionKey)"
  shows "let a = app_run c (initPairing True []) [Click_send, Click_back]; a' = app_step c a (Scan_decoded 0 text')
    in u_screen (a_ui a) = Role_select \<and> u_screen (a_ui a') = Joining \<and> a_active a' = Some 0"
  using assms
  by (simp add: initPairing_def advance_def render_def ui_at_def app_empty_def on_screen_def renderSenderScanning_def click_back_def
      cancel_scan_def setState_def cleanupActive_def detachActiveTransfer_def scan_decoded_def set_scan_def join_text_def
      startJoin_def open_for_def connect_def Let_def)

end
