(* ===== verification/Clients.thy ===== *)
theory Clients
  imports ReceiverUIProps SenderUI
begin

section \<open>Two transfer screens with the relay between them\<close>

text \<open>
  The sending and the receiving screen of two paired clients, each with the machine it drives
  (\<open>sendFile\<close> and \<open>attachReceiver\<close>), and the frames under way in either direction, which the relay
  forwards in order. A frame comes into being only when a machine puts it on its socket, and
  reaches the other side only by \<open>Down\<close> or \<open>Up\<close>.
\<close>

subsection \<open>The system\<close>

record client_net =
  cn_snd :: sui
  cn_rcv :: rclient
  cn_down :: "frame list"
  cn_up :: "frame list"

definition cn_init :: "sui \<Rightarrow> rclient \<Rightarrow> client_net" where
  "cn_init s x = \<lparr>cn_snd = s, cn_rcv = x, cn_down = [], cn_up = []\<rparr>"

text \<open>What an event of the sender's screen is for the \<open>sendFile\<close> under way, and what that sends then.\<close>

fun file_input :: "sui \<Rightarrow> sui_event \<Rightarrow> s_event option" where
  "file_input s Promise_settles = Some Settle"
| "file_input s Read_fails = Some Read_fail"
| "file_input s (Socket_message fr) = (if q_open s then Some (Message fr) else None)"
| "file_input s Cancel_file = Some Signal_abort"
| "file_input s Socket_closes = (if q_open s then Some Closed else None)"
| "file_input s _ = None"

definition sui_sends :: "sui \<Rightarrow> sui_event \<Rightarrow> frame list" where
  "sui_sends s e = (case (q_current s, file_input s e) of
     (Some (c, x), Some i) \<Rightarrow> drop (length (s_out x)) (s_out (s_step c x i))
   | _ \<Rightarrow> [])"

definition cn_sender :: "sui_event \<Rightarrow> bytes \<Rightarrow> client_net \<Rightarrow> client_net" where
  "cn_sender e fileId n = n\<lparr>cn_snd := sui_step (cn_snd n) (e, fileId), cn_down := cn_down n @ sui_sends (cn_snd n) e\<rparr>"

abbreviation rcl_log :: "rclient \<Rightarrow> r_out list" where
  "rcl_log x \<equiv> r_log (rcl_recv x)"

definition cn_receiver :: "screen_ctx \<Rightarrow> rcl_event \<Rightarrow> client_net \<Rightarrow> client_net" where
  "cn_receiver uc e n =
     (let x = rcl_step uc (cn_rcv n) e
      in n\<lparr>cn_rcv := x, cn_up := cn_up n @ sent_frames (drop (length (rcl_log (cn_rcv n))) (rcl_log x))\<rparr>)"

datatype cn_event = At_sender sui_event bytes | At_receiver rcl_event | Down | Up bytes

fun cn_step :: "screen_ctx \<Rightarrow> client_net \<Rightarrow> cn_event \<Rightarrow> client_net" where
  "cn_step uc n (At_sender e fileId) = (case e of Socket_message _ \<Rightarrow> n | _ \<Rightarrow> cn_sender e fileId n)"
| "cn_step uc n (At_receiver e) = (case e of Net_frame _ \<Rightarrow> n | _ \<Rightarrow> cn_receiver uc e n)"
| "cn_step uc n Down = (case cn_down n of
     [] \<Rightarrow> n | fr # rest \<Rightarrow> cn_receiver uc (Net_frame fr) (n\<lparr>cn_down := rest\<rparr>))"
| "cn_step uc n (Up fileId) = (case cn_up n of
     [] \<Rightarrow> n | fr # rest \<Rightarrow> cn_sender (Socket_message fr) fileId (n\<lparr>cn_up := rest\<rparr>))"

text \<open>
  The order of events of an undisturbed transfer. It names no frame: what arrives is what the
  sender's machine has sent by then, and the acknowledgements are the receiver's.
\<close>

definition chunk_trip :: "save_env \<Rightarrow> cn_event list" where
  "chunk_trip env =
     [At_sender Promise_settles [], At_sender Promise_settles [],
      Down, At_receiver Crypto_settles, At_receiver (Handler_settles env True)]"

definition chunk_round :: "save_env \<Rightarrow> cn_event list" where
  "chunk_round env = chunk_trip env @ [Up []]"

definition first_events :: "js_file \<Rightarrow> bytes \<Rightarrow> nat option \<Rightarrow> save_env \<Rightarrow> cn_event list" where
  "first_events file' fileId dir env =
     [At_receiver (Folder_picked dir), At_sender (Picked_files [file']) fileId,
      At_sender Promise_settles [], At_sender Promise_settles [],
      Down, At_receiver Crypto_settles, At_receiver Crypto_settles, At_receiver (Handler_settles env True)]"

definition transfer_schedule :: "js_file \<Rightarrow> bytes \<Rightarrow> nat option \<Rightarrow> save_env \<Rightarrow> cn_event list" where
  "transfer_schedule file' fileId dir env =
     first_events file' fileId dir env @ concat (replicate (totalChunks file') (chunk_round env)) @
     [At_receiver (Sink_closed 0 True)]"

subsection \<open>Runs of one side\<close>

lemma rcl_step_grows: "\<exists>new. rcl_log (rcl_step c x e) = rcl_log x @ new"
proof -
  have r: "\<exists>new. rcl_log (recv_event c e' y) = rcl_log y @ new" for e' y
    using r_step_grows [of "rcl_recv y" "uc_recv c" e'] by (simp add: recv_event_def Let_def log_grows_def)
  have "\<exists>new. rcl_log (handler_settles c env good x) = rcl_log x @ new" for env good
    using r [of _ "x\<lparr>rcl_ui := u\<rparr>" for u] by (simp add: handler_settles_def split: prod.split option.split)
  then show ?thesis
    using r [of _ x] r [of _ "x\<lparr>rcl_ui := u\<rparr>" for u] by (cases e) simp_all
qed

lemma rcl_run_grows: "\<exists>new. rcl_log (run (rcl_step c) x es) = rcl_log x @ new"
proof (induction es arbitrary: x)
  case (Cons e es)
  obtain a b where "rcl_log (rcl_step c x e) = rcl_log x @ a"
    "rcl_log (run (rcl_step c) (rcl_step c x e) es) = rcl_log (rcl_step c x e) @ b"
    using rcl_step_grows [of c x e] Cons.IH [of "rcl_step c x e"] by blast
  then show ?case by simp
qed simp

fun local_event :: "rcl_event \<Rightarrow> bool" where
  "local_event (Net_frame _) = False"
| "local_event _ = True"

lemma cn_receiver_local: "local_event e \<Longrightarrow> cn_step uc n (At_receiver e) = cn_receiver uc e n"
  by (cases e) simp_all

definition received :: "rclient \<Rightarrow> client_net \<Rightarrow> client_net" where
  "received x n = n\<lparr>cn_rcv := x, cn_up := cn_up n @ sent_frames (drop (length (rcl_log (cn_rcv n))) (rcl_log x))\<rparr>"

lemma cn_receiver_received: "cn_receiver uc e n = received (rcl_step uc (cn_rcv n) e) n"
  by (simp add: cn_receiver_def received_def Let_def)

lemma received_trans:
  assumes "\<exists>a. rcl_log x = rcl_log (cn_rcv n) @ a" "\<exists>b. rcl_log y = rcl_log x @ b"
  shows "received y (received x n) = received y n"
  using assms by (auto simp: received_def)

lemma received_rcv [simp]: "cn_rcv (received x n) = x" "cn_down (received x n) = cn_down n" "cn_snd (received x n) = cn_snd n"
  by (simp_all add: received_def)

lemma cn_local_run:
  assumes "list_all local_event es" "\<exists>a. rcl_log x = rcl_log (cn_rcv n) @ a"
  shows "run (cn_step uc) (received x n) (map At_receiver es) = received (run (rcl_step uc) x es) n"
  using assms
proof (induction es arbitrary: x)
  case Nil
  then show ?case by simp
next
  case (Cons e es)
  have grow: "\<exists>b. rcl_log (rcl_step uc x e) = rcl_log x @ b" by (rule rcl_step_grows)
  then have "\<exists>a. rcl_log (rcl_step uc x e) = rcl_log (cn_rcv n) @ a" using Cons.prems(2) by auto
  moreover have "cn_step uc (received x n) (At_receiver e) = received (rcl_step uc x e) n"
    using Cons.prems received_trans [OF Cons.prems(2) grow]
    by (simp add: cn_receiver_local cn_receiver_received del: cn_step.simps)
  ultimately show ?case using Cons.IH Cons.prems(1) by (simp del: cn_step.simps)
qed

text \<open>A frame is delivered and the receiver works on it.\<close>

lemma cn_deliver:
  assumes "cn_down n = fr # rest" "list_all local_event es"
  shows "run (cn_step uc) n (Down # map At_receiver es) =
    received (run (rcl_step uc) (cn_rcv n) (Net_frame fr # es)) (n\<lparr>cn_down := rest\<rparr>)"
  using assms cn_local_run [OF assms(2), of "rcl_step uc (cn_rcv n) (Net_frame fr)" "n\<lparr>cn_down := rest\<rparr>" uc]
    rcl_step_grows [of uc "cn_rcv n" "Net_frame fr"]
  by (simp add: cn_receiver_received del: rcl_step.simps)

text \<open>Two promises of \<open>sendFile\<close> are fulfilled, and it is not over then.\<close>

lemma cn_settle:
  assumes "q_current (cn_snd n) = Some (c, x)" "\<forall>r. s_phase (s_step c x Settle) \<noteq> Settled r"
  shows "cn_step uc n (At_sender Promise_settles f) =
    n\<lparr>cn_snd := (cn_snd n)\<lparr>q_current := Some (c, s_step c x Settle)\<rparr>,
      cn_down := cn_down n @ drop (length (s_out x)) (s_out (s_step c x Settle))\<rparr>"
  using assms by (simp add: cn_sender_def sui_sends_def file_event_def Let_def split: s_phase.split del: s_step.simps)

lemma settled_stays: "s_phase x = Settled r \<Longrightarrow> s_step c x Settle = x"
  by (simp add: s_settle_def)

lemma cn_settle_twice:
  assumes cur: "q_current (cn_snd n) = Some (c, x)" and x2: "run (s_step c) x [Settle, Settle] = x2"
    and open': "\<forall>r. s_phase x2 \<noteq> Settled r" and out: "s_out x2 = s_out x @ new"
  shows "run (cn_step uc) n [At_sender Promise_settles f, At_sender Promise_settles f] =
    n\<lparr>cn_snd := (cn_snd n)\<lparr>q_current := Some (c, x2)\<rparr>, cn_down := cn_down n @ new\<rparr>"
proof -
  let ?x1 = "s_step c x Settle"
  have x2: "s_step c ?x1 Settle = x2" using x2 by simp
  then have x1: "\<forall>r. s_phase ?x1 \<noteq> Settled r" using open' settled_stays by metis
  obtain a b where "s_out ?x1 = s_out x @ a" "s_out x2 = s_out ?x1 @ b"
    using s_step_grows [of x c Settle] s_step_grows [of ?x1 c Settle] x2 by (auto simp: out_grows_def)
  then have new: "drop (length (s_out x)) (s_out ?x1) @ drop (length (s_out ?x1)) (s_out x2) = new"
    using out by simp
  show ?thesis
    using cn_settle [OF cur x1, of uc f] cn_settle [of _ c ?x1 uc f] open' x2 new
    by (simp del: cn_step.simps s_step.simps)
qed

subsection \<open>The transfer\<close>

text \<open>The screens between two chunks: \<open>i\<close> chunks sent, received and acknowledged.\<close>

definition between :: "sui \<Rightarrow> send_ctx \<Rightarrow> screen_ctx \<Rightarrow> save_env \<Rightarrow> nat option \<Rightarrow> browser \<Rightarrow> nat \<Rightarrow> client_net" where
  "between s c uc env dir b i =
     \<lparr>cn_snd = s\<lparr>q_current := Some (c, at_read c i (int i - 1))\<rparr>, cn_rcv = arrived c uc env dir b i, cn_down = [], cn_up = []\<rparr>"

lemma after_chunk_waits:
  "\<forall>r. s_phase (after_chunk c i (int i - 1)) \<noteq> Settled r"
  "s_out (after_chunk c i (int i - 1)) = s_out (at_read c i (int i - 1)) @ [chunk_frame_of c i]" if "i < total c"
  using that by (auto simp: after_chunk_def s_loop_def s_final_def at_read_def WINDOW_SIZE_def frames_upto_Suc)

lemma acked_step:
  assumes "good_ctx c" "i < total c"
  shows "s_step c (after_chunk c i (int i - 1)) (Message (ack_frame c (int i))) =
    (if Suc i = total c then (at_read c (Suc i) (int i))\<lparr>s_phase := Settled (Inr ())\<rparr> else at_read c (Suc i) (int i))"
proof (cases "Suc i = total c")
  case True
  then show ?thesis
    by (simp add: after_chunk_def s_loop_def s_final_def at_read_def s_listening_def s_onMessage_def s_wake_def s_finish_def
        True [symmetric])
next
  case False
  then have "Suc i < total c" using assms(2) by simp
  then show ?thesis
    using after_chunk_more [of i c "int i - 1"]
    by (simp add: WINDOW_SIZE_def at_read_def s_listening_def s_onMessage_def s_wake_def)
qed

lemma sent_by_chunk:
  assumes "good_ctx c" "uc_recv uc = rctx c" "total c \<le> 2 ^ 64" "i < total c"
  shows "sent_frames (drop (length (rcl_log (arrived c uc env dir b i))) (rcl_log (arrived c uc env dir b (Suc i)))) =
    [ack_frame c (int i)]"
proof -
  have "rcl_log (arrived c uc env dir b (Suc i)) = rcl_log (arrived c uc env dir b i) @ chunk_outs c i @
      (if Suc i = total c then [Call (OnFileComplete (fileIdHex c))] else [])"
    using arrived_log [OF assms(1-3), of "Suc i" env dir b] arrived_log [OF assms(1-3), of i env dir b] assms(4)
    by simp
  then show ?thesis by (simp add: chunk_outs_def ack_out_def ack_frame_def)
qed

text \<open>One chunk, up to the delivery of its acknowledgement.\<close>

lemma chunk_under_way:
  assumes "good_ctx c" "uc_recv uc = rctx c" "total c \<le> 2 ^ 64" "i < total c"
  shows "run (cn_step uc) (between s c uc env dir b i) (chunk_trip env) =
    \<lparr>cn_snd = s\<lparr>q_current := Some (c, after_chunk c i (int i - 1))\<rparr>, cn_rcv = arrived c uc env dir b (Suc i),
      cn_down = [], cn_up = [ack_frame c (int i)]\<rparr>"
proof -
  let ?n = "between s c uc env dir b i"
  let ?m = "?n\<lparr>cn_snd := s\<lparr>q_current := Some (c, after_chunk c i (int i - 1))\<rparr>, cn_down := [chunk_frame_of c i]\<rparr>"
  let ?es = "[Crypto_settles, Handler_settles env True]"
  have "run (cn_step uc) ?n [At_sender Promise_settles [], At_sender Promise_settles []] = ?m"
    using cn_settle_twice [OF _ send_chunk_run [OF assms(1)] after_chunk_waits [OF assms(4)], of ?n uc "[]"]
    by (simp add: between_def del: cn_step.simps)
  moreover have "run (cn_step uc) ?m (Down # map At_receiver ?es) =
      received (run (rcl_step uc) (cn_rcv ?m) (Net_frame (chunk_frame_of c i) # ?es)) (?m\<lparr>cn_down := []\<rparr>)"
    by (rule cn_deliver) simp_all
  moreover have "run (rcl_step uc) (cn_rcv ?m) (Net_frame (chunk_frame_of c i) # ?es) = arrived c uc env dir b (Suc i)"
    by (simp only: arrived_Suc rcl_chunk_events_def) (simp add: between_def del: rcl_step.simps)
  ultimately have "run (cn_step uc) ?n ([At_sender Promise_settles [], At_sender Promise_settles []] @ Down # map At_receiver ?es) =
      received (arrived c uc env dir b (Suc i)) (?m\<lparr>cn_down := []\<rparr>)"
    by (simp only: run_append)
  then show ?thesis
    using sent_by_chunk [OF assms, of env dir b]
    by (simp add: chunk_trip_def received_def between_def del: cn_step.simps)
qed

text \<open>The acknowledgement arrives: the next chunk is read, or the file is over.\<close>

lemma chunk_acked:
  assumes "good_ctx c" "q_open s" "Suc i < total c"
    and n: "n = \<lparr>cn_snd = s\<lparr>q_current := Some (c, after_chunk c i (int i - 1))\<rparr>, cn_rcv = arrived c uc env dir b (Suc i),
      cn_down = [], cn_up = [ack_frame c (int i)]\<rparr>"
  shows "cn_step uc n (Up []) = between s c uc env dir b (Suc i)"
proof -
  have "s_step c (after_chunk c i (int i - 1)) (Message (ack_frame c (int i))) = at_read c (Suc i) (int i)"
    "s_out (after_chunk c i (int i - 1)) = s_out (at_read c (Suc i) (int i))" "s_phase (at_read c (Suc i) (int i)) = Reading (Suc i)"
    using assms acked_step [OF assms(1), of i] after_chunk_more [of i c "int i - 1"]
    by (simp_all add: WINDOW_SIZE_def at_read_def)
  then show ?thesis
    using assms(2) by (simp add: n cn_sender_def sui_sends_def file_event_def Let_def between_def del: s_step.simps)
qed

lemma last_chunk_acked:
  assumes "good_ctx c" "q_open s" "Suc i = total c" "q_rest s = []"
    and n: "n = \<lparr>cn_snd = s\<lparr>q_current := Some (c, after_chunk c i (int i - 1))\<rparr>, cn_rcv = arrived c uc env dir b (Suc i),
      cn_down = [], cn_up = [ack_frame c (int i)]\<rparr>"
  shows "cn_step uc n (Up []) =
    \<lparr>cn_snd = s\<lparr>q_rows := butlast (q_rows s) @ [(f_name (sc_file c), ''transferSent'')], q_sending := False,
       q_current := None, q_rest := []\<rparr>,
     cn_rcv = arrived c uc env dir b (total c), cn_down = [], cn_up = []\<rparr>"
proof -
  have "s_step c (after_chunk c i (int i - 1)) (Message (ack_frame c (int i))) = (at_read c (Suc i) (int i))\<lparr>s_phase := Settled (Inr ())\<rparr>"
    using assms(3) acked_step [OF assms(1), of i] by simp_all
  moreover have "s_out (after_chunk c i (int i - 1)) = s_out (at_read c (Suc i) (int i))"
  proof -
    have "i < total c" using assms(3) by simp
    then show ?thesis using after_chunk_waits(2) [of i c] by (simp add: at_read_def frames_upto_Suc)
  qed
  ultimately show ?thesis
    using assms(2-4)
    by (simp add: n cn_sender_def sui_sends_def file_event_def next_file_def settled_text_def Let_def del: s_step.simps)
qed

lemma chunk_rounds:
  assumes "good_ctx c" "uc_recv uc = rctx c" "total c \<le> 2 ^ 64" "q_open s" "k < total c"
  shows "run (cn_step uc) (between s c uc env dir b 0) (concat (replicate k (chunk_round env))) = between s c uc env dir b k"
  using assms(5)
proof (induction k)
  case 0
  then show ?case by simp
next
  case (Suc k)
  have "run (cn_step uc) (between s c uc env dir b k) (chunk_round env) = between s c uc env dir b (Suc k)"
    unfolding chunk_round_def run_append chunk_under_way [OF assms(1-3) Suc_lessD [OF Suc.prems]] run_Cons run_Nil
    by (rule chunk_acked [OF assms(1,4) Suc.prems refl])
  moreover have "concat (replicate (Suc k) (chunk_round env)) = concat (replicate k (chunk_round env)) @ chunk_round env"
    by (simp add: replicate_append_same [symmetric])
  ultimately show ?case using Suc.IH Suc.prems by (simp only: run_append Suc_lessD)
qed

lemma all_chunks:
  assumes "good_ctx c" "uc_recv uc = rctx c" "total c \<le> 2 ^ 64" "q_open s" "q_rest s = []"
  shows "run (cn_step uc) (between s c uc env dir b 0) (concat (replicate (total c) (chunk_round env))) =
    \<lparr>cn_snd = s\<lparr>q_rows := butlast (q_rows s) @ [(f_name (sc_file c), ''transferSent'')], q_sending := False,
       q_current := None, q_rest := []\<rparr>,
     cn_rcv = arrived c uc env dir b (total c), cn_down = [], cn_up = []\<rparr>"
proof -
  obtain k where k: "Suc k = total c" using total_pos_ctx [of c] gr0_implies_Suc by metis
  then have less: "k < total c" by simp
  have split: "concat (replicate (total c) (chunk_round env)) = concat (replicate k (chunk_round env)) @ chunk_round env"
    unfolding k [symmetric] by (simp add: replicate_append_same [symmetric])
  have last': "run (cn_step uc) (between s c uc env dir b k) (chunk_round env) =
      \<lparr>cn_snd = s\<lparr>q_rows := butlast (q_rows s) @ [(f_name (sc_file c), ''transferSent'')], q_sending := False,
         q_current := None, q_rest := []\<rparr>,
       cn_rcv = arrived c uc env dir b (total c), cn_down = [], cn_up = []\<rparr>"
    unfolding chunk_round_def run_append chunk_under_way [OF assms(1-3) less] run_Cons run_Nil
    by (rule last_chunk_acked [OF assms(1,4) k assms(5) refl])
  show ?thesis unfolding split run_append chunk_rounds [OF assms(1-4) less] last' by (rule refl)
qed

text \<open>The \<open>sendFile\<close> that the sender's screen starts for a file picked on it.\<close>

definition picked_ctx :: "webcrypto \<Rightarrow> bytes \<Rightarrow> js_file \<Rightarrow> bytes \<Rightarrow> send_ctx" where
  "picked_ctx wc epochKey file' fileId = \<lparr>sc_wc = wc, sc_epochKey = epochKey, sc_file = file', sc_fileId = fileId\<rparr>"

definition picked_sui :: "webcrypto \<Rightarrow> bytes \<Rightarrow> nat \<Rightarrow> js_file \<Rightarrow> bytes \<Rightarrow> sui" where
  "picked_sui wc key i file' fileId = (sui_init wc key i)\<lparr>q_sending := True,
     q_current := Some (picked_ctx wc key file' fileId, s_init), q_rows := [(f_name file', ''transferSending'')],
     q_accepted := [[file']]\<rparr>"

lemma pick_starts: "sui_step (sui_init wc key i) (Picked_files [f], fileId) = picked_sui wc key i f fileId"
  by (simp add: picked_sui_def sui_init_def handlePicked_def sendFiles_def next_file_def picked_ctx_def s_init_def)

lemma first_events_run:
  fixes wc key i f fileId
  defines "c \<equiv> picked_ctx wc key f fileId"
  assumes "good_ctx c" "uc_recv uc = rctx c" "total c \<le> 2 ^ 64"
  shows "run (cn_step uc) (cn_init (sui_init wc key i) (rcl_init b)) (first_events f fileId dir env) =
    between (picked_sui wc key i f fileId) c uc env dir b 0"
proof -
  let ?s = "picked_sui wc key i f fileId"
  let ?x = "rcl_step uc (rcl_init b) (Folder_picked dir)"
  let ?n = "\<lparr>cn_snd = ?s, cn_rcv = ?x, cn_down = [], cn_up = []\<rparr>"
  let ?m = "?n\<lparr>cn_snd := ?s\<lparr>q_current := Some (c, at_read c 0 (- 1))\<rparr>, cn_down := [meta_frame c]\<rparr>"
  let ?es = "[Crypto_settles, Crypto_settles, Handler_settles env True]"
  have "sui_sends (sui_init wc key i) (Picked_files [f]) = []" by (simp add: sui_sends_def sui_init_def)
  then have 1: "run (cn_step uc) (cn_init (sui_init wc key i) (rcl_init b))
      [At_receiver (Folder_picked dir), At_sender (Picked_files [f]) fileId] = ?n"
    using pick_starts [of wc key i f fileId]
    by (simp add: cn_init_def cn_receiver_def cn_sender_def Let_def del: sui_step.simps)
  have 2: "run (cn_step uc) ?n [At_sender Promise_settles [], At_sender Promise_settles []] = ?m"
    using cn_settle_twice [of ?n c s_init "at_read c 0 (- 1)" "[meta_frame c]" uc "[]"] start_run [OF assms(2)]
    by (simp add: picked_sui_def c_def at_read_def frames_upto_def s_init_def del: cn_step.simps)
  have 3: "run (cn_step uc) ?m (Down # map At_receiver ?es) =
      received (run (rcl_step uc) (cn_rcv ?m) (Net_frame (meta_frame c) # ?es)) (?m\<lparr>cn_down := []\<rparr>)"
    by (rule cn_deliver) simp_all
  have 4: "run (rcl_step uc) (cn_rcv ?m) (Net_frame (meta_frame c) # ?es) = arrived c uc env dir b 0"
    by (simp add: arrived_def rcl_file_events_def del: rcl_step.simps)
  have split: "first_events f fileId dir env = [At_receiver (Folder_picked dir), At_sender (Picked_files [f]) fileId] @
      [At_sender Promise_settles [], At_sender Promise_settles []] @ (Down # map At_receiver ?es)"
    by (simp add: first_events_def)
  have log: "rcl_log ?x = []" by (simp add: rcl_init_def r_init_def)
  have sent: "sent_frames (rcl_log (arrived c uc env dir b 0)) = []"
    using arrived_log [OF assms(2-4), of 0 env dir b] total_pos_ctx [of c] by simp
  show ?thesis
    unfolding split run_append 1 2 3 4 using sent log by (simp add: received_def between_def)
qed

text \<open>The whole schedule: what the receiving screen has been through is exactly the frames of the file.\<close>

lemma transfer_run:
  fixes wc key i f fileId
  defines "c \<equiv> picked_ctx wc key f fileId"
  assumes "good_ctx c" "uc_recv uc = rctx c" "total c \<le> 2 ^ 64"
  shows "run (cn_step uc) (cn_init (sui_init wc key i) (rcl_init b)) (transfer_schedule f fileId dir env) =
    \<lparr>cn_snd = (sui_init wc key i)\<lparr>q_rows := [(f_name f, ''transferSent'')], q_accepted := [[f]]\<rparr>,
     cn_rcv = run (rcl_step uc) (rcl_init b) (Folder_picked dir # rcl_file_events c env (totalChunks f) @ [Sink_closed 0 True]),
     cn_down = [], cn_up = []\<rparr>"
proof -
  let ?s = "picked_sui wc key i f fileId"
  have t: "totalChunks f = total c" and name: "f_name f = f_name (sc_file c)" by (simp_all add: c_def picked_ctx_def)
  have s: "q_open ?s" "q_rest ?s = []" by (simp_all add: picked_sui_def sui_init_def)
  have done': "?s\<lparr>q_rows := butlast (q_rows ?s) @ [(f_name (sc_file c), ''transferSent'')], q_sending := False,
      q_current := None, q_rest := []\<rparr> = (sui_init wc key i)\<lparr>q_rows := [(f_name f, ''transferSent'')], q_accepted := [[f]]\<rparr>"
    by (simp add: picked_sui_def sui_init_def name)
  have closed: "rcl_step uc (arrived c uc env dir b (total c)) (Sink_closed 0 True) =
      run (rcl_step uc) (rcl_init b) (Folder_picked dir # rcl_file_events c env (total c) @ [Sink_closed 0 True])"
    unfolding arrived_def append_Cons [symmetric] run_append by simp
  have "rcl_log (rcl_step uc y (Sink_closed 0 True)) = rcl_log y" for y by simp
  then have last': "cn_step uc \<lparr>cn_snd = q, cn_rcv = y, cn_down = [], cn_up = []\<rparr> (At_receiver (Sink_closed 0 True)) =
      \<lparr>cn_snd = q, cn_rcv = rcl_step uc y (Sink_closed 0 True), cn_down = [], cn_up = []\<rparr>" for q y
    by (simp add: cn_receiver_def Let_def del: rcl_step.simps)
  show ?thesis
    unfolding transfer_schedule_def run_append t first_events_run [OF assms(2-4) [unfolded c_def], folded c_def]
      all_chunks [OF assms(2-4) s] done' run_Cons run_Nil last' closed
    by (rule refl)
qed

end
