(* ===== verification/Session.thy ===== *)
theory Session
  imports Clients PairingFlows
begin

section \<open>From pairing to a saved file\<close>

text \<open>
  \<open>renderTransferUI\<close> of web/transfer-ui.js, where a session of theory Pairing becomes one of the
  two transfer screens, and the path from two clients that pair by link to a file saved on the
  receiving side, through every component in between (theory Clients runs the two screens).
\<close>

datatype transfer_ui = Sender_ui sui | Receiver_ui screen_ctx rclient

text \<open>What the conversions of JavaScript give for odd metadata (see \<open>screen_ctx\<close>), and the browser.\<close>

record ui_env =
  ue_wc :: webcrypto
  ue_string :: "json \<Rightarrow> string"
  ue_large :: "json \<Rightarrow> bool"
  ue_browser :: browser

definition renderTransferUI :: "ui_env \<Rightarrow> tui \<Rightarrow> transfer_ui res" where
  "renderTransferUI env t = (case t_key t of
     None \<Rightarrow> Inl Type_error
   | Some sessionKey \<Rightarrow>
       (case deriveEpochKey (ue_wc env) sessionKey (t_epoch t) of
          Inl e \<Rightarrow> Inl e
        | Inr epochKey \<Rightarrow>
            if t_role t = Some Receiving
            then Inr (Receiver_ui \<lparr>uc_recv = \<lparr>rc_wc = ue_wc env, rc_epochKey = epochKey\<rparr>, uc_string = ue_string env, uc_large = ue_large env\<rparr>
              (rcl_init (ue_browser env)))
            else Inr (Sender_ui (sui_init (ue_wc env) epochKey (case t_socket t of Some i \<Rightarrow> i | None \<Rightarrow> 0)))))"

lemma epoch_key:
  assumes "webcrypto_lawful wc" "length key = 32"
  shows "\<exists>k. deriveEpochKey wc key epoch = Inr k \<and> length k = 32"
proof -
  have "length (wc_hkdf wc a b d (8 * 32)) = 32" for a b d using assms(1) unfolding webcrypto_lawful_def by blast
  then show ?thesis using assms(2) by (simp add: deriveEpochKey_def assertLength_def hkdf_def KEY_SIZE_BITS_def)
qed

text \<open>The transfer UI of a client that has just paired.\<close>

definition paired_tui :: "bytes \<Rightarrow> direction \<Rightarrow> tui" where
  "paired_tui key dir = \<lparr>t_socket = Some 0, t_role = Some dir, t_epoch = 0, t_key = Some key, t_ready = False,
     t_detached = False, t_busy = False, t_batches = []\<rparr>"

lemma host_tui: "a_uis (app_run c (initPairing True []) (host_run sid key)) = [paired_tui key Receiving]"
  by (simp add: host_run_def run_defs paired_tui_def Let_def)

lemma guest_tui:
  "parsePairingText url = Some (sid, key) \<Longrightarrow>
     a_uis (app_run c (initPairing True []) (guest_run url)) = [paired_tui key Sending]"
  by (simp add: guest_run_def run_defs paired_tui_def Let_def)

text \<open>C1. Pairing and transfer together. Two clients pair by link, the host's link read by the guest. Their
  screens are then a receiving and a sending one, with the same epoch key, which each side derived
  from what the link carried. When a file is picked on the sending screen and both screens run, the
  frames of each machine being carried to the other in order, then at the end of the given schedule
  the sending screen says the file was sent and takes the next one, the receiving screen has saved
  it under its name with exactly the bytes of the picked file and says so, and no frame is left under
  way. The schedule is: the metadata, then for each chunk that it is read, encrypted, delivered,
  decrypted, written and acknowledged; it fixes when the machines run, not what they send.\<close>

theorem paired_clients_transfer:
  assumes "sid \<noteq> []" "set sid \<subseteq> set url_chars" "length key = 32" "CHR ''#'' \<notin> set (pc_base c)"
    and "webcrypto_lawful (ue_wc henv)" "ue_wc genv = ue_wc henv" "length fileId = 16" "totalChunks file \<le> 2 ^ 64"
  shows "let host = app_run c (initPairing True []) (host_run sid key);
      guest = app_run c (initPairing True []) (guest_run (buildPairingURL (pc_base c) sid key))
    in \<exists>uc s. renderTransferUI henv (last (a_uis host)) = Inr (Receiver_ui uc (rcl_init (ue_browser henv))) \<and>
      renderTransferUI genv (last (a_uis guest)) = Inr (Sender_ui s) \<and>
      q_epochKey s = rc_epochKey (uc_recv uc) \<and> deriveEpochKey (ue_wc henv) key 0 = Inr (q_epochKey s) \<and>
      (let n = run (cn_step uc) (cn_init s (rcl_init (ue_browser henv))) (transfer_schedule file fileId dir env);
           saved = v_browser (rcl_ui (cn_rcv n)); row = v_rows (rcl_ui (cn_rcv n)) ! 0
       in q_rows (cn_snd n) = [(f_name file, ''transferSent'')] \<and> \<not> isActive (cn_snd n) \<and>
          v_receiving (rcl_ui (cn_rcv n)) = False \<and> length (v_rows (rcl_ui (cn_rcv n))) = 1 \<and>
          cn_down n = [] \<and> cn_up n = [] \<and>
          (case save_target env (f_name file) dir of
             Some l \<Rightarrow> b_files saved l = Some (f_content file) \<and> fr_status row = Some ''transferSavedToDisk''
           | None \<Rightarrow> b_downloads saved = b_downloads (ue_browser henv) @ [(f_name file, file_mime file, f_content file)] \<and>
               fr_status row = Some ''transferDownloaded''))"
proof -
  define wc where "wc = ue_wc henv"
  have link: "parsePairingText (buildPairingURL (pc_base c) sid key) = Some (sid, key)" using assms(1-4) by (rule link_read)
  obtain k where k: "deriveEpochKey wc key 0 = Inr k" "length k = 32"
    using epoch_key [OF assms(5,3), of 0] unfolding wc_def by blast
  define sctx where "sctx = picked_ctx wc k file fileId"
  define uc where "uc = \<lparr>uc_recv = \<lparr>rc_wc = wc, rc_epochKey = k\<rparr>, uc_string = ue_string henv, uc_large = ue_large henv\<rparr>"
  have ctx: "webcrypto_lawful (sc_wc sctx)" "length (sc_epochKey sctx) = 32" "length (sc_fileId sctx) = 16"
    "totalChunks (sc_file sctx) \<le> 2 ^ 64" "uc_recv uc = rctx sctx" and same_file: "sc_file sctx = file"
    using assms k by (simp_all add: sctx_def picked_ctx_def uc_def wc_def rctx_def)
  have good: "good_ctx sctx" using ctx(1-3) by (simp add: good_ctx_def)
  have host: "renderTransferUI henv (paired_tui key Receiving) = Inr (Receiver_ui uc (rcl_init (ue_browser henv)))"
    using k by (simp add: renderTransferUI_def paired_tui_def uc_def wc_def)
  have guest: "renderTransferUI genv (paired_tui key Sending) = Inr (Sender_ui (sui_init wc k 0))"
    using k assms(6) by (simp add: renderTransferUI_def paired_tui_def wc_def)
  have keys: "q_epochKey (sui_init wc k 0) = rc_epochKey (uc_recv uc)" "deriveEpochKey (ue_wc henv) key 0 = Inr (q_epochKey (sui_init wc k 0))"
    using k by (simp_all add: sui_init_def uc_def wc_def)
  note whole = transfer_run [of wc k "file" fileId, folded sctx_def, OF good ctx(5,4), where i = 0 and b = "ue_browser henv"
      and dir = dir and env = env]
  note saved = file_saved [OF ctx, where env = env and dir = dir and b = "ue_browser henv", unfolded same_file Let_def]
  have "last [t] = t" for t :: tui by simp
  then show ?thesis
    unfolding host_tui guest_tui [OF link] Let_def using saved
    by (intro exI [of _ uc] exI [of _ "sui_init wc k 0"], cases "save_target env (f_name file) dir")
      (simp_all add: host guest keys whole isActive_def, simp_all add: sui_init_def)
qed

definition demo_ui_env :: ui_env where
  "demo_ui_env = \<lparr>ue_wc = demo_crypto, ue_string = (\<lambda>_. []), ue_large = (\<lambda>_. False), ue_browser = browser_init\<rparr>"

definition folder_env :: save_env where
  "folder_env = \<lparr>se_dir = Writable, se_hasPicker = False, se_picked = None\<rparr>"

theorem paired_clients_transfer_witness:
  "let host = app_run demo_ctx (initPairing True []) (host_run ''Ab-_9'' (replicate 32 200));
       guest = app_run demo_ctx (initPairing True []) (guest_run (buildPairingURL (pc_base demo_ctx) ''Ab-_9'' (replicate 32 200)))
   in \<exists>uc s. renderTransferUI demo_ui_env (last (a_uis host)) = Inr (Receiver_ui uc (rcl_init browser_init)) \<and>
        renderTransferUI demo_ui_env (last (a_uis guest)) = Inr (Sender_ui s) \<and>
        (let n = run (cn_step uc) (cn_init s (rcl_init browser_init))
           (transfer_schedule (sc_file one_chunk) (sc_fileId one_chunk) (Some 7) folder_env)
         in q_rows (cn_snd n) = [(f_name (sc_file one_chunk), ''transferSent'')] \<and>
            b_files (v_browser (rcl_ui (cn_rcv n))) (In_folder 7 (f_name (sc_file one_chunk))) = Some [104, 105])"
proof -
  have sid: "''Ab-_9'' \<noteq> []" "set ''Ab-_9'' \<subseteq> set url_chars" "length (replicate 32 (200 :: byte)) = 32" "CHR ''#'' \<notin> set (pc_base demo_ctx)"
    by (simp_all add: url_chars_def demo_ctx_def)
  have env: "webcrypto_lawful (ue_wc demo_ui_env)" "ue_wc demo_ui_env = ue_wc demo_ui_env" "length (sc_fileId one_chunk) = 16"
    "totalChunks (sc_file one_chunk) \<le> 2 ^ 64" using one_chunk_ctx by (simp_all add: demo_crypto_lawful demo_ui_env_def)
  have b: "ue_browser demo_ui_env = browser_init" "f_content (sc_file one_chunk) = [104, 105]"
    by (simp_all add: demo_ui_env_def one_chunk_def demo_send_def)
  have t: "save_target folder_env (f_name (sc_file one_chunk)) (Some 7) = Some (In_folder 7 (f_name (sc_file one_chunk)))"
    by (simp add: save_target_def folder_env_def)
  from paired_clients_transfer [OF sid env, where dir = "Some 7" and env = folder_env] show ?thesis
    unfolding Let_def t option.case b by blast
qed

end
