(* ===== verification/Spec2Isabelle.thy ===== *)
theory Spec2Isabelle
  imports Hex Base64url Crypto Json Wire EndToEnd PairingLoss PairingByCode ReceiverUISaved Preferences ViewProps QrCanvas
    QrScan Session
begin

text \<open>
  Quicksend sends files from one browser to another, encrypted end to end, through a relay that
  only forwards frames. This development models the browser client (the JavaScript under web/ of
  the repository) and proves what the client promises its user: both clients of a pairing come to
  the same key, a file arrives as the bytes that were picked or not at all, connections that drop
  and roles that swap leave the two clients consistent, and what the code does where it falls short.

  The program. web/app.js starts the page: language (i18n.js, strings.js), theme (theme.js) and
  \<open>initPairing\<close> of pairing.js, which holds the state of the client, draws the screens and pairs by
  link (a session id and key in the fragment of a URL, shown as a QR code by qr-encode.js and read by
  qr-scan.js) or by a six-digit code (with the password-authenticated key exchange of pake.js).
  Once paired, \<open>renderTransferUI\<close> of transfer-ui.js derives the key of the epoch (crypto.js) and shows
  the sending screen, which calls \<open>sendFile\<close> of transfer.js for each picked file, or the receiving
  screen, whose handlers \<open>attachReceiver\<close> of transfer.js calls and which saves files through the sinks
  of file-writer.js. Messages are JSON texts and binary chunk frames on a WebSocket (ws-client.js).

  How it is modelled. An async function is a machine: its state says at which \<open>await\<close> it is parked
  and holds its variables; a step is one event (a message, a promise of the platform that settles,
  a timer, a click) with all the code that runs until the next \<open>await\<close>. Errors are values of
  \<open>js_error\<close> in the result type \<open>res\<close>. Typed arrays are lists of 8-bit words, numbers that JavaScript
  stores in a fixed width are reduced modulo that width, strings are lists of code units up to 255
  (a larger one is one \<open>wide\<close> character). Web Crypto, the WebAssembly module, the QR encoder and
  decoder, the disk, the save dialogs and the random bytes are parameters; Web Crypto comes with the
  laws of \<open>webcrypto_lawful\<close>, which \<open>demo_crypto\<close> satisfies.

  The theories, with the files they model:

  \<^item> Prelude: bytes, big-endian numbers, UTF-8 of a string, results, \<open>run\<close> (a machine on a list of
    events); the locales \<open>text_codec\<close> (an encoding that is read back) and \<open>event_machine\<close> (an invariant
    of a machine holds after every run), which the theories below interpret.
  \<^item> Hex, Base64url: hex.js and base64url.js with \<open>parseInt\<close>, \<open>btoa\<close> and \<open>atob\<close> written out; round trips.
  \<^item> Crypto: crypto.js. Which bytes go into which call and which lengths are checked; nonces and
    additional data determine what they are made of; the locale \<open>chunk_cipher\<close>.
  \<^item> Json, Wire: \<open>JSON\<close>, \<open>TextEncoder\<close> and \<open>TextDecoder\<close>, the messages of docs/PROTOCOL.md as the
    handlers see them (\<open>parseEnvelope\<close>, \<open>sendEnvelope\<close>) and the chunk frames of transfer.js.
  \<^item> Sender, SenderInv, SenderProps: \<open>sendFile\<close>. The invariant says which frames are on the socket in
    each phase, the window bounds those not acknowledged; runs that resolve, two that never settle,
    and one that resolves although nothing was acknowledged.
  \<^item> Receiver, ReceiverInv, ReceiverProps: \<open>attachReceiver\<close>, its promise chain as a queue. A receiver's
    log refines a small protocol (\<open>view_step\<close>) that an observer of its calls and frames sees.
  \<^item> EndToEnd: sender and receiver with a channel in each direction, all interleavings, drops and
    cancellations; \<open>net_inv\<close> gives delivery, order and the meaning of a resolved \<open>sendFile\<close>.
  \<^item> Pake, PairingLink: pake.js with its polling loop, \<open>runPakeExchange\<close>, and the link and the code.
  \<^item> Pairing, PairingProps, PairingFlows, PairingLoss, PairingByCode: the state of pairing.js with its
    sockets, scans, timers and transfer UIs; one step for each listener and click; invariants of all
    runs, and two clients that pair, reconnect, swap roles, disconnect or give up.
  \<^item> FileWriter, FileNames: the sinks of file-writer.js on a model of the disk, the downloads and the
    object URLs (locale \<open>file_sink\<close>, interpreted for both kinds), and the names of saved files.
  \<^item> SenderUI: the queue of the sending screen; it refines the abstraction \<open>tui\<close> with which Pairing
    works. ReceiverUI, ReceiverUIProps, ReceiverUIInv, ReceiverUISaved: the receiving screen with the
    receiver; a file that arrives is saved, and nothing is saved that is not all of a file.
  \<^item> Clients, Session: both screens with the relay between them, and the path from pairing by link to
    the saved file through \<open>sendFile\<close>, \<open>attachReceiver\<close> and both screens.
  \<^item> Strings, Views, ViewProps: both dictionaries, what each screen shows, and that every text shown is
    in both languages but for the one case stated there.
  \<^item> Preferences: i18n.js, theme.js and the start of the page; the locale \<open>stored_choice\<close> is the
    contract of a stored preference, interpreted for the language and the theme.
  \<^item> QrCanvas, QrScan: the drawing of a QR code, pixel by pixel, and the scanning loop.

  Fuel and termination. The JSON parser has fuel, one unit for each nested call, and starts with the
  length of the text plus one, which \<open>parse_value_stringify\<close> shows to be enough for every printed
  value. \<open>free_name\<close>, the search for an unused file name, terminates as the names in use are finite;
  \<open>poll\<close>, the loop of \<open>waitFor\<close>, is a partial function, which returns when the clock passes the
  timeout (theory Pake). All other recursion is structural or on the length of a list.

  Hypotheses. Epoch keys have 32 bytes and file ids 16, as the client makes them; a file has at most
  \<open>2 ^ 64\<close> chunks. The relay is taken to forward frames unchanged where two clients are put together;
  a single machine is always run on arbitrary frames. The laws of Web Crypto say nothing about forged
  ciphertexts. Files are saved by a disk whose failures are events. The exact schedule, where a theorem
  has one, is written out in a definition that its text names or describes.

  Simplifications. Only the message fields docs/PROTOCOL.md names are read, at the types it gives, with
  the exception of \<open>ackedUpTo\<close>, which is kept whatever it is. Integers of JSON are unbounded. Progress
  bars, style classes, drag highlighting and the texts of log messages are left out, as are the names
  in the rows of the transfer screens' views.

  Not modelled: the relay server and its cryptography (Go), the WebAssembly module's own code,
  the vendored QR libraries, the tests, and the HTML and CSS.

  Where a comment or document promises more than the code does, a theorem shows what the code does:
  \<open>bare_ack_ends_flow_control\<close>, \<open>sendFile_close_while_busy_hangs\<close>, \<open>sendFile_abort_while_busy_hangs\<close>
  and \<open>sendFile_early_cancel_ignored\<close> (SenderProps), \<open>receiver_cancel_reports_error\<close> and
  \<open>receiver_close_during_meta_unreported\<close> (ReceiverProps), \<open>early_pake_msg_lost\<close> and
  \<open>failed_load_is_final\<close> (Pake), \<open>late_acceptance_splits_roles\<close> (PairingFlows),
  \<open>leaving_shows_connection_lost\<close>, \<open>disconnect_does_not_stop_reconnect\<close> and
  \<open>stale_transfer_ui_stays_attached\<close> (PairingLoss), \<open>batch_continues_on_closed_socket\<close> (SenderUI),
  \<open>existing_file_replaced\<close> (ReceiverUIProps), \<open>completed_after_error_saves_empty\<close> and
  \<open>failed_write_not_reported\<close> (ReceiverUISaved), \<open>unwritable_pick_is_emptied\<close> (FileWriter),
  \<open>rejected_play_leaves_camera_on\<close> and \<open>left_scan_still_joins\<close> (QrScan).
\<close>

end
